theory Spec2Isabelle
  imports
    Complex_Main
    "HOL-Library.Char_ord"
    "HOL-Library.List_Lexorder"
    "HOL-Library.Sublist"
    "HOL-Library.Multiset"
    "HOL-Library.Product_Lexorder"
begin

section \<open>Data model\<close>

text \<open>
  The reporting component \<^verbatim>\<open>src/components/Reports.tsx\<close> works on the records that it
  imports from \<^verbatim>\<open>types.ts\<close>, a file that is not among the sources at hand. Each record
  below lists the fields that the component reads, with the types that their use shows.

  A number that a record stores is finite and is modelled by the rational that it denotes;
  the model does not cover a record that stores \<open>NaN\<close> or an infinity. What an arithmetic
  operation returns is a \<open>double\<close>, defined with the operations of the language below.
  A JavaScript string is a list of characters; \<open>\<le>\<close> on strings is the lexicographic order
  on character codes, as the relational operators of JavaScript are on ASCII text.
\<close>

type_synonym number = rat

record BillItem =
  item_id :: string
  item_from :: string
  item_to :: string
  mode :: string
  bags :: number
  ppBags :: number
  juteBags :: number
  netKgs :: number
  bardanaKgs :: number
  grossKgs :: number
  rate_per_kg :: number
  rs :: number
  item_contract_id :: "int option"

text \<open>
  Modelled from the spec: the type \<^verbatim>\<open>CalculatedDeductions\<close> of \<^verbatim>\<open>types.ts\<close>. It has the seven
  named numeric categories, the numeric amount \<^verbatim>\<open>others\<close> and the text \<^verbatim>\<open>others_description\<close>;
  the key names are those of \<^verbatim>\<open>DEDUCTION_KEYS\<close> in \<^verbatim>\<open>Reports.tsx\<close>.
\<close>

record CalculatedDeductions =
  penalty :: number
  income_tax :: number
  tajveed_ul_quran :: number
  education_cess :: number
  klc :: number
  sd_current :: number
  gst_current :: number
  others :: number
  others_description :: string

record SavedBill =
  bill_id :: string
  bill_number :: string
  bill_date :: string
  contractor_id :: "int option"
  contractor_name :: string
  sanctioned_no :: string
  bill_items :: "BillItem list"
  deductions :: CalculatedDeductions
  grandTotal :: number
  totalDeductions :: number
  netAmount :: number

record Contract =
  contract_id :: int
  contract_contractor_id :: int
  from_location :: string
  to_location :: string

record Contractor =
  contractor_key :: int
  contractor_label :: string

record AuditLog =
  log_id :: string
  timestamp :: string
  userId :: string
  username :: string
  action :: string

text \<open>
  The contractor selector is the value of a select box: \<^verbatim>\<open>"all"\<close> or the id of a contractor
  written as a string, which the code reads back with \<^verbatim>\<open>Number(selectedContractorId)\<close>.
\<close>

datatype contractor_selector = AllContractors | ContractorId int

record FilterState =
  selectedContractorId :: contractor_selector
  selectedRoute :: string
  searchQuery :: string
  startDate :: string
  endDate :: string
  auditActionFilter :: string


section \<open>Built-in operations of the language\<close>

subsection \<open>Strings\<close>

text \<open>
  \<^verbatim>\<open>toLowerCase\<close> on ASCII letters, \<^verbatim>\<open>includes\<close>, and \<^verbatim>\<open>localeCompare\<close> as the
  code uses it, on the month strings \<^verbatim>\<open>YYYY-MM\<close>, whose collation order is the order of
  their character codes.
\<close>

definition toLowerCase :: "string \<Rightarrow> string" where
  "toLowerCase s =
     map (\<lambda>c. let n = (of_char c :: nat) in if 65 \<le> n \<and> n \<le> 90 then char_of (n + 32) else c) s"

definition str_includes :: "string \<Rightarrow> string \<Rightarrow> bool" where
  "str_includes s q = sublist q s"

definition localeCompare :: "string \<Rightarrow> string \<Rightarrow> int" where
  "localeCompare a b = (if a < b then - 1 else if a = b then 0 else 1)"

subsection \<open>Numbers\<close>

text \<open>
  The numbers of the language are the IEEE 754 binary64 values. A \<open>double\<close> is a finite
  value, given by the rational that it denotes, an infinity or \<open>NaN\<close>. The zero of either
  sign is the one value \<open>Finite 0\<close>: no operation of the component tells the two apart.
\<close>

datatype double = Finite rat | PosInfinity | NegInfinity | NaN

text \<open>
  \<open>bit_length n\<close> is the number of binary digits of a positive integer, and \<open>exponent a\<close>
  is, for a positive rational, the integer \<open>e\<close> with \<open>2 ^ e \<le> a < 2 ^ (e + 1)\<close>.
\<close>

function bit_length :: "int \<Rightarrow> int" where
  "bit_length n = (if n \<le> 0 then 0 else 1 + bit_length (n div 2))"
  by pat_completeness auto
termination
  by (relation "measure nat") auto

declare bit_length.simps [simp del]

definition pow2 :: "int \<Rightarrow> rat" where
  "pow2 e = 2 powi e"

definition exponent :: "rat \<Rightarrow> int" where
  "exponent a =
     (let (p, q) = quotient_of a; e = bit_length p - bit_length q
      in if pow2 e \<le> a then e else e - 1)"

text \<open>
  Rounding to a double: the multiple of the quantum nearest to the number, the even one of
  two nearest ones. The quantum of a number with exponent \<open>e\<close> is \<open>2 ^ (e - 52)\<close>, for a
  significand of 53 bits, and \<open>2 ^ (- 1074)\<close> at least. A result of magnitude \<open>2 ^ 1024\<close>,
  which is \<open>overflow_threshold\<close>, is an infinity.
\<close>

definition round_half_even :: "rat \<Rightarrow> int" where
  "round_half_even m =
     (let n = \<lfloor>m\<rfloor>; r = m - of_int n
      in if r < 1 / 2 then n else if 1 / 2 < r then n + 1 else if even n then n else n + 1)"

definition overflow_threshold :: rat where
  "overflow_threshold = 179769313486231590772930519078902473361797697894230657273430081157732675805500963132708477322407536021120113879871393357658789768814416622492847430639474124377767893424865485276302219601246094119453082952085005768838150682342462881473913110540827237163350510684586298239947245938479716304835356329624224137216"

definition round_double :: "rat \<Rightarrow> double" where
  "round_double x =
     (if x = 0 then Finite 0
      else
        let a = \<bar>x\<bar>;
            q = max (exponent a - 52) (- 1074);
            y = of_int (round_half_even (a / pow2 q)) * pow2 q
        in if overflow_threshold \<le> y
           then (if x < 0 then NegInfinity else PosInfinity)
           else Finite (if x < 0 then - y else y))"

text \<open>
  The operators \<^verbatim>\<open>+\<close> and \<^verbatim>\<open>-\<close> on numbers, and the sign of a number, which is all that
  a sort reads of the result of its comparator; \<open>NaN\<close> has no sign.
\<close>

fun double_add :: "double \<Rightarrow> double \<Rightarrow> double" where
  "double_add (Finite x) (Finite y) = round_double (x + y)"
| "double_add NaN y = NaN"
| "double_add x NaN = NaN"
| "double_add PosInfinity NegInfinity = NaN"
| "double_add NegInfinity PosInfinity = NaN"
| "double_add PosInfinity y = PosInfinity"
| "double_add NegInfinity y = NegInfinity"
| "double_add x PosInfinity = PosInfinity"
| "double_add x NegInfinity = NegInfinity"

fun double_neg :: "double \<Rightarrow> double" where
  "double_neg (Finite x) = Finite (- x)"
| "double_neg PosInfinity = NegInfinity"
| "double_neg NegInfinity = PosInfinity"
| "double_neg NaN = NaN"

definition double_sub :: "double \<Rightarrow> double \<Rightarrow> double" where
  "double_sub x y = double_add x (double_neg y)"

fun double_sign :: "double \<Rightarrow> int option" where
  "double_sign (Finite x) = Some (if x < 0 then - 1 else if x = 0 then 0 else 1)"
| "double_sign PosInfinity = Some 1"
| "double_sign NegInfinity = Some (- 1)"
| "double_sign NaN = None"

text \<open>\<^verbatim>\<open>x || 0\<close> for a number \<open>x\<close>: \<open>NaN\<close> and zero are the numbers that count as false.\<close>

fun double_or_zero :: "double \<Rightarrow> double" where
  "double_or_zero NaN = Finite 0"
| "double_or_zero x = x"

text \<open>
  The value of \<open>acc\<close> after the statements \<^verbatim>\<open>acc += x\<close> for the numbers \<open>x\<close> of a list in
  turn, from \<^verbatim>\<open>acc = 0\<close>, and the same for a list of doubles.
\<close>

definition double_sum :: "number list \<Rightarrow> double" where
  "double_sum xs = foldl (\<lambda>acc x. double_add acc (Finite x)) (Finite 0) xs"

definition double_total :: "double list \<Rightarrow> double" where
  "double_total xs = foldl double_add (Finite 0) xs"

text \<open>The value of a decimal literal of a program: the double nearest to it.\<close>

definition literal :: "rat \<Rightarrow> number" where
  "literal r = (case round_double r of Finite d \<Rightarrow> d | _ \<Rightarrow> 0)"

subsection \<open>Array.prototype.sort\<close>

text \<open>
  \<^verbatim>\<open>xs.sort(cmp)\<close> is a stable sort. The comparator returns a number or \<open>NaN\<close> (here
  \<open>None\<close>), and \<open>NaN\<close> counts as \<open>0\<close>; of a number the sort reads the sign only. The
  model is the stable insertion sort.
\<close>

definition SortCompare :: "('a \<Rightarrow> 'a \<Rightarrow> 'n option) \<Rightarrow> 'a \<Rightarrow> 'a \<Rightarrow> ('n :: {zero, linorder})" where
  "SortCompare cmp x y = (case cmp x y of None \<Rightarrow> 0 | Some v \<Rightarrow> v)"

fun insert_by :: "('a \<Rightarrow> 'a \<Rightarrow> ('n :: {zero, linorder}) option) \<Rightarrow> 'a \<Rightarrow> 'a list \<Rightarrow> 'a list" where
  "insert_by cmp x [] = [x]"
| "insert_by cmp x (y # ys) =
     (if SortCompare cmp x y \<le> 0 then x # y # ys else y # insert_by cmp x ys)"

definition js_sort :: "('a \<Rightarrow> 'a \<Rightarrow> ('n :: {zero, linorder}) option) \<Rightarrow> 'a list \<Rightarrow> 'a list" where
  "js_sort cmp xs = foldr (insert_by cmp) xs []"

subsection \<open>Dates\<close>

text \<open>
  \<^verbatim>\<open>new Date(s).getTime()\<close> for the date-time string format of the language, restricted to
  the forms \<^verbatim>\<open>YYYY-MM-DD\<close>, \<^verbatim>\<open>YYYY-MM-DDTHH:mm:ssZ\<close> and \<^verbatim>\<open>YYYY-MM-DDTHH:mm:ss.sssZ\<close>. The
  result is the number of milliseconds since 1970-01-01T00:00:00Z; \<open>None\<close> is \<open>NaN\<close>.
  Strings of any other form are not covered by the model and are read as \<open>NaN\<close>.
\<close>

definition digit :: "char \<Rightarrow> int option" where
  "digit c = (let n = (of_char c :: nat) in if 48 \<le> n \<and> n \<le> 57 then Some (int n - 48) else None)"

fun digits_acc :: "int \<Rightarrow> string \<Rightarrow> int option" where
  "digits_acc a [] = Some a"
| "digits_acc a (c # cs) = (case digit c of None \<Rightarrow> None | Some d \<Rightarrow> digits_acc (10 * a + d) cs)"

definition digits :: "string \<Rightarrow> int option" where
  "digits s = (if s = [] then None else digits_acc 0 s)"

definition InLeapYear :: "int \<Rightarrow> bool" where
  "InLeapYear y = (y mod 4 = 0 \<and> (y mod 100 \<noteq> 0 \<or> y mod 400 = 0))"

definition DayFromYear :: "int \<Rightarrow> int" where
  "DayFromYear y = 365 * (y - 1970) + (y - 1969) div 4 - (y - 1901) div 100 + (y - 1601) div 400"

definition DaysInMonth :: "int \<Rightarrow> int \<Rightarrow> int" where
  "DaysInMonth y m =
     (if m = 2 then (if InLeapYear y then 29 else 28)
      else if m = 4 \<or> m = 6 \<or> m = 9 \<or> m = 11 then 30 else 31)"

fun DaysBeforeMonth :: "int \<Rightarrow> nat \<Rightarrow> int" where
  "DaysBeforeMonth y 0 = 0"
| "DaysBeforeMonth y (Suc k) = DaysBeforeMonth y k + DaysInMonth y (int (Suc k))"

text \<open>The number of the day of a date, counted from 1970-01-01, with the months from 1 to 12.\<close>

definition day_of_date :: "int \<Rightarrow> int \<Rightarrow> int \<Rightarrow> int" where
  "day_of_date y m d = DayFromYear y + DaysBeforeMonth y (nat (m - 1)) + d - 1"

definition msPerDay :: int where
  "msPerDay = 86400000"

definition parse_date :: "string \<Rightarrow> int option" where
  "parse_date s =
     (if length s = 10 \<and> s ! 4 = CHR ''-'' \<and> s ! 7 = CHR ''-'' then
        (case (digits (take 4 s), digits (take 2 (drop 5 s)), digits (drop 8 s)) of
           (Some y, Some m, Some d) \<Rightarrow>
             if 1 \<le> m \<and> m \<le> 12 \<and> 1 \<le> d \<and> d \<le> DaysInMonth y m
             then Some (day_of_date y m d * msPerDay) else None
         | _ \<Rightarrow> None)
      else None)"

text \<open>The milliseconds of a time of day with hours up to 23 and minutes and seconds up to 59.\<close>

definition time_in_day :: "int \<Rightarrow> int \<Rightarrow> int \<Rightarrow> int \<Rightarrow> int option" where
  "time_in_day h m sec ms =
     (if h \<le> 23 \<and> m \<le> 59 \<and> sec \<le> 59 then Some (h * 3600000 + m * 60000 + sec * 1000 + ms)
      else None)"

definition parse_time :: "string \<Rightarrow> int option" where
  "parse_time s =
     (if length s = 9 \<and> s ! 2 = CHR '':'' \<and> s ! 5 = CHR '':'' \<and> s ! 8 = CHR ''Z'' then
        (case (digits (take 2 s), digits (take 2 (drop 3 s)), digits (take 2 (drop 6 s))) of
           (Some h, Some m, Some sec) \<Rightarrow> time_in_day h m sec 0
         | _ \<Rightarrow> None)
      else if length s = 13 \<and> s ! 2 = CHR '':'' \<and> s ! 5 = CHR '':'' \<and> s ! 8 = CHR ''.''
              \<and> s ! 12 = CHR ''Z'' then
        (case (digits (take 2 s), digits (take 2 (drop 3 s)), digits (take 2 (drop 6 s)),
               digits (take 3 (drop 9 s))) of
           (Some h, Some m, Some sec, Some ms) \<Rightarrow> time_in_day h m sec ms
         | _ \<Rightarrow> None)
      else None)"

definition getTime :: "string \<Rightarrow> int option" where
  "getTime s =
     (if length s = 10 then parse_date s
      else if 10 < length s \<and> s ! 10 = CHR ''T'' then
        (case (parse_date (take 10 s), parse_time (drop 11 s)) of
           (Some day, Some t) \<Rightarrow> Some (day + t)
         | _ \<Rightarrow> None)
      else None)"


section \<open>Filters\<close>

text \<open>The predicate of \<^verbatim>\<open>savedBills.filter\<close> in the memo \<^verbatim>\<open>filteredBills\<close>.\<close>

definition routeStr :: "Contract \<Rightarrow> string" where
  "routeStr c = from_location c @ '' -> '' @ to_location c"

definition item_on_route :: "Contract list \<Rightarrow> string \<Rightarrow> BillItem \<Rightarrow> bool" where
  "item_on_route contracts route item =
     (if route = ''all'' then True
      else (case find (\<lambda>c. Some (contract_id c) = item_contract_id item) contracts of
              None \<Rightarrow> False
            | Some contract \<Rightarrow> routeStr contract = route))"

definition contractorMatch :: "FilterState \<Rightarrow> SavedBill \<Rightarrow> bool" where
  "contractorMatch f bill =
     (case selectedContractorId f of
        AllContractors \<Rightarrow> True
      | ContractorId n \<Rightarrow> contractor_id bill = Some n)"

definition searchMatch :: "FilterState \<Rightarrow> SavedBill \<Rightarrow> bool" where
  "searchMatch f bill =
     (searchQuery f = [] \<or> str_includes (toLowerCase (bill_number bill)) (toLowerCase (searchQuery f)))"

definition dateMatch :: "FilterState \<Rightarrow> SavedBill \<Rightarrow> bool" where
  "dateMatch f bill =
     ((startDate f = [] \<or> startDate f \<le> bill_date bill)
      \<and> (endDate f = [] \<or> bill_date bill \<le> endDate f))"

definition routeMatch :: "Contract list \<Rightarrow> FilterState \<Rightarrow> SavedBill \<Rightarrow> bool" where
  "routeMatch contracts f bill =
     (selectedRoute f = ''all''
      \<or> list_ex (item_on_route contracts (selectedRoute f)) (bill_items bill))"

definition bill_passes :: "Contract list \<Rightarrow> FilterState \<Rightarrow> SavedBill \<Rightarrow> bool" where
  "bill_passes contracts f bill =
     (contractorMatch f bill \<and> searchMatch f bill \<and> dateMatch f bill \<and> routeMatch contracts f bill)"

definition by_date_desc :: "SavedBill \<Rightarrow> SavedBill \<Rightarrow> int option" where
  "by_date_desc a b =
     (case (getTime (bill_date b), getTime (bill_date a)) of
        (Some tb, Some ta) \<Rightarrow> Some (tb - ta)
      | _ \<Rightarrow> None)"

definition filteredBills :: "Contract list \<Rightarrow> FilterState \<Rightarrow> SavedBill list \<Rightarrow> SavedBill list" where
  "filteredBills contracts f savedBills =
     js_sort by_date_desc (filter (bill_passes contracts f) savedBills)"

text \<open>
  The predicate of \<^verbatim>\<open>auditLogs.filter\<close> in the memo \<^verbatim>\<open>filteredAuditLogs\<close>. The two dates of
  the end bound are compared as numbers, and a comparison with \<open>NaN\<close> is false.
\<close>

definition date_le :: "int option \<Rightarrow> int option \<Rightarrow> bool" where
  "date_le a b = (case (a, b) of (Some x, Some y) \<Rightarrow> x \<le> y | _ \<Rightarrow> False)"

definition audit_passes :: "FilterState \<Rightarrow> AuditLog \<Rightarrow> bool" where
  "audit_passes f entry =
     (let actionMatch = (auditActionFilter f = ''all'' \<or> action entry = auditActionFilter f);
          searchMatch = (searchQuery f = []
             \<or> str_includes (toLowerCase (username entry)) (toLowerCase (searchQuery f))
             \<or> str_includes (toLowerCase (action entry)) (toLowerCase (searchQuery f)));
          dateMatch = ((startDate f = [] \<or> startDate f \<le> timestamp entry)
             \<and> (endDate f = []
                  \<or> date_le (getTime (timestamp entry)) (getTime (endDate f @ ''T23:59:59.999Z''))))
      in actionMatch \<and> searchMatch \<and> dateMatch)"

definition filteredAuditLogs :: "FilterState \<Rightarrow> AuditLog list \<Rightarrow> AuditLog list" where
  "filteredAuditLogs f auditLogs = filter (audit_passes f) auditLogs"


section \<open>Summary builders\<close>

subsection \<open>The keyed collection\<close>

text \<open>
  A \<^verbatim>\<open>Map\<close> keeps its entries in the order in which their keys were first set, so it is a
  list of pairs: \<open>Map_set\<close> replaces the value of a key in place and appends a new key.
  \<open>Map_modify\<close> stands for the assignments to the fields of the object that
  \<^verbatim>\<open>summaryMap.get(key)!\<close> returns.
\<close>

definition Map_get :: "('k \<times> 'v) list \<Rightarrow> 'k \<Rightarrow> 'v option" where
  "Map_get m k = map_of m k"

definition Map_has :: "('k \<times> 'v) list \<Rightarrow> 'k \<Rightarrow> bool" where
  "Map_has m k = (Map_get m k \<noteq> None)"

fun Map_set :: "('k \<times> 'v) list \<Rightarrow> 'k \<Rightarrow> 'v \<Rightarrow> ('k \<times> 'v) list" where
  "Map_set [] k v = [(k, v)]"
| "Map_set (p # ps) k v = (if fst p = k then (k, v) # ps else p # Map_set ps k v)"

definition Map_modify :: "('k \<times> 'v) list \<Rightarrow> 'k \<Rightarrow> ('v \<Rightarrow> 'v) \<Rightarrow> ('k \<times> 'v) list" where
  "Map_modify m k upd = (case Map_get m k of None \<Rightarrow> m | Some current \<Rightarrow> Map_set m k (upd current))"

definition Map_values :: "('k \<times> 'v) list \<Rightarrow> 'v list" where
  "Map_values m = map snd m"

subsection \<open>Totals of the filtered bills\<close>

record Totals =
  sum_totalAmount :: double
  sum_totalDeductions :: double
  sum_netAmount :: double

definition summary :: "SavedBill list \<Rightarrow> Totals" where
  "summary bills =
     foldl (\<lambda>acc bill.
              acc\<lparr>sum_totalAmount := double_add (sum_totalAmount acc) (Finite (grandTotal bill)),
                  sum_totalDeductions :=
                    double_add (sum_totalDeductions acc) (Finite (totalDeductions bill)),
                  sum_netAmount := double_add (sum_netAmount acc) (Finite (netAmount bill))\<rparr>)
       \<lparr>sum_totalAmount = Finite 0, sum_totalDeductions = Finite 0, sum_netAmount = Finite 0\<rparr>
       bills"

subsection \<open>Contractor summary\<close>

record ContractorRow =
  cs_name :: string
  cs_totalBills :: nat
  cs_grandTotal :: double
  cs_totalDeductions :: double
  cs_netAmount :: double

text \<open>\<^verbatim>\<open>!bill.contractor_id\<close>: the id is missing or is \<open>0\<close>.\<close>

definition no_contractor :: "SavedBill \<Rightarrow> bool" where
  "no_contractor bill = (case contractor_id bill of None \<Rightarrow> True | Some k \<Rightarrow> k = 0)"

definition contractor_add :: "SavedBill \<Rightarrow> ContractorRow \<Rightarrow> ContractorRow" where
  "contractor_add bill current =
     current\<lparr>cs_totalBills := cs_totalBills current + 1,
             cs_grandTotal := double_add (cs_grandTotal current) (Finite (grandTotal bill)),
             cs_totalDeductions :=
               double_add (cs_totalDeductions current) (Finite (totalDeductions bill)),
             cs_netAmount := double_add (cs_netAmount current) (Finite (netAmount bill))\<rparr>"

definition contractor_step :: "(int \<times> ContractorRow) list \<Rightarrow> SavedBill \<Rightarrow> (int \<times> ContractorRow) list" where
  "contractor_step summaryMap bill =
     (if no_contractor bill then summaryMap
      else (case contractor_id bill of
              None \<Rightarrow> summaryMap
            | Some k \<Rightarrow>
                Map_modify
                  (if Map_has summaryMap k then summaryMap
                   else Map_set summaryMap k
                          \<lparr>cs_name = contractor_name bill, cs_totalBills = 0,
                           cs_grandTotal = Finite 0, cs_totalDeductions = Finite 0,
                           cs_netAmount = Finite 0\<rparr>)
                  k (contractor_add bill)))"

definition by_cs_netAmount_desc :: "ContractorRow \<Rightarrow> ContractorRow \<Rightarrow> int option" where
  "by_cs_netAmount_desc a b = double_sign (double_sub (cs_netAmount b) (cs_netAmount a))"

definition contractorSummary :: "SavedBill list \<Rightarrow> ContractorRow list" where
  "contractorSummary bills =
     js_sort by_cs_netAmount_desc (Map_values (foldl contractor_step [] bills))"

subsection \<open>Contract summary\<close>

record ContractRow =
  cr_contract :: Contract
  totalTrips :: nat
  totalNetKgs :: double
  totalAmount :: double
  cr_billIds :: "string list"

text \<open>\<^verbatim>\<open>Set.add\<close>: a set of strings keeps its members in the order of their first insertion.\<close>

definition Set_add :: "string list \<Rightarrow> string \<Rightarrow> string list" where
  "Set_add s x = (if x \<in> set s then s else s @ [x])"

definition contract_add :: "SavedBill \<Rightarrow> BillItem \<Rightarrow> ContractRow \<Rightarrow> ContractRow" where
  "contract_add bill item current =
     current\<lparr>totalTrips := totalTrips current + 1,
             totalNetKgs := double_add (totalNetKgs current) (Finite (netKgs item)),
             totalAmount := double_add (totalAmount current) (Finite (rs item)),
             cr_billIds := Set_add (cr_billIds current) (bill_id bill)\<rparr>"

definition contract_item :: "Contract list \<Rightarrow> SavedBill \<Rightarrow> (int \<times> ContractRow) list \<Rightarrow> BillItem \<Rightarrow> (int \<times> ContractRow) list" where
  "contract_item cs bill summaryMap item =
     (case item_contract_id item of
        None \<Rightarrow> summaryMap
      | Some k \<Rightarrow>
          if k = 0 then summaryMap
          else (case find (\<lambda>c. contract_id c = k) cs of
                  None \<Rightarrow> summaryMap
                | Some contract \<Rightarrow>
                    Map_modify
                      (if Map_has summaryMap (contract_id contract) then summaryMap
                       else Map_set summaryMap (contract_id contract)
                              \<lparr>cr_contract = contract, totalTrips = 0,
                               totalNetKgs = Finite 0, totalAmount = Finite 0,
                               cr_billIds = []\<rparr>)
                      (contract_id contract) (contract_add bill item)))"

definition contract_bill :: "Contract list \<Rightarrow> (int \<times> ContractRow) list \<Rightarrow> SavedBill \<Rightarrow> (int \<times> ContractRow) list" where
  "contract_bill cs summaryMap bill = foldl (contract_item cs bill) summaryMap (bill_items bill)"

definition by_totalAmount_desc :: "ContractRow \<Rightarrow> ContractRow \<Rightarrow> int option" where
  "by_totalAmount_desc a b = double_sign (double_sub (totalAmount b) (totalAmount a))"

definition contractSummary :: "Contract list \<Rightarrow> SavedBill list \<Rightarrow> ContractRow list" where
  "contractSummary cs bills =
     js_sort by_totalAmount_desc (Map_values (foldl (contract_bill cs) [] bills))"

subsection \<open>Monthly summary\<close>

record MonthRow =
  month :: string
  ms_totalBills :: nat
  ms_grandTotal :: double
  ms_totalDeductions :: double
  ms_netAmount :: double

definition month_add :: "SavedBill \<Rightarrow> MonthRow \<Rightarrow> MonthRow" where
  "month_add bill current =
     current\<lparr>ms_totalBills := ms_totalBills current + 1,
             ms_grandTotal := double_add (ms_grandTotal current) (Finite (grandTotal bill)),
             ms_totalDeductions :=
               double_add (ms_totalDeductions current) (Finite (totalDeductions bill)),
             ms_netAmount := double_add (ms_netAmount current) (Finite (netAmount bill))\<rparr>"

definition monthly_step :: "(string \<times> MonthRow) list \<Rightarrow> SavedBill \<Rightarrow> (string \<times> MonthRow) list" where
  "monthly_step summaryMap bill =
     (let m = take 7 (bill_date bill)
      in Map_modify
           (if Map_has summaryMap m then summaryMap
            else Map_set summaryMap m
                   \<lparr>month = m, ms_totalBills = 0, ms_grandTotal = Finite 0,
                    ms_totalDeductions = Finite 0, ms_netAmount = Finite 0\<rparr>)
           m (month_add bill))"

definition by_month_desc :: "MonthRow \<Rightarrow> MonthRow \<Rightarrow> int option" where
  "by_month_desc a b = Some (localeCompare (month b) (month a))"

definition monthlySummary :: "SavedBill list \<Rightarrow> MonthRow list" where
  "monthlySummary bills = js_sort by_month_desc (Map_values (foldl monthly_step [] bills))"

subsection \<open>Station summary\<close>

record StationRow =
  st_name :: string
  dispatchedTrips :: nat
  dispatchedKgs :: double
  dispatchedValue :: double
  receivedTrips :: nat
  receivedKgs :: double
  billIds :: "string list"

definition new_station :: "string \<Rightarrow> StationRow" where
  "new_station n =
     \<lparr>st_name = n, dispatchedTrips = 0, dispatchedKgs = Finite 0, dispatchedValue = Finite 0,
      receivedTrips = 0, receivedKgs = Finite 0, billIds = []\<rparr>"

definition getStation :: "(string \<times> StationRow) list \<Rightarrow> string \<Rightarrow> (string \<times> StationRow) list" where
  "getStation stationMap n =
     (if Map_has stationMap n then stationMap else Map_set stationMap n (new_station n))"

definition dispatch :: "SavedBill \<Rightarrow> BillItem \<Rightarrow> StationRow \<Rightarrow> StationRow" where
  "dispatch bill item fromStation =
     fromStation\<lparr>dispatchedTrips := dispatchedTrips fromStation + 1,
                 dispatchedKgs := double_add (dispatchedKgs fromStation) (Finite (netKgs item)),
                 dispatchedValue := double_add (dispatchedValue fromStation) (Finite (rs item)),
                 billIds := Set_add (billIds fromStation) (bill_id bill)\<rparr>"

definition receive :: "SavedBill \<Rightarrow> BillItem \<Rightarrow> StationRow \<Rightarrow> StationRow" where
  "receive bill item toStation =
     toStation\<lparr>receivedTrips := receivedTrips toStation + 1,
               receivedKgs := double_add (receivedKgs toStation) (Finite (netKgs item)),
               billIds := Set_add (billIds toStation) (bill_id bill)\<rparr>"

definition station_item :: "SavedBill \<Rightarrow> (string \<times> StationRow) list \<Rightarrow> BillItem \<Rightarrow> (string \<times> StationRow) list" where
  "station_item bill stationMap item =
     (let m1 = Map_modify (getStation stationMap (item_from item)) (item_from item) (dispatch bill item)
      in Map_modify (getStation m1 (item_to item)) (item_to item) (receive bill item))"

definition station_bill :: "(string \<times> StationRow) list \<Rightarrow> SavedBill \<Rightarrow> (string \<times> StationRow) list" where
  "station_bill stationMap bill = foldl (station_item bill) stationMap (bill_items bill)"

definition by_dispatchedValue_desc :: "StationRow \<Rightarrow> StationRow \<Rightarrow> int option" where
  "by_dispatchedValue_desc a b = double_sign (double_sub (dispatchedValue b) (dispatchedValue a))"

definition stationSummary :: "SavedBill list \<Rightarrow> StationRow list" where
  "stationSummary bills =
     js_sort by_dispatchedValue_desc (Map_values (foldl station_bill [] bills))"


definition station_row :: "StationRow list \<Rightarrow> string \<Rightarrow> StationRow" where
  "station_row rows n =
     (case find (\<lambda>r. st_name r = n) rows of None \<Rightarrow> new_station n | Some r \<Rightarrow> r)"

subsection \<open>Deduction-category summary\<close>

text \<open>
  The keys of a \<^verbatim>\<open>CalculatedDeductions\<close> object and the value stored under a key, which is a
  number for every key but \<^verbatim>\<open>others_description\<close>.
\<close>

datatype ded_key =
  Penalty | Income_tax | Tajveed_ul_quran | Education_cess | Klc | Sd_current | Gst_current
  | Others | Others_description

datatype js_value = Num double | Str string

definition Object_keys :: "CalculatedDeductions \<Rightarrow> ded_key list" where
  "Object_keys d =
     [Penalty, Income_tax, Tajveed_ul_quran, Education_cess, Klc, Sd_current, Gst_current,
      Others, Others_description]"

fun field :: "CalculatedDeductions \<Rightarrow> ded_key \<Rightarrow> js_value" where
  "field d Penalty = Num (Finite (penalty d))"
| "field d Income_tax = Num (Finite (income_tax d))"
| "field d Tajveed_ul_quran = Num (Finite (tajveed_ul_quran d))"
| "field d Education_cess = Num (Finite (education_cess d))"
| "field d Klc = Num (Finite (klc d))"
| "field d Sd_current = Num (Finite (sd_current d))"
| "field d Gst_current = Num (Finite (gst_current d))"
| "field d Others = Num (Finite (others d))"
| "field d Others_description = Str (others_description d)"

text \<open>
  \<^verbatim>\<open>v || 0\<close> for a number or an absent value \<open>v\<close>, and the number that a value under
  a numeric key is.
\<close>

definition or_zero :: "double option \<Rightarrow> double" where
  "or_zero v = (case v of None \<Rightarrow> Finite 0 | Some x \<Rightarrow> double_or_zero x)"

fun as_number :: "js_value \<Rightarrow> double" where
  "as_number (Num x) = x"
| "as_number (Str s) = Finite 0"

record DeductionsSummary =
  by_key :: "ded_key \<Rightarrow> double option"
  total :: double

definition deductions_key :: "CalculatedDeductions \<Rightarrow> (ded_key \<Rightarrow> double option) \<Rightarrow> ded_key \<Rightarrow> (ded_key \<Rightarrow> double option)" where
  "deductions_key d acc key =
     (if key \<noteq> Others_description
      then acc(key \<mapsto> double_add (or_zero (acc key)) (double_or_zero (as_number (field d key))))
      else acc)"

definition deductions_step :: "DeductionsSummary \<Rightarrow> SavedBill \<Rightarrow> DeductionsSummary" where
  "deductions_step s bill =
     \<lparr>by_key = foldl (deductions_key (deductions bill)) (by_key s) (Object_keys (deductions bill)),
      total = double_add (total s) (Finite (totalDeductions bill))\<rparr>"

definition deductionsSummary :: "SavedBill list \<Rightarrow> DeductionsSummary" where
  "deductionsSummary bills =
     foldl deductions_step \<lparr>by_key = Map.empty, total = Finite 0\<rparr> bills"


section \<open>Statement generation\<close>

text \<open>
  The component receives its collections as properties and keeps the filters, the statement
  and the active tab as state. \<open>alerts\<close> lists the messages shown with \<^verbatim>\<open>alert\<close>, which is
  how the component reports a request that it refuses.
\<close>

record StatementSummary =
  st_grandTotal :: double
  st_netAmount :: double
  st_totalDeductions :: double
  st_deductions :: "ded_key \<Rightarrow> js_value option"

record StatementData =
  contractorName :: string
  period_start :: string
  period_end :: string
  st_bills :: "SavedBill list"
  st_summary :: StatementSummary

datatype ReportTab =
  Tab_details | Tab_contractor | Tab_contract | Tab_monthly | Tab_statement | Tab_station
  | Tab_deductions | Tab_audit | Tab_taxSummary

record ReportsProps =
  savedBills :: "SavedBill list"
  contractors :: "Contractor list"
  contracts :: "Contract list"
  auditLogs :: "AuditLog list"

record ReportsState =
  filters :: FilterState
  statementData :: "StatementData option"
  activeTab :: ReportTab
  alerts :: "string list"

fun typeof_number :: "js_value \<Rightarrow> bool" where
  "typeof_number (Num x) = True"
| "typeof_number (Str s) = False"

text \<open>\<^verbatim>\<open>Number(v) || 0\<close> for a value of the roll-up, which is absent or a number.\<close>

fun Number_or_zero :: "js_value option \<Rightarrow> double" where
  "Number_or_zero None = Finite 0"
| "Number_or_zero (Some v) = double_or_zero (as_number v)"

definition statement_key :: "CalculatedDeductions \<Rightarrow> (ded_key \<Rightarrow> js_value option) \<Rightarrow> ded_key \<Rightarrow> (ded_key \<Rightarrow> js_value option)" where
  "statement_key d acc key =
     (if key \<noteq> Others_description \<and> typeof_number (field d key)
      then acc(key \<mapsto> Num (double_add (Number_or_zero (acc key)) (as_number (field d key))))
      else acc)"

definition statement_step :: "StatementSummary \<Rightarrow> SavedBill \<Rightarrow> StatementSummary" where
  "statement_step acc bill =
     \<lparr>st_grandTotal = double_add (st_grandTotal acc) (Finite (grandTotal bill)),
      st_netAmount = double_add (st_netAmount acc) (Finite (netAmount bill)),
      st_totalDeductions = double_add (st_totalDeductions acc) (Finite (totalDeductions bill)),
      st_deductions =
        foldl (statement_key (deductions bill)) (st_deductions acc) (Object_keys (deductions bill))\<rparr>"

definition handleGenerateStatement :: "ReportsProps \<Rightarrow> ReportsState \<Rightarrow> ReportsState" where
  "handleGenerateStatement props s =
     (case selectedContractorId (filters s) of
        AllContractors \<Rightarrow>
          s\<lparr>alerts := alerts s @ [''Please select a specific contractor to generate a statement.'']\<rparr>
      | ContractorId n \<Rightarrow>
          (case find (\<lambda>c. contractor_key c = n) (contractors props) of
             None \<Rightarrow> s
           | Some contractor \<Rightarrow>
               (let billsForStatement =
                      filter (\<lambda>b. contractor_id b = Some n)
                        (filteredBills (contracts props) (filters s) (savedBills props));
                    summary =
                      foldl statement_step
                        \<lparr>st_grandTotal = Finite 0, st_netAmount = Finite 0,
                         st_totalDeductions = Finite 0, st_deductions = Map.empty\<rparr>
                        billsForStatement
                in s\<lparr>statementData :=
                       Some \<lparr>contractorName = contractor_label contractor,
                             period_start = startDate (filters s),
                             period_end = endDate (filters s),
                             st_bills = billsForStatement,
                             st_summary = summary\<rparr>,
                     activeTab := Tab_statement\<rparr>)))"

text \<open>
  The label that the statement view prints before the amount of the category \<^verbatim>\<open>others\<close>:
  \<^verbatim>\<open>data.summary.deductions.others_description || 'Others'\<close>.
\<close>

definition others_label :: "StatementData \<Rightarrow> string" where
  "others_label data =
     (case st_deductions (st_summary data) Others_description of
        Some (Str s) \<Rightarrow> if s = [] then ''Others'' else s
      | _ \<Rightarrow> ''Others'')"


section \<open>CSV export\<close>

text \<open>
  \<^verbatim>\<open>Number.prototype.toFixed\<close> for a finite number \<open>x\<close>. Below \<open>10 ^ 21\<close> in magnitude
  the result is in fixed notation: the decimal digits of the integer \<open>n\<close> for which
  \<open>n / 10 ^ f\<close> is nearest to the magnitude, the larger one of two, with the point before the
  last \<open>f\<close> digits. From \<open>10 ^ 21\<close> on the result is what the conversion of the number
  to a string gives, which is in exponent notation there.

  The conversion of a double \<open>x\<close> of \<open>10 ^ 21\<close> or more to a string: \<open>s \<times> 10 ^ e\<close> is
  the number with the fewest decimal digits \<open>s\<close> that the language reads as \<open>x\<close>, the nearest
  one to \<open>x\<close> if there are two, and the result is the first digit of \<open>s\<close>, a point before
  further digits if there are any, and the exponent. Seventeen digits are enough for a double.
\<close>

definition digit_char :: "int \<Rightarrow> char" where
  "digit_char d = char_of (48 + d)"

function decimal :: "int \<Rightarrow> string" where
  "decimal n = (if n < 10 then [digit_char n] else decimal (n div 10) @ [digit_char (n mod 10)])"
  by pat_completeness auto
termination
  by (relation "measure nat") auto

declare decimal.simps [simp del]

definition candidates :: "rat \<Rightarrow> int \<Rightarrow> (int \<times> int) list" where
  "candidates x k =
     (let e = int (length (decimal \<lfloor>x\<rfloor>)) - k;
          p = 10 ^ nat e;
          lo = \<lfloor>x / p\<rfloor>;
          hi = lo + 1;
          below = x - of_int lo * p;
          above = of_int hi * p - x;
          nearest_first = (if below < above \<or> (below = above \<and> even lo) then [lo, hi] else [hi, lo])
      in map (\<lambda>s. (s, e)) (filter (\<lambda>s. round_double (of_int s * p) = Finite x) nearest_first))"

fun shortest :: "rat \<Rightarrow> int list \<Rightarrow> int \<times> int" where
  "shortest x [] = (\<lfloor>x / 10 ^ nat (int (length (decimal \<lfloor>x\<rfloor>)) - 17) + 1 / 2\<rfloor>,
                    int (length (decimal \<lfloor>x\<rfloor>)) - 17)"
| "shortest x (k # ks) = (case candidates x k of [] \<Rightarrow> shortest x ks | c # cs \<Rightarrow> c)"

definition Number_toString :: "rat \<Rightarrow> string" where
  "Number_toString x =
     (let (s, e) = shortest x [1, 2, 3, 4, 5, 6, 7, 8, 9, 10, 11, 12, 13, 14, 15, 16, 17];
          n = int (length (decimal s)) + e;
          ds = rev (dropWhile (\<lambda>c. c = CHR ''0'') (rev (decimal s)))
      in (if length ds = 1 then ds else take 1 ds @ ''.'' @ drop 1 ds) @ ''e+'' @ decimal (n - 1))"

definition toFixed :: "number \<Rightarrow> nat \<Rightarrow> string" where
  "toFixed x f =
     (let s = (if x < 0 then ''-'' else []);
          n = \<lfloor>\<bar>x\<bar> * 10 ^ f + 1 / 2\<rfloor>;
          m = decimal n;
          padded = (if length m \<le> f then replicate (f + 1 - length m) (CHR ''0'') @ m else m);
          k = length padded
      in if 10 ^ 21 \<le> \<bar>x\<bar> then s @ Number_toString \<bar>x\<bar>
         else if f \<noteq> 0 then s @ take (k - f) padded @ ''.'' @ drop (k - f) padded
         else s @ m)"

definition fixed_notation :: "number \<Rightarrow> bool" where
  "fixed_notation x = (\<bar>x\<bar> < 10 ^ 21)"

datatype cell = Text string | Numeric number

definition csv_row :: "SavedBill \<Rightarrow> BillItem \<Rightarrow> (string \<times> cell) list" where
  "csv_row bill item =
     [(''Bill #'', Text (bill_number bill)),
      (''Bill Date'', Text (bill_date bill)),
      (''Contractor'', Text (contractor_name bill)),
      (''Sanctioned No'', Text (sanctioned_no bill)),
      (''From'', Text (item_from item)),
      (''To'', Text (item_to item)),
      (''Mode'', Text (mode item)),
      (''Total Bags'', Numeric (bags item)),
      (''PP Bags'', Numeric (ppBags item)),
      (''Jute Bags'', Numeric (juteBags item)),
      (''Net KGs'', Text (toFixed (netKgs item) 2)),
      (''Bardana KGs'', Text (toFixed (bardanaKgs item) 3)),
      (''Gross KGs'', Text (toFixed (grossKgs item) 2)),
      (''Rate/Kg'', Text (toFixed (rate_per_kg item) 4)),
      (''Amount (Rs)'', Text (toFixed (rs item) 2)),
      (''Bill Grand Total'', Text (toFixed (grandTotal bill) 2)),
      (''Bill Total Deductions'', Text (toFixed (totalDeductions bill) 2)),
      (''Bill Net Amount'', Text (toFixed (netAmount bill) 2))]"

text \<open>
  The export refuses an empty selection with a message; otherwise it hands the rows
  \<^verbatim>\<open>flattenedData\<close> to the CSV writer, which is a library outside the component.
\<close>

definition handleExportCSV :: "SavedBill list \<Rightarrow> string + (string \<times> cell) list list" where
  "handleExportCSV bills =
     (if length bills = 0 then Inl ''No data to export.''
      else Inr (concat (map (\<lambda>bill. map (csv_row bill) (bill_items bill)) bills)))"

definition csv_columns :: "string list" where
  "csv_columns =
     [''Bill #'', ''Bill Date'', ''Contractor'', ''Sanctioned No'', ''From'', ''To'', ''Mode'',
      ''Total Bags'', ''PP Bags'', ''Jute Bags'', ''Net KGs'', ''Bardana KGs'', ''Gross KGs'',
      ''Rate/Kg'', ''Amount (Rs)'', ''Bill Grand Total'', ''Bill Total Deductions'',
      ''Bill Net Amount'']"

text \<open>
  The number of digits after the decimal point of a rendered number, and the reading of a
  text as a decimal numeral with \<open>f\<close> decimals: an optional minus sign, digits without a
  leading zero other than a single zero, the point and \<open>f\<close> digits. The reading gives whether
  the sign is there and the digits before and after the point as one integer; a text of
  another form has no reading.
\<close>

definition fraction_digits :: "string \<Rightarrow> nat option" where
  "fraction_digits s =
     (if CHR ''.'' \<in> set s then Some (length (takeWhile (\<lambda>c. c \<noteq> CHR ''.'') (rev s))) else None)"

definition column_decimals :: "(string \<times> cell) list \<Rightarrow> string \<Rightarrow> nat option" where
  "column_decimals row column =
     (case map_of row column of Some (Text s) \<Rightarrow> fraction_digits s | _ \<Rightarrow> None)"

definition read_fixed :: "string \<Rightarrow> nat \<Rightarrow> (bool \<times> int) option" where
  "read_fixed s f =
     (let negative = (take 1 s = ''-'');
          body = (if negative then drop 1 s else s);
          whole = take (length body - f - 1) body;
          fraction = drop (length body - f) body
      in if f + 2 \<le> length body \<and> body ! (length body - f - 1) = CHR ''.''
            \<and> (length whole = 1 \<or> hd whole \<noteq> CHR ''0'')
         then map_option (Pair negative) (digits (whole @ fraction))
         else None)"

text \<open>
  The CSV field contract for the row of an item of a bill. The row has the eighteen columns
  in their order. It carries the number, date, contractor and sanctioned number of the bill
  and the stations, mode and bag counts of the item as they are. Each of the eight figures
  is a text: for a number below \<open>10 ^ 21\<close> in magnitude, the decimal numeral with the
  decimals of its column that is nearest to the number, the one of larger magnitude of two,
  with a minus sign for a negative number; for a larger number, no such numeral.
\<close>

definition figure :: "(string \<times> cell) list \<Rightarrow> string \<Rightarrow> number \<Rightarrow> nat \<Rightarrow> bool" where
  "figure row column x f =
     (case map_of row column of
        Some (Text s) \<Rightarrow>
          (fixed_notation x \<longrightarrow>
             fraction_digits s = Some f
             \<and> read_fixed s f = Some (x < 0, \<lfloor>\<bar>x\<bar> * 10 ^ f + 1 / 2\<rfloor>))
          \<and> (\<not> fixed_notation x \<longrightarrow> read_fixed s f = None)
      | _ \<Rightarrow> False)"

definition csv_row_contract :: "SavedBill \<Rightarrow> BillItem \<Rightarrow> (string \<times> cell) list \<Rightarrow> bool" where
  "csv_row_contract bill item row =
     (map fst row = csv_columns
      \<and> map_of row ''Bill #'' = Some (Text (bill_number bill))
      \<and> map_of row ''Bill Date'' = Some (Text (bill_date bill))
      \<and> map_of row ''Contractor'' = Some (Text (contractor_name bill))
      \<and> map_of row ''Sanctioned No'' = Some (Text (sanctioned_no bill))
      \<and> map_of row ''From'' = Some (Text (item_from item))
      \<and> map_of row ''To'' = Some (Text (item_to item))
      \<and> map_of row ''Mode'' = Some (Text (mode item))
      \<and> map_of row ''Total Bags'' = Some (Numeric (bags item))
      \<and> map_of row ''PP Bags'' = Some (Numeric (ppBags item))
      \<and> map_of row ''Jute Bags'' = Some (Numeric (juteBags item))
      \<and> figure row ''Net KGs'' (netKgs item) 2
      \<and> figure row ''Bardana KGs'' (bardanaKgs item) 3
      \<and> figure row ''Gross KGs'' (grossKgs item) 2
      \<and> figure row ''Rate/Kg'' (rate_per_kg item) 4
      \<and> figure row ''Amount (Rs)'' (rs item) 2
      \<and> figure row ''Bill Grand Total'' (grandTotal bill) 2
      \<and> figure row ''Bill Total Deductions'' (totalDeductions bill) 2
      \<and> figure row ''Bill Net Amount'' (netAmount bill) 2)"

text \<open>The items of a list of bills, each with its bill, bill after bill.\<close>

definition items_of :: "SavedBill list \<Rightarrow> (SavedBill \<times> BillItem) list" where
  "items_of bills = concat (map (\<lambda>bill. map (Pair bill) (bill_items bill)) bills)"

definition item_fixed_notation :: "BillItem \<Rightarrow> bool" where
  "item_fixed_notation item =
     (fixed_notation (netKgs item) \<and> fixed_notation (bardanaKgs item)
      \<and> fixed_notation (grossKgs item) \<and> fixed_notation (rate_per_kg item)
      \<and> fixed_notation (rs item))"

definition bill_fixed_notation :: "SavedBill \<Rightarrow> bool" where
  "bill_fixed_notation bill =
     (fixed_notation (grandTotal bill) \<and> fixed_notation (totalDeductions bill)
      \<and> fixed_notation (netAmount bill) \<and> list_all item_fixed_notation (bill_items bill))"


section \<open>Properties of the data and of a run\<close>

text \<open>A bill whose date the language can read, and the order of two such bills in time.\<close>

definition valid_date :: "SavedBill \<Rightarrow> bool" where
  "valid_date b = (getTime (bill_date b) \<noteq> None)"

definition not_earlier :: "SavedBill \<Rightarrow> SavedBill \<Rightarrow> bool" where
  "not_earlier a b =
     (case (getTime (bill_date a), getTime (bill_date b)) of
        (Some ta, Some tb) \<Rightarrow> tb \<le> ta
      | _ \<Rightarrow> False)"

definition date_key :: "SavedBill \<Rightarrow> int" where
  "date_key b = (case getTime (bill_date b) of Some t \<Rightarrow> - t | None \<Rightarrow> 0)"

text \<open>
  The step of a builder that groups: unless it skips the bill, it makes the entry of the key
  of the bill if there is none and updates the entry.
\<close>

definition touch :: "('k \<times> 'v) list \<Rightarrow> 'k \<Rightarrow> 'v \<Rightarrow> ('v \<Rightarrow> 'v) \<Rightarrow> ('k \<times> 'v) list" where
  "touch m k zero upd = Map_modify (if Map_has m k then m else Map_set m k zero) k upd"

definition group_step :: "('b \<Rightarrow> bool) \<Rightarrow> ('b \<Rightarrow> 'k) \<Rightarrow> ('b \<Rightarrow> 'v) \<Rightarrow> ('b \<Rightarrow> 'v \<Rightarrow> 'v) \<Rightarrow> ('k \<times> 'v) list \<Rightarrow> 'b \<Rightarrow> ('k \<times> 'v) list" where
  "group_step skip key zero add m b = (if skip b then m else touch m (key b) (zero b) (add b))"

text \<open>
  The groups of the bills by contractor and by month, as sets of bills: a bill is in the
  group of its contractor id, unless the id is missing or \<open>0\<close>, and in the group of the
  month that its date begins with. The row of a group has the name of the contractor in the
  first bill of the group, the number of its bills and, for each amount, the sum over its
  bills, added up in the order of the list.
\<close>

definition contractor_ids :: "SavedBill list \<Rightarrow> int list" where
  "contractor_ids bills =
     remdups (map (\<lambda>b. the (contractor_id b)) (filter (\<lambda>b. \<not> no_contractor b) bills))"

definition contractor_group :: "SavedBill list \<Rightarrow> int \<Rightarrow> ContractorRow" where
  "contractor_group bills k =
     (let members = filter (\<lambda>b. contractor_id b = Some k) bills
      in \<lparr>cs_name = contractor_name (hd members), cs_totalBills = length members,
          cs_grandTotal = double_sum (map grandTotal members),
          cs_totalDeductions = double_sum (map totalDeductions members),
          cs_netAmount = double_sum (map netAmount members)\<rparr>)"

definition months :: "SavedBill list \<Rightarrow> string list" where
  "months bills = remdups (map (\<lambda>b. take 7 (bill_date b)) bills)"

definition month_group :: "SavedBill list \<Rightarrow> string \<Rightarrow> MonthRow" where
  "month_group bills m =
     (let members = filter (\<lambda>b. take 7 (bill_date b) = m) bills
      in \<lparr>month = m, ms_totalBills = length members,
          ms_grandTotal = double_sum (map grandTotal members),
          ms_totalDeductions = double_sum (map totalDeductions members),
          ms_netAmount = double_sum (map netAmount members)\<rparr>)"

text \<open>
  Bills whose net amounts are whole numbers with magnitudes that add up to \<open>2 ^ 53\<close> at
  most: no sum of such amounts is rounded.
\<close>

definition whole_amounts :: "SavedBill list \<Rightarrow> bool" where
  "whole_amounts bills =
     (list_all (\<lambda>b. of_int \<lfloor>netAmount b\<rfloor> = netAmount b) bills
      \<and> (\<Sum>b\<leftarrow>bills. \<bar>netAmount b\<bar>) \<le> 2 ^ 53)"

text \<open>The amount of a numeric category in the deductions of a bill.\<close>

fun category :: "CalculatedDeductions \<Rightarrow> ded_key \<Rightarrow> number" where
  "category d Penalty = penalty d"
| "category d Income_tax = income_tax d"
| "category d Tajveed_ul_quran = tajveed_ul_quran d"
| "category d Education_cess = education_cess d"
| "category d Klc = klc d"
| "category d Sd_current = sd_current d"
| "category d Gst_current = gst_current d"
| "category d Others = others d"
| "category d Others_description = 0"

text \<open>
  Every double other than \<open>NaN\<close> is an infinity or a multiple of \<open>2 ^ (- 1074)\<close>. Such
  doubles are in order by \<open>double_rank\<close>, the infinities below and above the finite ones.
\<close>

fun on_grid :: "double \<Rightarrow> bool" where
  "on_grid (Finite x) = (x * pow2 1074 \<in> \<int>)"
| "on_grid PosInfinity = True"
| "on_grid NegInfinity = True"
| "on_grid NaN = False"

fun finite_value :: "double \<Rightarrow> rat" where
  "finite_value (Finite x) = x"
| "finite_value PosInfinity = 0"
| "finite_value NegInfinity = 0"
| "finite_value NaN = 0"

fun double_rank :: "double \<Rightarrow> int \<times> rat" where
  "double_rank (Finite x) = (0, x)"
| "double_rank PosInfinity = (1, 0)"
| "double_rank NegInfinity = (- 1, 0)"
| "double_rank NaN = (0, 0)"


text \<open>
  What the language promises of \<^verbatim>\<open>xs.sort(cmp)\<close>, whatever method the engine uses: the result
  is a permutation of \<open>xs\<close>; if \<open>cmp\<close> is a consistent comparator for the elements of \<open>xs\<close>, the
  result is in order and elements that compare equal keep their order. A run of a builder is
  any result that these promises allow.
\<close>

definition consistent_comparator :: "('a \<Rightarrow> 'a \<Rightarrow> ('n :: {zero, linorder}) option) \<Rightarrow> 'a list \<Rightarrow> bool" where
  "consistent_comparator cmp xs =
     ((\<forall>a \<in> set xs. SortCompare cmp a a = 0)
      \<and> (\<forall>a \<in> set xs. \<forall>b \<in> set xs. SortCompare cmp a b = 0 \<longrightarrow> SortCompare cmp b a = 0)
      \<and> (\<forall>a \<in> set xs. \<forall>b \<in> set xs. \<forall>c \<in> set xs.
            SortCompare cmp a b = 0 \<and> SortCompare cmp b c = 0 \<longrightarrow> SortCompare cmp a c = 0)
      \<and> (\<forall>a \<in> set xs. \<forall>b \<in> set xs. \<forall>c \<in> set xs.
            SortCompare cmp a b < 0 \<and> SortCompare cmp b c < 0 \<longrightarrow> SortCompare cmp a c < 0)
      \<and> (\<forall>a \<in> set xs. \<forall>b \<in> set xs. \<forall>c \<in> set xs.
            SortCompare cmp a b > 0 \<and> SortCompare cmp b c > 0 \<longrightarrow> SortCompare cmp a c > 0))"

definition sort_contract :: "('a \<Rightarrow> 'a \<Rightarrow> ('n :: {zero, linorder}) option) \<Rightarrow> 'a list \<Rightarrow> 'a list \<Rightarrow> bool" where
  "sort_contract cmp xs ys =
     (mset ys = mset xs
      \<and> (consistent_comparator cmp xs \<longrightarrow>
           sorted_wrt (\<lambda>a b. SortCompare cmp a b \<le> 0) ys
           \<and> (\<forall>x \<in> set xs. filter (\<lambda>y. SortCompare cmp x y = 0) ys
                              = filter (\<lambda>y. SortCompare cmp x y = 0) xs)))"

definition filteredBills_run :: "Contract list \<Rightarrow> FilterState \<Rightarrow> SavedBill list \<Rightarrow> SavedBill list \<Rightarrow> bool" where
  "filteredBills_run cs f bills out =
     sort_contract by_date_desc (filter (bill_passes cs f) bills) out"

definition contractorSummary_run :: "SavedBill list \<Rightarrow> ContractorRow list \<Rightarrow> bool" where
  "contractorSummary_run bills out =
     sort_contract by_cs_netAmount_desc (Map_values (foldl contractor_step [] bills)) out"

definition contractSummary_run :: "Contract list \<Rightarrow> SavedBill list \<Rightarrow> ContractRow list \<Rightarrow> bool" where
  "contractSummary_run cs bills out =
     sort_contract by_totalAmount_desc (Map_values (foldl (contract_bill cs) [] bills)) out"

definition monthlySummary_run :: "SavedBill list \<Rightarrow> MonthRow list \<Rightarrow> bool" where
  "monthlySummary_run bills out =
     sort_contract by_month_desc (Map_values (foldl monthly_step [] bills)) out"

definition stationSummary_run :: "SavedBill list \<Rightarrow> StationRow list \<Rightarrow> bool" where
  "stationSummary_run bills out =
     sort_contract by_dispatchedValue_desc (Map_values (foldl station_bill [] bills)) out"


section \<open>Example data\<close>

text \<open>
  The bill of the scenario: dated 2024-01-15, contractor Acme, gross 1000, deductions 100,
  net 900, with one item from X to Y of 500 kg at rate 2, amount 1000.
\<close>

definition example_item :: BillItem where
  "example_item =
     \<lparr>item_id = ''i1'', item_from = ''X'', item_to = ''Y'', mode = ''Truck'', bags = 10,
      ppBags = 6, juteBags = 4, netKgs = 500, bardanaKgs = 5 / 2, grossKgs = 1005 / 2,
      rate_per_kg = 2, rs = 1000, item_contract_id = Some 7\<rparr>"

definition example_deductions :: CalculatedDeductions where
  "example_deductions =
     \<lparr>penalty = 10, income_tax = 40, tajveed_ul_quran = 1, education_cess = 4, klc = 10,
      sd_current = 20, gst_current = 10, others = 5, others_description = ''Toll''\<rparr>"

definition example_bill :: SavedBill where
  "example_bill =
     \<lparr>bill_id = ''b1'', bill_number = ''M-1/10/123'', bill_date = ''2024-01-15'',
      contractor_id = Some 1, contractor_name = ''Acme'', sanctioned_no = ''S-77'',
      bill_items = [example_item], deductions = example_deductions,
      grandTotal = 1000, totalDeductions = 100, netAmount = 900\<rparr>"

definition later_bill :: SavedBill where
  "later_bill =
     example_bill\<lparr>bill_id := ''b2'', bill_number := ''M-1/10/124'', bill_date := ''2024-03-02'',
                  contractor_id := Some 2, contractor_name := ''Bolt''\<rparr>"

definition unattributed_bill :: SavedBill where
  "unattributed_bill =
     example_bill\<lparr>bill_id := ''b3'', bill_number := ''M-1/10/125'', contractor_id := None,
                  contractor_name := []\<rparr>"

definition zero_id_bill :: SavedBill where
  "zero_id_bill = example_bill\<lparr>bill_id := ''b4'', bill_number := ''M-1/10/126'', contractor_id := Some 0\<rparr>"

text \<open>
  Bills with four more items: 0.1 kg, 0.2 kg and 0.3 kg from X, the last one to Z, and 4 kg
  from Y back to X.
\<close>

definition first_leg :: BillItem where
  "first_leg = example_item\<lparr>item_id := ''i2'', netKgs := literal (1 / 10), rs := literal (1 / 4)\<rparr>"

definition back_leg :: BillItem where
  "back_leg =
     example_item\<lparr>item_id := ''i3'', item_from := ''Y'', item_to := ''X'', netKgs := 4, rs := 10\<rparr>"

definition second_leg :: BillItem where
  "second_leg = example_item\<lparr>item_id := ''i4'', netKgs := literal (2 / 10), rs := literal (1 / 2)\<rparr>"

definition third_leg :: BillItem where
  "third_leg =
     example_item\<lparr>item_id := ''i5'', item_to := ''Z'', netKgs := literal (3 / 10),
                  rs := literal (3 / 4)\<rparr>"


definition round_trip :: SavedBill where
  "round_trip =
     example_bill\<lparr>bill_id := ''b6'', bill_number := ''M-1/10/128'',
                  bill_items := [back_leg, second_leg, third_leg]\<rparr>"

text \<open>
  Three bills with the net amounts 1000.1, 2500.35 and 750.45, the first one of the
  contractor Acme in March, the others of the contractor Bolt in February.
\<close>

definition march_bill :: SavedBill where
  "march_bill =
     example_bill\<lparr>bill_id := ''b7'', bill_number := ''M-1/10/129'', bill_date := ''2024-03-05'',
                  grandTotal := literal (11001 / 10), netAmount := literal (10001 / 10)\<rparr>"

definition february_bill :: SavedBill where
  "february_bill =
     later_bill\<lparr>bill_id := ''b8'', bill_number := ''M-1/10/130'', bill_date := ''2024-02-20'',
                grandTotal := literal (260035 / 100), netAmount := literal (250035 / 100)\<rparr>"

definition early_february_bill :: SavedBill where
  "early_february_bill =
     later_bill\<lparr>bill_id := ''b9'', bill_number := ''M-1/10/131'', bill_date := ''2024-02-10'',
                grandTotal := literal (85045 / 100), netAmount := literal (75045 / 100)\<rparr>"

text \<open>
  An item with figures that have fractions, among them 1.005 kg net, which is a double
  below 1.005, and of a loss, and an item of \<open>10 ^ 21\<close> kg.
\<close>

definition fraction_item :: BillItem where
  "fraction_item =
     example_item\<lparr>item_id := ''i6'', netKgs := literal (1005 / 1000), bardanaKgs := literal (1 / 8),
                  grossKgs := literal (113 / 100), rate_per_kg := literal (20375 / 10000),
                  rs := literal (- 1 / 1000)\<rparr>"

definition fraction_bill :: SavedBill where
  "fraction_bill = march_bill\<lparr>bill_items := [fraction_item, third_leg]\<rparr>"

definition heavy_item :: BillItem where
  "heavy_item = example_item\<lparr>item_id := ''i7'', netKgs := 10 ^ 21\<rparr>"

definition heavy_bill :: SavedBill where
  "heavy_bill = example_bill\<lparr>bill_id := ''b10'', bill_items := [heavy_item]\<rparr>"

definition example_contract :: Contract where
  "example_contract =
     \<lparr>contract_id = 7, contract_contractor_id = 1, from_location = ''X'', to_location = ''Y''\<rparr>"

definition example_contractor :: Contractor where
  "example_contractor = \<lparr>contractor_key = 1, contractor_label = ''Acme''\<rparr>"

definition no_filter :: FilterState where
  "no_filter =
     \<lparr>selectedContractorId = AllContractors, selectedRoute = ''all'', searchQuery = [],
      startDate = [], endDate = [], auditActionFilter = ''all''\<rparr>"

definition example_props :: ReportsProps where
  "example_props =
     \<lparr>savedBills = [example_bill, later_bill, unattributed_bill],
      contractors = [example_contractor], contracts = [example_contract], auditLogs = []\<rparr>"

definition initial_state :: ReportsState where
  "initial_state =
     \<lparr>filters = no_filter, statementData = None, activeTab = Tab_details, alerts = []\<rparr>"

definition example_entry :: AuditLog where
  "example_entry =
     \<lparr>log_id = ''a1'', timestamp = ''2024-03-10T23:59:00Z'', userId = ''u1'',
      username = ''admin'', action = ''Bill Created''\<rparr>"

definition late_entry :: AuditLog where
  "late_entry = example_entry\<lparr>log_id := ''a2'', timestamp := ''2024-03-11T00:00:01Z''\<rparr>"

definition acme_only :: FilterState where
  "acme_only = no_filter\<lparr>selectedContractorId := ContractorId 1\<rparr>"

definition since_2024 :: FilterState where
  "since_2024 = no_filter\<lparr>startDate := ''2024-01-01''\<rparr>"

definition acme_since_2024 :: FilterState where
  "acme_since_2024 = no_filter\<lparr>selectedContractorId := ContractorId 1, startDate := ''2024-01-01''\<rparr>"

definition until_march_10 :: FilterState where
  "until_march_10 = no_filter\<lparr>endDate := ''2024-03-10''\<rparr>"

definition unknown_contractor :: FilterState where
  "unknown_contractor = no_filter\<lparr>selectedContractorId := ContractorId 9\<rparr>"


section \<open>Numbers\<close>

lemma pow2_pos: "0 < pow2 e"
  by (simp add: pow2_def zero_less_power_int)

lemma pow2_add: "pow2 (a + b) = pow2 a * pow2 b"
  by (simp add: pow2_def power_int_add)

lemma pow2_mono: "a \<le> b \<Longrightarrow> pow2 a \<le> pow2 b"
  by (simp add: pow2_def power_int_increasing)

lemma pow2_nat: "0 \<le> e \<Longrightarrow> pow2 e = 2 ^ nat e"
  by (simp add: pow2_def power_int_def)

lemma pow2_diff: "pow2 (a - b) = pow2 a / pow2 b"
  by (simp add: pow2_def power_int_diff)

lemma bit_length_nonneg: "0 \<le> bit_length n"
proof (induction n rule: bit_length.induct)
  case (1 n)
  then show ?case
    by (cases "n \<le> 0") (simp_all add: bit_length.simps [of n])
qed

lemma bit_length_pos: "0 < n \<Longrightarrow> 0 < bit_length n"
  using bit_length_nonneg [of "n div 2"] by (simp add: bit_length.simps [of n])

lemma bit_length_bounds:
  "0 < n \<Longrightarrow> 2 ^ nat (bit_length n - 1) \<le> n \<and> n < 2 ^ nat (bit_length n)"
proof (induction n rule: bit_length.induct)
  case (1 n)
  show ?case
  proof (cases "n = 1")
    case True
    then show ?thesis
      by (simp add: bit_length.simps [of 1] bit_length.simps [of 0])
  next
    case False
    with 1 have h: "0 < n div 2" by simp
    from 1 h have ih: "2 ^ nat (bit_length (n div 2) - 1) \<le> n div 2"
      "n div 2 < 2 ^ nat (bit_length (n div 2))"
      by simp_all
    have bl: "bit_length n = 1 + bit_length (n div 2)"
      using 1 by (simp add: bit_length.simps [of n])
    have p: "0 < bit_length (n div 2)"
      using h by (rule bit_length_pos)
    then have e: "nat (bit_length (n div 2)) = Suc (nat (bit_length (n div 2) - 1))"
      by simp
    have e2: "nat (1 + bit_length (n div 2)) = Suc (nat (bit_length (n div 2)))"
      using p by simp
    have "(2::int) ^ nat (bit_length (n div 2)) \<le> 2 * (n div 2)"
      unfolding e using ih(1) by simp
    moreover have "n < 2 * 2 ^ nat (bit_length (n div 2))"
      using ih(2) by linarith
    ultimately show ?thesis
      unfolding bl e2 by simp
  qed
qed

lemma exponent_le:
  assumes "0 < a"
  shows "pow2 (exponent a) \<le> a"
proof -
  obtain p q where pq: "quotient_of a = (p, q)"
    by (cases "quotient_of a")
  then have q: "0 < q" and a: "a = of_int p / of_int q"
    by (simp_all add: quotient_of_denom_pos quotient_of_div)
  with assms have p: "0 < p"
    by (simp add: zero_less_divide_iff)
  show ?thesis
  proof (cases "pow2 (bit_length p - bit_length q) \<le> a")
    case True
    then show ?thesis
      by (simp add: exponent_def pq)
  next
    case False
    have "pow2 (bit_length p - 1) \<le> of_int p"
    proof -
      have "(2::int) ^ nat (bit_length p - 1) \<le> p"
        using bit_length_bounds [OF p] by simp
      then have "(of_int (2 ^ nat (bit_length p - 1)) :: rat) \<le> of_int p"
        by (simp only: of_int_le_iff)
      then show ?thesis
        using bit_length_pos [OF p] by (simp add: pow2_nat)
    qed
    moreover have "of_int q \<le> pow2 (bit_length q)"
    proof -
      have "q \<le> 2 ^ nat (bit_length q)"
        using bit_length_bounds [OF q] by simp
      then have "(of_int q :: rat) \<le> of_int (2 ^ nat (bit_length q))"
        by (simp only: of_int_le_iff)
      then show ?thesis
        using bit_length_pos [OF q] by (simp add: pow2_nat)
    qed
    ultimately have "pow2 (bit_length p - 1) / pow2 (bit_length q) \<le> of_int p / of_int q"
      using q p pow2_pos by (intro frac_le) simp_all
    then have "pow2 (bit_length p - bit_length q - 1) \<le> a"
      unfolding a by (simp add: pow2_diff [symmetric] algebra_simps)
    with False show ?thesis
      by (simp add: exponent_def pq)
  qed
qed

lemma exponent_less:
  assumes "0 < a"
  shows "a < pow2 (exponent a + 1)"
proof -
  obtain p q where pq: "quotient_of a = (p, q)"
    by (cases "quotient_of a")
  then have q: "0 < q" and a: "a = of_int p / of_int q"
    by (simp_all add: quotient_of_denom_pos quotient_of_div)
  with assms have p: "0 < p"
    by (simp add: zero_less_divide_iff)
  show ?thesis
  proof (cases "pow2 (bit_length p - bit_length q) \<le> a")
    case False
    then show ?thesis
      by (simp add: exponent_def pq)
  next
    case True
    have "of_int p < pow2 (bit_length p)"
    proof -
      have "p < 2 ^ nat (bit_length p)"
        using bit_length_bounds [OF p] by simp
      then have "(of_int p :: rat) < of_int (2 ^ nat (bit_length p))"
        by (simp only: of_int_less_iff)
      then show ?thesis
        using bit_length_pos [OF p] by (simp add: pow2_nat)
    qed
    moreover have "pow2 (bit_length q - 1) \<le> of_int q"
    proof -
      have "(2::int) ^ nat (bit_length q - 1) \<le> q"
        using bit_length_bounds [OF q] by simp
      then have "(of_int (2 ^ nat (bit_length q - 1)) :: rat) \<le> of_int q"
        by (simp only: of_int_le_iff)
      then show ?thesis
        using bit_length_pos [OF q] by (simp add: pow2_nat)
    qed
    ultimately have "of_int p / of_int q < pow2 (bit_length p) / pow2 (bit_length q - 1)"
      using q p pow2_pos by (intro frac_less) simp_all
    then have "a < pow2 (bit_length p - bit_length q + 1)"
      unfolding a by (simp add: pow2_diff [symmetric] algebra_simps)
    with True show ?thesis
      by (simp add: exponent_def pq)
  qed
qed


lemma round_half_even_of_int: "round_half_even (of_int k) = k"
  by (simp add: round_half_even_def)

lemma round_half_even_floor: "\<lfloor>m\<rfloor> \<le> round_half_even m"
  by (simp add: round_half_even_def Let_def)

lemma pow2_zero: "pow2 0 = 1"
  by (simp add: pow2_def)

lemma pow2_grid:
  assumes "- 1074 \<le> q"
  shows "pow2 q * pow2 1074 = of_int (2 ^ nat (q + 1074))"
proof -
  have "pow2 q * pow2 1074 = pow2 (q + 1074)"
    by (simp only: pow2_add)
  also have "\<dots> = 2 ^ nat (q + 1074)"
    using assms by (intro pow2_nat) simp
  finally show ?thesis
    by simp
qed

lemma on_grid_round_double: "on_grid (round_double x)"
proof -
  have "of_int n * pow2 q * pow2 1074 \<in> \<int>" if "- 1074 \<le> q" for n q
  proof -
    have "of_int n * pow2 q * pow2 1074 = (of_int (n * 2 ^ nat (q + 1074)) :: rat)"
      using pow2_grid [OF that] by (simp add: mult.assoc)
    then show ?thesis
      by (simp only: Ints_of_int)
  qed
  then show ?thesis
    by (simp add: round_double_def Let_def)
qed

lemma round_double_sign:
  assumes "on_grid (Finite r)"
  shows "double_sign (round_double r) = Some (if r < 0 then - 1 else if r = 0 then 0 else 1)"
proof (cases "r = 0")
  case True
  then show ?thesis by (simp add: round_double_def)
next
  case False
  define a where "a = \<bar>r\<bar>"
  define q where "q = max (exponent a - 52) (- 1074)"
  define y where "y = of_int (round_half_even (a / pow2 q)) * pow2 q"
  have a: "0 < a" using False by (simp add: a_def)
  have "\<bar>r * pow2 1074\<bar> \<in> \<int>"
    using assms by simp
  moreover have "\<bar>r * pow2 1074\<bar> = a * pow2 1074"
    using pow2_pos [of 1074] by (simp add: a_def abs_mult)
  ultimately obtain k where k: "a * pow2 1074 = of_int k"
    by (auto simp: Ints_def)
  with a pow2_pos [of 1074] have "(0::rat) < of_int k"
    by (metis mult_pos_pos)
  then have "(1::rat) \<le> of_int k" by simp
  with k have "1 \<le> a * pow2 1074"
    by simp
  moreover have "pow2 (- 1074) * pow2 1074 = 1"
    by (simp add: pow2_add [symmetric] pow2_zero)
  ultimately have g: "pow2 (- 1074) \<le> a"
    using pow2_pos [of 1074] by (metis mult_le_cancel_right_pos)
  have "pow2 q \<le> a"
  proof (cases "exponent a - 52 \<le> - 1074")
    case True
    with g show ?thesis by (simp add: q_def max_def)
  next
    case False
    have "pow2 (exponent a - 52) \<le> pow2 (exponent a)"
      by (rule pow2_mono) simp
    with exponent_le [OF a] False show ?thesis by (simp add: q_def max_def)
  qed
  then have "1 \<le> a / pow2 q"
    using pow2_pos [of q] by (simp add: le_divide_eq)
  then have "1 \<le> \<lfloor>a / pow2 q\<rfloor>"
    by simp
  with round_half_even_floor [of "a / pow2 q"] have "0 < round_half_even (a / pow2 q)"
    by linarith
  then have y: "0 < y"
    using pow2_pos [of q] by (simp add: y_def)
  have "round_double r =
          (if overflow_threshold \<le> y then (if r < 0 then NegInfinity else PosInfinity)
           else Finite (if r < 0 then - y else y))"
    using False by (simp add: round_double_def Let_def a_def q_def y_def)
  with y False show ?thesis
    by auto
qed

lemma round_double_of_int:
  assumes "\<bar>n\<bar> \<le> 2 ^ 53"
  shows "round_double (of_int n) = Finite (of_int n)"
proof (cases "n = 0")
  case True
  then show ?thesis by (simp add: round_double_def)
next
  case False
  define a :: rat where "a = \<bar>of_int n\<bar>"
  define q where "q = max (exponent a - 52) (- 1074)"
  define y where "y = of_int (round_half_even (a / pow2 q)) * pow2 q"
  have a: "0 < a" using False by (simp add: a_def)
  have an: "a = of_int \<bar>n\<bar>" by (simp add: a_def)
  have le: "a \<le> 2 ^ 53"
    unfolding an using assms by (metis of_int_le_iff of_int_numeral of_int_power)
  have e53: "exponent a \<le> 53"
  proof (rule ccontr)
    assume "\<not> exponent a \<le> 53"
    then have "pow2 54 \<le> pow2 (exponent a)"
      by (intro pow2_mono) simp
    with exponent_le [OF a] le show False
      by (simp add: pow2_nat)
  qed
  have "y = a"
  proof (cases "q \<le> 0")
    case True
    have "a / pow2 q = a * pow2 (- q)"
      by (simp add: pow2_def power_int_minus field_simps)
    also have "\<dots> = of_int (\<bar>n\<bar> * 2 ^ nat (- q))"
      using True by (simp add: an pow2_nat)
    finally have "round_half_even (a / pow2 q) = \<bar>n\<bar> * 2 ^ nat (- q)"
      by (simp only: round_half_even_of_int)
    then have "y = a * (pow2 (- q) * pow2 q)"
      using True by (simp add: y_def an pow2_nat)
    also have "pow2 (- q) * pow2 q = 1"
      by (simp add: pow2_add [symmetric] pow2_zero)
    finally show ?thesis by simp
  next
    case False
    with e53 have q1: "q = 1" and e: "exponent a = 53"
      by (simp_all add: q_def max_def split: if_splits)
    from exponent_le [OF a] e have "2 ^ 53 \<le> a"
      by (simp add: pow2_nat)
    with le have a53: "a = 2 ^ 53" by simp
    have "a / pow2 q = of_int (2 ^ 52)"
      by (simp add: a53 q1 pow2_nat)
    then have "round_half_even (a / pow2 q) = 2 ^ 52"
      by (simp only: round_half_even_of_int)
    then show ?thesis
      by (simp add: y_def q1 pow2_nat a53)
  qed
  moreover have "\<not> overflow_threshold \<le> a"
    using le by (simp add: overflow_threshold_def)
  moreover have "round_double (of_int n) =
          (if overflow_threshold \<le> y then (if (of_int n :: rat) < 0 then NegInfinity else PosInfinity)
           else Finite (if (of_int n :: rat) < 0 then - y else y))"
    using False by (simp add: round_double_def Let_def a_def q_def y_def)
  ultimately show ?thesis
    by (auto simp: a_def)
qed


lemma overflow_threshold_pow2: "overflow_threshold = 2 ^ 1024"
  unfolding overflow_threshold_def by simp

lemma round_double_not_NaN: "round_double x \<noteq> NaN"
  by (simp add: round_double_def Let_def)

lemma on_grid_double_add: "on_grid a \<Longrightarrow> on_grid (double_add a (Finite x))"
  by (cases a) (simp_all add: on_grid_round_double)

lemma on_grid_zero: "on_grid (Finite 0)"
  by simp

lemma double_sum_snoc: "double_sum (xs @ [x]) = double_add (double_sum xs) (Finite x)"
  by (simp add: double_sum_def)

lemma double_total_snoc: "double_total (xs @ [x]) = double_add (double_total xs) x"
  by (simp add: double_total_def)

lemma on_grid_double_sum: "on_grid (double_sum xs)"
  by (induction xs rule: rev_induct) (simp_all add: double_sum_snoc on_grid_double_add, simp add: double_sum_def)

text \<open>
  The sign of the difference of two doubles is the sign of their exact difference: the
  difference of two multiples of \<open>2 ^ (- 1074)\<close> does not round to zero unless it is zero.
  The difference of two infinities of one sign is \<open>NaN\<close>.
\<close>

lemma double_sub_sign:
  assumes "on_grid x" "on_grid y"
  shows "(case double_sign (double_sub x y) of None \<Rightarrow> 0 | Some v \<Rightarrow> v) < 0
           \<longleftrightarrow> double_rank x < double_rank y"
    and "(case double_sign (double_sub x y) of None \<Rightarrow> 0 | Some v \<Rightarrow> v) = 0
           \<longleftrightarrow> double_rank x = double_rank y"
proof -
  have d: "double_sign (round_double (a - b)) = Some (if a - b < 0 then - 1 else if a - b = 0 then 0 else 1)"
    if "a * pow2 1074 \<in> \<int>" "b * pow2 1074 \<in> \<int>" for a b
  proof (rule round_double_sign)
    have "(a - b) * pow2 1074 = a * pow2 1074 - b * pow2 1074"
      by (simp add: algebra_simps)
    with that show "on_grid (Finite (a - b))"
      by simp
  qed
  show "(case double_sign (double_sub x y) of None \<Rightarrow> 0 | Some v \<Rightarrow> v) < 0
           \<longleftrightarrow> double_rank x < double_rank y"
    using assms by (cases x; cases y) (simp_all add: double_sub_def d)
  show "(case double_sign (double_sub x y) of None \<Rightarrow> 0 | Some v \<Rightarrow> v) = 0
           \<longleftrightarrow> double_rank x = double_rank y"
    using assms by (cases x; cases y) (simp_all add: double_sub_def d)
qed


section \<open>The keyed collection\<close>

lemma Map_get_Map_set: "Map_get (Map_set m k v) k' = (if k' = k then Some v else Map_get m k')"
  by (induction m) (auto simp: Map_get_def)

lemma Map_get_Map_modify:
  "Map_get (Map_modify m k upd) k' = (if k' = k then map_option upd (Map_get m k) else Map_get m k')"
  by (cases "Map_get m k") (auto simp: Map_modify_def Map_get_Map_set)

lemma Map_values_Nil: "Map_values [] = []"
  by (simp add: Map_values_def)

lemma Map_set_keys:
  "map fst (Map_set m k v) = (if k \<in> set (map fst m) then map fst m else map fst m @ [k])"
  by (induction m) auto

lemma Map_modify_keys: "map fst (Map_modify m k upd) = map fst m"
proof (cases "Map_get m k")
  case None
  then show ?thesis by (simp add: Map_modify_def)
next
  case (Some r)
  then have "k \<in> set (map fst m)"
    by (auto simp: Map_get_def dest: map_of_SomeD intro: rev_image_eqI)
  with Some show ?thesis by (simp add: Map_modify_def Map_set_keys)
qed

lemma Map_has_keys: "Map_has m k = (k \<in> set (map fst m))"
  by (simp add: Map_has_def Map_get_def map_of_eq_None_iff)


lemma list_all_Map_set:
  assumes "list_all P (Map_values m)" "P v"
  shows "list_all P (Map_values (Map_set m k v))"
  using assms by (induction m) (auto simp: Map_values_def)

lemma list_all_Map_modify:
  assumes "list_all P (Map_values m)" "\<And>r. P r \<Longrightarrow> P (upd r)"
  shows "list_all P (Map_values (Map_modify m k upd))"
proof (cases "Map_get m k")
  case None
  with assms(1) show ?thesis by (simp add: Map_modify_def)
next
  case (Some r)
  then have "(k, r) \<in> set m"
    by (auto simp: Map_get_def dest: map_of_SomeD)
  with assms(1) have "P r"
    by (auto simp: Map_values_def list_all_iff)
  with Some assms show ?thesis
    by (simp add: Map_modify_def list_all_Map_set)
qed

lemma list_all_Map_touch:
  assumes "list_all P (Map_values m)" "P zero" "\<And>r. P r \<Longrightarrow> P (upd r)"
  shows "list_all P (Map_values (Map_modify (if Map_has m k then m else Map_set m k zero) k upd))"
  using assms by (simp add: list_all_Map_modify list_all_Map_set)


section \<open>The sort\<close>

lemma insert_by_insort_key:
  assumes "\<And>y. y \<in> set ys \<Longrightarrow> (SortCompare cmp x y \<le> 0) = (key x \<le> key y)"
  shows "insert_by cmp x ys = insort_key key x ys"
  using assms by (induction ys) auto

lemma js_sort_sort_key:
  assumes "\<And>x y. x \<in> set xs \<Longrightarrow> y \<in> set xs \<Longrightarrow> (SortCompare cmp x y \<le> 0) = (key x \<le> key y)"
  shows "js_sort cmp xs = sort_key key xs"
  using assms
proof (induction xs)
  case Nil
  show ?case by (simp add: js_sort_def)
next
  case (Cons a xs)
  have ih: "js_sort cmp xs = sort_key key xs"
    using Cons by simp
  have "insert_by cmp a (sort_key key xs) = insort_key key a (sort_key key xs)"
    by (rule insert_by_insort_key) (simp add: Cons.prems)
  with ih show ?case
    by (simp add: js_sort_def)
qed

lemma mset_insert_by: "mset (insert_by cmp x ys) = add_mset x (mset ys)"
  by (induction ys) auto

lemma mset_js_sort: "mset (js_sort cmp xs) = mset xs"
  by (induction xs) (auto simp: js_sort_def mset_insert_by)

lemma set_js_sort: "set (js_sort cmp xs) = set xs"
  using mset_js_sort [of cmp xs] by (metis set_mset_mset)


section \<open>The bill filter\<close>

lemma by_date_desc_key:
  assumes "valid_date a" "valid_date b"
  shows "(SortCompare by_date_desc a b \<le> 0) = (date_key a \<le> date_key b)"
  using assms
  by (auto simp: valid_date_def SortCompare_def by_date_desc_def date_key_def)

lemma filteredBills_sort_key:
  assumes "list_all valid_date R"
  shows "filteredBills cs f R = sort_key date_key (filter (bill_passes cs f) R)"
  unfolding filteredBills_def
  by (rule js_sort_sort_key) (use assms in \<open>auto simp: list_all_iff by_date_desc_key\<close>)

lemma sorted_date_key_not_earlier:
  assumes "list_all valid_date xs" "sorted (map date_key xs)"
  shows "sorted_wrt not_earlier xs"
proof -
  have "sorted_wrt (\<lambda>a b. date_key a \<le> date_key b) xs"
    using assms(2) by (simp add: sorted_map)
  then show ?thesis
  proof (rule sorted_wrt_mono_rel [rotated])
    fix a b assume ab: "a \<in> set xs" "b \<in> set xs" and le: "date_key a \<le> date_key b"
    from assms(1) ab have "valid_date a" "valid_date b"
      by (simp_all add: list_all_iff)
    then obtain ta tb
      where "getTime (bill_date a) = Some ta" "getTime (bill_date b) = Some tb"
      by (auto simp: valid_date_def)
    with le show "not_earlier a b"
      by (simp add: not_earlier_def date_key_def)
  qed
qed

text \<open>
  C9. The list that the bill filter returns holds the bills of the input that pass the filter,
  each as often as the input holds it: no bill is invented and none is duplicated. If every
  bill of the input has a date that the language can read, the list is in the order of the
  bill date, the most recent bill first.
\<close>

theorem filteredBills_elements_and_order:
  "mset (filteredBills cs f R) = filter_mset (bill_passes cs f) (mset R)
   \<and> mset (filteredBills cs f R) \<subseteq># mset R
   \<and> set (filteredBills cs f R) \<subseteq> set R
   \<and> (list_all valid_date R \<longrightarrow> sorted_wrt not_earlier (filteredBills cs f R))"
proof (intro conjI)
  show "mset (filteredBills cs f R) = filter_mset (bill_passes cs f) (mset R)"
    by (simp add: filteredBills_def mset_js_sort)
  then show "mset (filteredBills cs f R) \<subseteq># mset R"
    by simp
  show "set (filteredBills cs f R) \<subseteq> set R"
    by (auto simp: filteredBills_def set_js_sort)
  show "list_all valid_date R \<longrightarrow> sorted_wrt not_earlier (filteredBills cs f R)"
  proof
    assume v: "list_all valid_date R"
    have "list_all valid_date (sort_key date_key (filter (bill_passes cs f) R))"
      using v by (auto simp: list_all_iff)
    then show "sorted_wrt not_earlier (filteredBills cs f R)"
      by (simp add: filteredBills_sort_key [OF v] sorted_date_key_not_earlier)
  qed
qed

theorem filteredBills_elements_and_order_witness:
  "list_all valid_date (savedBills example_props)
   \<and> sorted_wrt not_earlier (filteredBills (contracts example_props) no_filter (savedBills example_props))
   \<and> map bill_id (filteredBills (contracts example_props) no_filter (savedBills example_props))
       = [''b2'', ''b1'', ''b3'']"
proof -
  have v: "list_all valid_date (savedBills example_props)"
    by code_simp
  have ids: "map bill_id (filteredBills (contracts example_props) no_filter (savedBills example_props))
             = [''b2'', ''b1'', ''b3'']"
    by code_simp
  from v ids
    filteredBills_elements_and_order [of "contracts example_props" no_filter "savedBills example_props"]
  show ?thesis by blast
qed

text \<open>
  C3. Let every bill of \<open>R\<close> have a date that the language can read, and let \<open>f\<close> be a filter
  state that a bill of \<open>R\<close> passes exactly if it passes both \<open>f1\<close> and \<open>f2\<close>. Then filtering
  \<open>R\<close> with \<open>f1\<close> and the result with \<open>f2\<close> gives the list that filtering \<open>R\<close> with \<open>f\<close> gives.
\<close>

theorem filter_composition:
  assumes "list_all valid_date R"
    and "\<forall>b \<in> set R. bill_passes cs f b = (bill_passes cs f1 b \<and> bill_passes cs f2 b)"
  shows "filteredBills cs f2 (filteredBills cs f1 R) = filteredBills cs f R"
proof -
  let ?once = "sort_key date_key (filter (bill_passes cs f1) R)"
  have v1: "list_all valid_date ?once"
    using assms(1) by (auto simp: list_all_iff)
  have "filteredBills cs f2 (filteredBills cs f1 R)
        = sort_key date_key (filter (bill_passes cs f2) ?once)"
    by (simp add: filteredBills_sort_key [OF assms(1)] filteredBills_sort_key [OF v1])
  also have "\<dots> = sort_key date_key (sort_key date_key
                     (filter (bill_passes cs f2) (filter (bill_passes cs f1) R)))"
    by (simp add: filter_sort)
  also have "\<dots> = sort_key date_key (filter (bill_passes cs f2) (filter (bill_passes cs f1) R))"
    by (simp add: sort_key_id_if_sorted)
  also have "filter (bill_passes cs f2) (filter (bill_passes cs f1) R) = filter (bill_passes cs f) R"
    using assms(2) by (auto intro: filter_cong)
  finally show ?thesis
    by (simp add: filteredBills_sort_key [OF assms(1)])
qed

theorem filter_composition_witness:
  "list_all valid_date (savedBills example_props)
   \<and> list_all (\<lambda>b. bill_passes (contracts example_props) acme_since_2024 b
                     = (bill_passes (contracts example_props) acme_only b
                        \<and> bill_passes (contracts example_props) since_2024 b))
         (savedBills example_props)
   \<and> filteredBills (contracts example_props) since_2024
        (filteredBills (contracts example_props) acme_only (savedBills example_props))
       = filteredBills (contracts example_props) acme_since_2024 (savedBills example_props)
   \<and> map bill_id (filteredBills (contracts example_props) acme_since_2024 (savedBills example_props))
       = [''b1'']"
proof -
  have v: "list_all valid_date (savedBills example_props)"
    by code_simp
  have c: "list_all (\<lambda>b. bill_passes (contracts example_props) acme_since_2024 b
                         = (bill_passes (contracts example_props) acme_only b
                            \<and> bill_passes (contracts example_props) since_2024 b))
             (savedBills example_props)"
    by code_simp
  have ids: "map bill_id (filteredBills (contracts example_props) acme_since_2024 (savedBills example_props))
             = [''b1'']"
    by code_simp
  from c have c': "\<forall>b \<in> set (savedBills example_props).
             bill_passes (contracts example_props) acme_since_2024 b
             = (bill_passes (contracts example_props) acme_only b
                \<and> bill_passes (contracts example_props) since_2024 b)"
    by (simp add: list_all_iff)
  from filter_composition [OF v c'] v c ids show ?thesis by blast
qed


section \<open>The audit filter\<close>

lemma audit_bound_time: "getTime (''2024-03-10'' @ ''T23:59:59.999Z'') = Some 1710115199999"
  by code_simp

lemma audit_inside_time: "getTime ''2024-03-10T23:59:00Z'' = Some 1710115140000"
  by code_simp

lemma audit_outside_time: "getTime ''2024-03-11T00:00:01Z'' = Some 1710115201000"
  by code_simp

lemma until_march_10_fields:
  "auditActionFilter until_march_10 = ''all''" "searchQuery until_march_10 = []"
  "startDate until_march_10 = []" "endDate until_march_10 = ''2024-03-10''"
  by (simp_all add: until_march_10_def no_filter_def)

text \<open>
  C4. With the end date 2024-03-10 and no other criterion set, the audit filter keeps every
  entry of the log with the timestamp 2024-03-10T23:59:00Z and drops every entry with the
  timestamp 2024-03-11T00:00:01Z.
\<close>

theorem audit_end_of_day:
  "(\<forall>e \<in> set logs. timestamp e = ''2024-03-10T23:59:00Z''
        \<longrightarrow> e \<in> set (filteredAuditLogs until_march_10 logs))
   \<and> (\<forall>e \<in> set logs. timestamp e = ''2024-03-11T00:00:01Z''
        \<longrightarrow> e \<notin> set (filteredAuditLogs until_march_10 logs))"
proof (intro conjI ballI impI)
  fix e assume "e \<in> set logs" and t: "timestamp e = ''2024-03-10T23:59:00Z''"
  have "audit_passes until_march_10 e"
    unfolding audit_passes_def Let_def until_march_10_fields t audit_bound_time audit_inside_time
    by (simp add: date_le_def)
  with \<open>e \<in> set logs\<close> show "e \<in> set (filteredAuditLogs until_march_10 logs)"
    by (simp add: filteredAuditLogs_def)
next
  fix e assume "e \<in> set logs" and t: "timestamp e = ''2024-03-11T00:00:01Z''"
  have "\<not> audit_passes until_march_10 e"
    unfolding audit_passes_def Let_def until_march_10_fields t audit_bound_time audit_outside_time
    by (simp add: date_le_def)
  then show "e \<notin> set (filteredAuditLogs until_march_10 logs)"
    by (simp add: filteredAuditLogs_def)
qed

theorem audit_end_of_day_witness:
  "example_entry \<in> set [late_entry, example_entry]
   \<and> timestamp example_entry = ''2024-03-10T23:59:00Z''
   \<and> late_entry \<in> set [late_entry, example_entry]
   \<and> timestamp late_entry = ''2024-03-11T00:00:01Z''
   \<and> example_entry \<in> set (filteredAuditLogs until_march_10 [late_entry, example_entry])
   \<and> late_entry \<notin> set (filteredAuditLogs until_march_10 [late_entry, example_entry])"
proof -
  have t1: "timestamp example_entry = ''2024-03-10T23:59:00Z''"
    by (simp add: example_entry_def)
  have t2: "timestamp late_entry = ''2024-03-11T00:00:01Z''"
    by (simp add: late_entry_def example_entry_def)
  from audit_end_of_day [of "[late_entry, example_entry]"] t1 t2 show ?thesis
    by simp
qed


section \<open>Statement generation\<close>

text \<open>
  C2. When the contractor selector is "all", generating a statement shows the message that
  asks for a contractor and changes nothing else: the statement, the active tab and the
  filters are as before.
\<close>

theorem statement_needs_contractor:
  assumes "selectedContractorId (filters s) = AllContractors"
  shows "handleGenerateStatement props s
         = s\<lparr>alerts := alerts s @ [''Please select a specific contractor to generate a statement.'']\<rparr>
         \<and> statementData (handleGenerateStatement props s) = statementData s
         \<and> activeTab (handleGenerateStatement props s) = activeTab s"
  using assms by (simp add: handleGenerateStatement_def)

theorem statement_needs_contractor_witness:
  "selectedContractorId (filters initial_state) = AllContractors
   \<and> statementData (handleGenerateStatement example_props initial_state) = None
   \<and> activeTab (handleGenerateStatement example_props initial_state) = Tab_details
   \<and> alerts (handleGenerateStatement example_props initial_state)
       = [''Please select a specific contractor to generate a statement.'']"
proof -
  have a: "selectedContractorId (filters initial_state) = AllContractors"
    by (simp add: initial_state_def no_filter_def)
  from statement_needs_contractor [OF a, of example_props] a show ?thesis
    by (simp add: initial_state_def)
qed

text \<open>
  C10. When the selector names a contractor that the list of contractors does not hold,
  generating a statement returns the state as it was: no statement, no message, the same
  tab.
\<close>

theorem statement_unknown_contractor:
  assumes "selectedContractorId (filters s) = ContractorId n"
    and "find (\<lambda>c. contractor_key c = n) (contractors props) = None"
  shows "handleGenerateStatement props s = s"
  using assms by (simp add: handleGenerateStatement_def)

theorem statement_unknown_contractor_witness:
  "selectedContractorId (filters (initial_state\<lparr>filters := unknown_contractor\<rparr>)) = ContractorId 9
   \<and> find (\<lambda>c. contractor_key c = 9) (contractors example_props) = None
   \<and> handleGenerateStatement example_props (initial_state\<lparr>filters := unknown_contractor\<rparr>)
       = initial_state\<lparr>filters := unknown_contractor\<rparr>"
proof -
  have a: "selectedContractorId (filters (initial_state\<lparr>filters := unknown_contractor\<rparr>)) = ContractorId 9"
    by (simp add: unknown_contractor_def)
  have b: "find (\<lambda>c. contractor_key c = 9) (contractors example_props) = None"
    by (simp add: example_props_def example_contractor_def)
  from statement_unknown_contractor [OF a b] a b show ?thesis
    by simp
qed


section \<open>The statement roll-up\<close>

lemma double_or_zero_id: "x \<noteq> NaN \<Longrightarrow> double_or_zero x = x"
  by (cases x) simp_all

lemma double_or_zero_not_NaN: "double_or_zero x \<noteq> NaN"
  by (cases x) simp_all

lemma double_add_Finite_not_NaN: "a \<noteq> NaN \<Longrightarrow> double_add a (Finite x) \<noteq> NaN"
  by (cases a) (simp_all add: round_double_not_NaN)

lemma Number_or_zero_not_NaN: "Number_or_zero v \<noteq> NaN"
  by (cases v) (simp_all add: double_or_zero_not_NaN)

lemma field_category:
  "key \<noteq> Others_description \<Longrightarrow> field d key = Num (Finite (category d key))"
  by (cases key) simp_all

lemma statement_keys:
  "foldl (statement_key d) acc (Object_keys d) key =
     (if key = Others_description then acc key
      else Some (Num (double_add (Number_or_zero (acc key)) (as_number (field d key)))))"
  by (cases key) (simp_all add: Object_keys_def statement_key_def)

lemma statement_step_description:
  "st_deductions (foldl statement_step acc bills) Others_description = st_deductions acc Others_description"
  by (induction bills arbitrary: acc) (simp_all add: statement_step_def statement_keys)

lemma statement_step_number:
  assumes "key \<noteq> Others_description"
  shows "Number_or_zero (st_deductions (foldl statement_step acc bills) key)
         = foldl (\<lambda>a x. double_add a (Finite x)) (Number_or_zero (st_deductions acc key))
             (map (\<lambda>b. category (deductions b) key) bills)"
proof (induction bills arbitrary: acc)
  case Nil
  show ?case by simp
next
  case (Cons b bills)
  have "Number_or_zero (st_deductions (statement_step acc b) key)
        = double_add (Number_or_zero (st_deductions acc key)) (Finite (category (deductions b) key))"
    using assms
    by (simp add: statement_step_def statement_keys field_category double_or_zero_id
          double_add_Finite_not_NaN Number_or_zero_not_NaN)
  with Cons [of "statement_step acc b"] show ?case
    by simp
qed

text \<open>
  Every generated statement holds the bills of the contractor among the filtered bills. Each
  numeric category of its roll-up, read as the view reads it, is the sum of the category
  over these bills, added up in their order. The roll-up has no value under
  \<^verbatim>\<open>others_description\<close>, so that the view prints the label "Others".
\<close>

lemma statement_rollup:
  assumes "selectedContractorId (filters s) = ContractorId n"
    and "find (\<lambda>c. contractor_key c = n) (contractors props) = Some c"
  shows "\<exists>data. statementData (handleGenerateStatement props s) = Some data
           \<and> st_bills data = filter (\<lambda>b. contractor_id b = Some n)
                                (filteredBills (contracts props) (filters s) (savedBills props))
           \<and> (\<forall>key. key \<noteq> Others_description \<longrightarrow>
                 Number_or_zero (st_deductions (st_summary data) key)
                 = double_sum (map (\<lambda>b. category (deductions b) key) (st_bills data)))
           \<and> st_deductions (st_summary data) Others_description = None
           \<and> others_label data = ''Others''"
  using assms
  by (simp add: handleGenerateStatement_def Let_def statement_step_description
        statement_step_number others_label_def double_sum_def)

text \<open>
  C7. The statement for the contractor Acme holds the bill of the scenario, whose category
  \<^verbatim>\<open>others\<close> has the amount 5 and the description "Toll". The roll-up of the statement has
  the amount 5 for \<^verbatim>\<open>others\<close>, but no description, and the view prints "Others".
\<close>

theorem statement_drops_others_description:
  "map_option
     (\<lambda>data. (map (\<lambda>b. others_description (deductions b)) (st_bills data),
              st_deductions (st_summary data) Others,
              st_deductions (st_summary data) Others_description,
              others_label data))
     (statementData (handleGenerateStatement example_props (initial_state\<lparr>filters := acme_only\<rparr>)))
   = Some ([''Toll''], Some (Num (Finite 5)), None, ''Others'')"
  by code_simp


section \<open>Conservation of the amounts\<close>

lemma touch_get:
  "Map_get (touch m k zero upd) k'
   = (if k' = k then Some (upd (case Map_get m k of None \<Rightarrow> zero | Some r \<Rightarrow> r)) else Map_get m k')"
  by (cases "Map_get m k") (simp_all add: touch_def Map_has_def Map_get_Map_modify Map_get_Map_set)

lemma touch_keys:
  "map fst (touch m k zero upd) = (if k \<in> set (map fst m) then map fst m else map fst m @ [k])"
  by (simp add: touch_def Map_modify_keys Map_set_keys Map_has_keys)

lemma group_step_get:
  "Map_get (group_step skip key zero add m b) k =
     (if \<not> skip b \<and> key b = k
      then Some (add b (case Map_get m k of None \<Rightarrow> zero b | Some r \<Rightarrow> r))
      else Map_get m k)"
  by (auto simp: group_step_def touch_get)

lemma group_step_keys:
  "map fst (group_step skip key zero add m b) =
     (if skip b \<or> key b \<in> set (map fst m) then map fst m else map fst m @ [key b])"
  by (simp add: group_step_def touch_keys)

lemma group_step_hit:
  "\<not> skip b \<Longrightarrow> key b = k \<Longrightarrow>
   Map_get (group_step skip key zero add m b) k
   = Some (add b (case Map_get m k of None \<Rightarrow> zero b | Some r \<Rightarrow> r))"
  by (simp add: group_step_get)

lemma group_step_miss:
  "skip b \<or> key b \<noteq> k \<Longrightarrow> Map_get (group_step skip key zero add m b) k = Map_get m k"
  by (auto simp: group_step_get)

lemma group_fold_get:
  "Map_get (foldl (group_step skip key zero add) m bs) k =
     (case filter (\<lambda>b. \<not> skip b \<and> key b = k) bs of
        [] \<Rightarrow> Map_get m k
      | b0 # rest \<Rightarrow>
          Some (foldl (\<lambda>r b. add b r) (case Map_get m k of None \<Rightarrow> zero b0 | Some r \<Rightarrow> r)
                  (filter (\<lambda>b. \<not> skip b \<and> key b = k) bs)))"
proof (induction bs arbitrary: m)
  case Nil
  show ?case by simp
next
  case (Cons b bs)
  show ?case
  proof (cases "skip b \<or> key b \<noteq> k")
    case False
    then have h: "\<not> skip b" "key b = k" by simp_all
    have e: "Map_get (group_step skip key zero add m b) k
             = Some (add b (case Map_get m k of None \<Rightarrow> zero b | Some r \<Rightarrow> r))"
      using h by (rule group_step_hit)
    have f: "filter (\<lambda>b. \<not> skip b \<and> key b = k) (b # bs) = b # filter (\<lambda>b. \<not> skip b \<and> key b = k) bs"
      using h by simp
    note ih = Cons [of "group_step skip key zero add m b"]
    show ?thesis
    proof (cases "filter (\<lambda>b. \<not> skip b \<and> key b = k) bs")
      case Nil
      with ih e f show ?thesis by simp
    next
      case (Cons b1 rest)
      with ih e f show ?thesis by simp
    qed
  next
    case True
    then have f: "filter (\<lambda>b. \<not> skip b \<and> key b = k) (b # bs) = filter (\<lambda>b. \<not> skip b \<and> key b = k) bs"
      by auto
    have e: "Map_get (group_step skip key zero add m b) k = Map_get m k"
      using True by (rule group_step_miss [where skip = skip and key = key])
    show ?thesis
      unfolding f using Cons [of "group_step skip key zero add m b"]
      by (simp only: foldl_Cons e)
  qed
qed

lemma group_fold_distinct:
  "distinct (map fst m) \<Longrightarrow> distinct (map fst (foldl (group_step skip key zero add) m bs))"
  by (induction bs arbitrary: m) (simp_all add: group_step_keys)

lemma group_step_key_set:
  "set (map fst (group_step skip key zero add m b))
   = set (map fst m) \<union> (if skip b then {} else {key b})"
  by (auto simp: group_step_keys)

lemma group_fold_keys:
  "set (map fst (foldl (group_step skip key zero add) m bs))
   = set (map fst m) \<union> key ` {b \<in> set bs. \<not> skip b}"
proof (induction bs arbitrary: m)
  case Nil
  show ?case by simp
next
  case (Cons b bs)
  have "key ` {x \<in> set (b # bs). \<not> skip x}
        = (if skip b then {} else {key b}) \<union> key ` {x \<in> set bs. \<not> skip x}"
    by auto
  then show ?case
    using Cons [of "group_step skip key zero add m b"]
    by (simp only: foldl_Cons group_step_key_set Un_assoc)
qed

lemma Map_get_Nil: "Map_get [] k = None"
  by (simp add: Map_get_def)

lemma Map_values_by_key:
  "distinct (map fst m) \<Longrightarrow> Map_values m = map (\<lambda>k. the (Map_get m k)) (map fst m)"
proof (induction m)
  case Nil
  show ?case by (simp add: Map_values_def)
next
  case (Cons p m)
  have "the (Map_get (p # m) k) = the (Map_get m k)" if "k \<in> set (map fst m)" for k
    using that Cons.prems by (cases p) (auto simp: Map_get_def)
  then have "map (\<lambda>k. the (Map_get (p # m) k)) (map fst m) = map (\<lambda>k. the (Map_get m k)) (map fst m)"
    by (intro map_cong) simp_all
  with Cons show ?case
    by (simp add: Map_values_def Map_get_def)
qed

lemma group_fold_values:
  "mset (Map_values (foldl (group_step skip key zero add) [] bs))
   = mset (map (\<lambda>k. foldl (\<lambda>r b. add b r)
                       (zero (hd (filter (\<lambda>b. \<not> skip b \<and> key b = k) bs)))
                       (filter (\<lambda>b. \<not> skip b \<and> key b = k) bs))
             (remdups (map key (filter (\<lambda>b. \<not> skip b) bs))))"
proof -
  let ?M = "foldl (group_step skip key zero add) [] bs"
  let ?K = "remdups (map key (filter (\<lambda>b. \<not> skip b) bs))"
  let ?g = "\<lambda>k. foldl (\<lambda>r b. add b r) (zero (hd (filter (\<lambda>b. \<not> skip b \<and> key b = k) bs)))
                  (filter (\<lambda>b. \<not> skip b \<and> key b = k) bs)"
  have d: "distinct (map fst ?M)"
    by (rule group_fold_distinct) simp
  have s: "set (map fst ?M) = set ?K"
    unfolding group_fold_keys by auto
  have m: "mset (map fst ?M) = mset ?K"
    by (rule iffD1 [OF set_eq_iff_mset_eq_distinct]) (use d s in simp_all)
  have g: "the (Map_get ?M k) = ?g k" if "k \<in> set ?K" for k
  proof -
    from that obtain b where "b \<in> set bs" "\<not> skip b" "key b = k"
      by auto
    then have "filter (\<lambda>b. \<not> skip b \<and> key b = k) bs \<noteq> []"
      by (auto simp: filter_empty_conv)
    then show ?thesis
      by (simp add: group_fold_get Map_get_Nil split: list.splits)
  qed
  have "mset (Map_values ?M) = mset (map (\<lambda>k. the (Map_get ?M k)) (map fst ?M))"
    using Map_values_by_key [OF d] by simp
  also have "\<dots> = image_mset (\<lambda>k. the (Map_get ?M k)) (mset ?K)"
    using m by (metis mset_map)
  also have "\<dots> = image_mset ?g (mset ?K)"
    by (rule image_mset_cong) (simp add: g)
  finally show ?thesis
    by simp
qed

lemma contractor_step_group:
  "contractor_step =
     group_step no_contractor (\<lambda>b. the (contractor_id b))
       (\<lambda>b. \<lparr>cs_name = contractor_name b, cs_totalBills = 0, cs_grandTotal = Finite 0,
              cs_totalDeductions = Finite 0, cs_netAmount = Finite 0\<rparr>)
       contractor_add"
  by (intro ext) (auto simp: contractor_step_def group_step_def touch_def no_contractor_def split: option.splits)

lemma monthly_step_group:
  "monthly_step =
     group_step (\<lambda>b. False) (\<lambda>b. take 7 (bill_date b))
       (\<lambda>b. \<lparr>month = take 7 (bill_date b), ms_totalBills = 0, ms_grandTotal = Finite 0,
              ms_totalDeductions = Finite 0, ms_netAmount = Finite 0\<rparr>)
       month_add"
  by (intro ext) (simp add: monthly_step_def group_step_def touch_def Let_def)

lemma contractor_add_fold:
  "foldl (\<lambda>r b. contractor_add b r) r bs
   = r\<lparr>cs_totalBills := cs_totalBills r + length bs,
       cs_grandTotal := foldl (\<lambda>a x. double_add a (Finite x)) (cs_grandTotal r) (map grandTotal bs),
       cs_totalDeductions :=
         foldl (\<lambda>a x. double_add a (Finite x)) (cs_totalDeductions r) (map totalDeductions bs),
       cs_netAmount := foldl (\<lambda>a x. double_add a (Finite x)) (cs_netAmount r) (map netAmount bs)\<rparr>"
  by (induction bs arbitrary: r) (simp_all add: contractor_add_def)

lemma month_add_fold:
  "foldl (\<lambda>r b. month_add b r) r bs
   = r\<lparr>ms_totalBills := ms_totalBills r + length bs,
       ms_grandTotal := foldl (\<lambda>a x. double_add a (Finite x)) (ms_grandTotal r) (map grandTotal bs),
       ms_totalDeductions :=
         foldl (\<lambda>a x. double_add a (Finite x)) (ms_totalDeductions r) (map totalDeductions bs),
       ms_netAmount := foldl (\<lambda>a x. double_add a (Finite x)) (ms_netAmount r) (map netAmount bs)\<rparr>"
  by (induction bs arbitrary: r) (simp_all add: month_add_def)

lemma contractor_members:
  assumes "k \<in> set (contractor_ids bills)"
  shows "filter (\<lambda>b. \<not> no_contractor b \<and> the (contractor_id b) = k) bills
         = filter (\<lambda>b. contractor_id b = Some k) bills"
proof -
  from assms have "k \<noteq> 0"
    by (auto simp: contractor_ids_def no_contractor_def split: option.splits)
  then show ?thesis
    by (intro filter_cong) (auto simp: no_contractor_def split: option.splits)
qed

lemma contractor_rows:
  "mset (Map_values (foldl contractor_step [] bills))
   = mset (map (contractor_group bills) (contractor_ids bills))"
proof -
  let ?g = "\<lambda>k. foldl (\<lambda>r b. contractor_add b r)
                   \<lparr>cs_name = contractor_name
                      (hd (filter (\<lambda>b. \<not> no_contractor b \<and> the (contractor_id b) = k) bills)),
                    cs_totalBills = 0, cs_grandTotal = Finite 0, cs_totalDeductions = Finite 0,
                    cs_netAmount = Finite 0\<rparr>
                   (filter (\<lambda>b. \<not> no_contractor b \<and> the (contractor_id b) = k) bills)"
  have "mset (Map_values (foldl contractor_step [] bills)) = mset (map ?g (contractor_ids bills))"
    by (simp only: contractor_step_group group_fold_values contractor_ids_def)
  also have "map ?g (contractor_ids bills) = map (contractor_group bills) (contractor_ids bills)"
    by (intro map_cong refl)
       (simp add: contractor_members contractor_add_fold contractor_group_def Let_def double_sum_def)
  finally show ?thesis .
qed

lemma month_members:
  assumes "k \<in> set (months bills)"
  shows "take 7 (bill_date (hd (filter (\<lambda>b. take 7 (bill_date b) = k) bills))) = k"
proof -
  from assms have "filter (\<lambda>b. take 7 (bill_date b) = k) bills \<noteq> []"
    by (auto simp: months_def filter_empty_conv)
  then have "hd (filter (\<lambda>b. take 7 (bill_date b) = k) bills)
             \<in> set (filter (\<lambda>b. take 7 (bill_date b) = k) bills)"
    by (rule hd_in_set)
  then show ?thesis
    by simp
qed

lemma month_rows:
  "mset (Map_values (foldl monthly_step [] bills)) = mset (map (month_group bills) (months bills))"
proof -
  let ?g = "\<lambda>k. foldl (\<lambda>r b. month_add b r)
                   \<lparr>month = take 7 (bill_date (hd (filter (\<lambda>b. \<not> False \<and> take 7 (bill_date b) = k) bills))),
                    ms_totalBills = 0, ms_grandTotal = Finite 0, ms_totalDeductions = Finite 0,
                    ms_netAmount = Finite 0\<rparr>
                   (filter (\<lambda>b. \<not> False \<and> take 7 (bill_date b) = k) bills)"
  have "mset (Map_values (foldl monthly_step [] bills))
        = mset (map ?g (remdups (map (\<lambda>b. take 7 (bill_date b)) (filter (\<lambda>b. \<not> False) bills))))"
    by (simp only: monthly_step_group group_fold_values)
  also have "remdups (map (\<lambda>b. take 7 (bill_date b)) (filter (\<lambda>b. \<not> False) bills)) = months bills"
    by (simp add: months_def)
  also have "map ?g (months bills) = map (month_group bills) (months bills)"
    by (intro map_cong refl)
       (simp add: month_members month_add_fold month_group_def Let_def double_sum_def)
  finally show ?thesis .
qed

lemma sum_list_mset:
  fixes g :: "'a \<Rightarrow> 'b :: comm_monoid_add"
  assumes "mset xs = mset ys"
  shows "sum_list (map g xs) = sum_list (map g ys)"
  using assms by (metis mset_map sum_mset_sum_list)

lemma sum_list_delta_none:
  fixes c :: "'b :: comm_monoid_add"
  shows "x \<notin> set ks \<Longrightarrow> (\<Sum>k\<leftarrow>ks. if x = k then c else 0) = 0"
  by (induction ks) auto

lemma sum_list_delta:
  fixes c :: "'b :: comm_monoid_add"
  assumes "distinct ks" "x \<in> set ks"
  shows "(\<Sum>k\<leftarrow>ks. if x = k then c else 0) = c"
  using assms by (induction ks) (auto simp: sum_list_delta_none)

lemma sum_groups:
  fixes f :: "'a \<Rightarrow> 'b :: comm_monoid_add"
  assumes "distinct ks" "key ` set bs \<subseteq> set ks"
  shows "(\<Sum>k\<leftarrow>ks. \<Sum>b\<leftarrow>filter (\<lambda>b. key b = k) bs. f b) = (\<Sum>b\<leftarrow>bs. f b)"
  using assms(2)
proof (induction bs)
  case Nil
  show ?case by simp
next
  case (Cons b bs)
  have "(\<Sum>k\<leftarrow>ks. \<Sum>b\<leftarrow>filter (\<lambda>b. key b = k) (b # bs). f b)
        = (\<Sum>k\<leftarrow>ks. (if key b = k then f b else 0) + (\<Sum>b\<leftarrow>filter (\<lambda>b. key b = k) bs. f b))"
    by (intro arg_cong [where f = sum_list] map_cong refl) simp
  also have "\<dots> = (\<Sum>k\<leftarrow>ks. if key b = k then f b else 0)
                    + (\<Sum>k\<leftarrow>ks. \<Sum>b\<leftarrow>filter (\<lambda>b. key b = k) bs. f b)"
    by (simp add: sum_list_addf)
  also have "(\<Sum>k\<leftarrow>ks. if key b = k then f b else 0) = f b"
    using assms(1) Cons.prems by (intro sum_list_delta) auto
  finally show ?case
    using Cons by simp
qed

lemma length_groups:
  assumes "distinct ks" "key ` set bs \<subseteq> set ks"
  shows "(\<Sum>k\<leftarrow>ks. length (filter (\<lambda>b. key b = k) bs)) = length bs"
proof -
  have "(\<Sum>k\<leftarrow>ks. \<Sum>b\<leftarrow>filter (\<lambda>b. key b = k) bs. (1::nat)) = (\<Sum>b\<leftarrow>bs. 1)"
    using assms by (rule sum_groups)
  then show ?thesis
    by (simp add: sum_list_triv)
qed

lemma contractor_count:
  "(\<Sum>r\<leftarrow>contractorSummary bills. cs_totalBills r) = length (filter (\<lambda>b. \<not> no_contractor b) bills)"
proof -
  let ?A = "filter (\<lambda>b. \<not> no_contractor b) bills"
  have "(\<Sum>r\<leftarrow>contractorSummary bills. cs_totalBills r)
        = (\<Sum>r\<leftarrow>map (contractor_group bills) (contractor_ids bills). cs_totalBills r)"
    by (rule sum_list_mset) (simp add: contractorSummary_def mset_js_sort contractor_rows)
  also have "\<dots> = (\<Sum>k\<leftarrow>contractor_ids bills. length (filter (\<lambda>b. the (contractor_id b) = k) ?A))"
    unfolding map_map
    by (intro arg_cong [where f = sum_list] map_cong refl)
       (simp add: contractor_group_def Let_def contractor_members [symmetric] conj_commute)
  also have "\<dots> = length ?A"
    by (rule length_groups) (simp_all add: contractor_ids_def)
  finally show ?thesis .
qed

lemma month_count: "(\<Sum>r\<leftarrow>monthlySummary bills. ms_totalBills r) = length bills"
proof -
  have "(\<Sum>r\<leftarrow>monthlySummary bills. ms_totalBills r)
        = (\<Sum>r\<leftarrow>map (month_group bills) (months bills). ms_totalBills r)"
    by (rule sum_list_mset) (simp add: monthlySummary_def mset_js_sort month_rows)
  also have "\<dots> = (\<Sum>k\<leftarrow>months bills. length (filter (\<lambda>b. take 7 (bill_date b) = k) bills))"
    unfolding map_map
    by (intro arg_cong [where f = sum_list] map_cong refl) (simp add: month_group_def Let_def)
  also have "\<dots> = length bills"
    by (rule length_groups) (simp_all add: months_def)
  finally show ?thesis .
qed

lemma deductions_fold_total:
  "total (foldl deductions_step s bills)
   = foldl (\<lambda>a x. double_add a (Finite x)) (total s) (map totalDeductions bills)"
  by (induction bills arbitrary: s) (simp_all add: deductions_step_def)

lemma summary_fold:
  "sum_netAmount
     (foldl (\<lambda>acc bill.
              acc\<lparr>sum_totalAmount := double_add (sum_totalAmount acc) (Finite (grandTotal bill)),
                  sum_totalDeductions :=
                    double_add (sum_totalDeductions acc) (Finite (totalDeductions bill)),
                  sum_netAmount := double_add (sum_netAmount acc) (Finite (netAmount bill))\<rparr>) acc bills)
   = foldl (\<lambda>a x. double_add a (Finite x)) (sum_netAmount acc) (map netAmount bills)"
  "sum_totalDeductions
     (foldl (\<lambda>acc bill.
              acc\<lparr>sum_totalAmount := double_add (sum_totalAmount acc) (Finite (grandTotal bill)),
                  sum_totalDeductions :=
                    double_add (sum_totalDeductions acc) (Finite (totalDeductions bill)),
                  sum_netAmount := double_add (sum_netAmount acc) (Finite (netAmount bill))\<rparr>) acc bills)
   = foldl (\<lambda>a x. double_add a (Finite x)) (sum_totalDeductions acc) (map totalDeductions bills)"
  by (induction bills arbitrary: acc) simp_all

lemma summary_netAmount: "sum_netAmount (summary bills) = double_sum (map netAmount bills)"
  by (simp add: summary_def summary_fold double_sum_def)

lemma summary_totalDeductions:
  "sum_totalDeductions (summary bills) = double_sum (map totalDeductions bills)"
  by (simp add: summary_def summary_fold double_sum_def)

lemma deductions_total: "total (deductionsSummary bills) = double_sum (map totalDeductions bills)"
  by (simp add: deductionsSummary_def deductions_fold_total double_sum_def)

lemma whole_Ints: "(of_int \<lfloor>x :: rat\<rfloor> = x) = (x \<in> \<int>)"
  by (auto simp: Ints_def)

lemma whole_sum: "list_all (\<lambda>x. of_int \<lfloor>x\<rfloor> = x) xs \<Longrightarrow> sum_list xs \<in> \<int>" for xs :: "rat list"
proof (induction xs)
  case Nil
  show ?case by simp
next
  case (Cons x xs)
  then have "x \<in> \<int>" "sum_list xs \<in> \<int>"
    by (auto simp: Ints_def)
  then show ?case
    by simp
qed

lemma double_sum_exact:
  assumes "list_all (\<lambda>x. of_int \<lfloor>x\<rfloor> = x) xs" "(\<Sum>x\<leftarrow>xs. \<bar>x\<bar>) \<le> 2 ^ 53"
  shows "double_sum xs = Finite (sum_list xs)"
  using assms
proof (induction xs rule: rev_induct)
  case Nil
  show ?case by (simp add: double_sum_def)
next
  case (snoc x xs)
  have "(\<Sum>x\<leftarrow>xs. \<bar>x\<bar>) \<le> (\<Sum>x\<leftarrow>xs @ [x]. \<bar>x\<bar>)"
    by simp
  with snoc have ih: "double_sum xs = Finite (sum_list xs)"
    by simp
  have "sum_list (xs @ [x]) \<in> \<int>"
    using snoc.prems(1) by (rule whole_sum)
  then obtain n where n: "sum_list xs + x = of_int n"
    by (auto simp: Ints_def)
  have "\<bar>sum_list (xs @ [x])\<bar> \<le> (\<Sum>x\<leftarrow>xs @ [x]. \<bar>x\<bar>)"
    by (rule sum_list_abs)
  with snoc.prems(2) n have "\<bar>(of_int n :: rat)\<bar> \<le> 2 ^ 53"
    by simp
  then have "\<bar>n\<bar> \<le> 2 ^ 53"
    by (metis of_int_abs of_int_le_iff of_int_numeral of_int_power)
  then have "round_double (of_int n) = Finite (of_int n)"
    by (rule round_double_of_int)
  with ih n show ?case
    by (simp add: double_sum_snoc)
qed

lemma double_sum_map_exact:
  fixes f :: "'a \<Rightarrow> rat"
  assumes "list_all (\<lambda>b. of_int \<lfloor>f b\<rfloor> = f b) A" "(\<Sum>b\<leftarrow>A. \<bar>f b\<bar>) \<le> 2 ^ 53"
  shows "double_sum (map f A) = Finite (\<Sum>b\<leftarrow>A. f b)"
proof (rule double_sum_exact)
  show "list_all (\<lambda>x. of_int \<lfloor>x\<rfloor> = x) (map f A)"
    using assms(1) unfolding list_all_iff by auto
  have "(\<Sum>x\<leftarrow>map f A. \<bar>x\<bar>) = (\<Sum>b\<leftarrow>A. \<bar>f b\<bar>)"
    by (simp add: comp_def)
  with assms(2) show "(\<Sum>x\<leftarrow>map f A. \<bar>x\<bar>) \<le> 2 ^ 53"
    by (simp only:)
qed

lemma sum_list_filter_abs:
  fixes f :: "'a \<Rightarrow> rat"
  shows "(\<Sum>x\<leftarrow>filter P xs. \<bar>f x\<bar>) \<le> (\<Sum>x\<leftarrow>xs. \<bar>f x\<bar>)"
  by (induction xs) (simp_all add: add_increasing)

lemma double_total_Finite: "double_total (map Finite xs) = double_sum xs"
  by (simp add: double_total_def double_sum_def foldl_map)

lemma grouped_total_exact:
  fixes f :: "'a \<Rightarrow> rat"
  assumes rows: "mset ds = mset (map (\<lambda>k. double_sum (map f (filter (\<lambda>b. key b = k) A))) ks)"
    and ks: "distinct ks" "key ` set A \<subseteq> set ks"
    and whole: "list_all (\<lambda>b. of_int \<lfloor>f b\<rfloor> = f b) A"
    and bound: "(\<Sum>b\<leftarrow>A. \<bar>f b\<bar>) \<le> 2 ^ 53"
  shows "double_total ds = Finite (\<Sum>b\<leftarrow>A. f b)"
proof -
  let ?G = "\<lambda>k. \<Sum>b\<leftarrow>filter (\<lambda>b. key b = k) A. f b"
  have g: "double_sum (map f (filter (\<lambda>b. key b = k) A)) = Finite (?G k)" for k
  proof (rule double_sum_exact)
    show "list_all (\<lambda>x. of_int \<lfloor>x\<rfloor> = x) (map f (filter (\<lambda>b. key b = k) A))"
      using whole by (simp add: list_all_iff)
    have "(\<Sum>x\<leftarrow>map f (filter (\<lambda>b. key b = k) A). \<bar>x\<bar>) = (\<Sum>b\<leftarrow>filter (\<lambda>b. key b = k) A. \<bar>f b\<bar>)"
      by (simp add: comp_def)
    also have "\<dots> \<le> (\<Sum>b\<leftarrow>A. \<bar>f b\<bar>)"
      by (rule sum_list_filter_abs)
    finally show "(\<Sum>x\<leftarrow>map f (filter (\<lambda>b. key b = k) A). \<bar>x\<bar>) \<le> 2 ^ 53"
      using bound by simp
  qed
  have m: "mset ds = mset (map Finite (map ?G ks))"
    unfolding rows by (simp add: g comp_def)
  define gs where "gs = map finite_value ds"
  have "Finite (finite_value d) = d" if "d \<in> set ds" for d
    using that mset_eq_setD [OF m] by auto
  then have ds: "ds = map Finite gs"
    unfolding gs_def by (simp add: map_idI)
  have mg: "mset gs = mset (map ?G ks)"
  proof -
    have "mset gs = image_mset finite_value (mset ds)"
      by (simp add: gs_def)
    also have "\<dots> = image_mset finite_value (mset (map Finite (map ?G ks)))"
      by (simp only: m)
    also have "\<dots> = mset (map ?G ks)"
      by (simp add: multiset.map_comp comp_def)
    finally show ?thesis .
  qed
  have sg: "sum_list gs = (\<Sum>b\<leftarrow>A. f b)"
  proof -
    have "sum_list gs = sum_list (map ?G ks)"
      using sum_list_mset [OF mg, of "\<lambda>x. x"] by simp
    also have "\<dots> = (\<Sum>b\<leftarrow>A. f b)"
      using ks by (rule sum_groups)
    finally show ?thesis .
  qed
  have "double_sum gs = Finite (sum_list gs)"
  proof (rule double_sum_exact)
    have "?G k \<in> \<int>" for k
      using whole by (intro whole_sum [of "map f (filter (\<lambda>b. key b = k) A)"]) (simp add: list_all_iff)
    then have "\<forall>x \<in> set (map ?G ks). of_int \<lfloor>x\<rfloor> = x"
      by (auto simp only: whole_Ints set_map)
    then show "list_all (\<lambda>x. of_int \<lfloor>x\<rfloor> = x) gs"
      using mset_eq_setD [OF mg] by (simp add: list_all_iff)
    have "(\<Sum>x\<leftarrow>gs. \<bar>x\<bar>) = (\<Sum>x\<leftarrow>map ?G ks. \<bar>x\<bar>)"
      by (rule sum_list_mset [OF mg])
    also have "\<dots> \<le> (\<Sum>k\<leftarrow>ks. \<Sum>b\<leftarrow>filter (\<lambda>b. key b = k) A. \<bar>f b\<bar>)"
    proof -
      have "\<bar>?G k\<bar> \<le> (\<Sum>b\<leftarrow>filter (\<lambda>b. key b = k) A. \<bar>f b\<bar>)" for k
        using sum_list_abs [of "map f (filter (\<lambda>b. key b = k) A)"] by (simp add: comp_def)
      then show ?thesis
        unfolding map_map comp_def by (intro sum_list_mono) simp
    qed
    also have "\<dots> = (\<Sum>b\<leftarrow>A. \<bar>f b\<bar>)"
      using ks by (rule sum_groups)
    finally show "(\<Sum>x\<leftarrow>gs. \<bar>x\<bar>) \<le> 2 ^ 53"
      using bound by simp
  qed
  then show ?thesis
    by (simp add: ds double_total_Finite sg)
qed


lemma contractor_total_exact:
  assumes "whole_amounts bills"
  shows "double_total (map cs_netAmount (contractorSummary bills))
         = sum_netAmount (summary (filter (\<lambda>b. \<not> no_contractor b) bills))"
proof -
  let ?A = "filter (\<lambda>b. \<not> no_contractor b) bills"
  have w: "list_all (\<lambda>b. of_int \<lfloor>netAmount b\<rfloor> = netAmount b) ?A"
    using assms unfolding whole_amounts_def list_all_iff by auto
  have "(\<Sum>b\<leftarrow>?A. \<bar>netAmount b\<bar>) \<le> (\<Sum>b\<leftarrow>bills. \<bar>netAmount b\<bar>)"
    by (rule sum_list_filter_abs)
  also have "\<dots> \<le> 2 ^ 53"
    using assms unfolding whole_amounts_def by (rule conjunct2)
  finally have b: "(\<Sum>b\<leftarrow>?A. \<bar>netAmount b\<bar>) \<le> 2 ^ 53" .
  have "mset (map cs_netAmount (contractorSummary bills))
        = mset (map (\<lambda>k. cs_netAmount (contractor_group bills k)) (contractor_ids bills))"
    by (simp add: contractorSummary_def mset_js_sort contractor_rows multiset.map_comp comp_def)
  also have "map (\<lambda>k. cs_netAmount (contractor_group bills k)) (contractor_ids bills)
             = map (\<lambda>k. double_sum (map netAmount (filter (\<lambda>b. the (contractor_id b) = k) ?A)))
                 (contractor_ids bills)"
    by (intro map_cong refl)
       (simp add: contractor_group_def Let_def contractor_members [symmetric] conj_commute)
  finally have "double_total (map cs_netAmount (contractorSummary bills))
                = Finite (\<Sum>b\<leftarrow>?A. netAmount b)"
    by (rule grouped_total_exact [OF _ _ _ w b]) (simp_all add: contractor_ids_def)
  moreover have "double_sum (map netAmount ?A) = Finite (sum_list (map netAmount ?A))"
    by (rule double_sum_map_exact [OF w b])
  ultimately show ?thesis
    by (simp add: summary_netAmount)
qed

lemma month_total_exact:
  assumes "whole_amounts bills"
  shows "double_total (map ms_netAmount (monthlySummary bills)) = sum_netAmount (summary bills)"
proof -
  have w: "list_all (\<lambda>b. of_int \<lfloor>netAmount b\<rfloor> = netAmount b) bills"
    using assms unfolding whole_amounts_def by (rule conjunct1)
  have b: "(\<Sum>b\<leftarrow>bills. \<bar>netAmount b\<bar>) \<le> 2 ^ 53"
    using assms unfolding whole_amounts_def by (rule conjunct2)
  have "mset (map ms_netAmount (monthlySummary bills))
        = mset (map (\<lambda>k. double_sum (map netAmount (filter (\<lambda>b. take 7 (bill_date b) = k) bills)))
                  (months bills))"
    by (simp add: monthlySummary_def mset_js_sort month_rows multiset.map_comp comp_def
          month_group_def Let_def)
  then have "double_total (map ms_netAmount (monthlySummary bills))
             = Finite (\<Sum>b\<leftarrow>bills. netAmount b)"
    by (rule grouped_total_exact [OF _ _ _ w b]) (simp_all add: months_def)
  moreover have "double_sum (map netAmount bills) = Finite (sum_list (map netAmount bills))"
    by (rule double_sum_map_exact [OF w b])
  ultimately show ?thesis
    by (simp add: summary_netAmount)
qed

text \<open>
  C1, as the code has it. For every list of bills and every filter state, the Contractor
  Summary of the filtered bills has one group for each contractor id that a filtered bill
  has, and the Monthly Summary one group for each month: a group counts the filtered bills
  of the contractor or of the month, each of them once, and its amounts are the sums over
  these bills, added up in their order in double arithmetic. A bill whose contractor id is
  missing or \<open>0\<close> is in no group of the Contractor Summary. The net amount of the totals is
  the sum over the filtered bills, added up in their order, and the total of the
  Deduction-Category Summary is the total of the deductions in the totals. If the net
  amounts are whole numbers with magnitudes that add up to \<open>2 ^ 53\<close> at most, no addition is
  rounded: then the net amounts of the groups of the Contractor Summary add up to the net
  amount of the filtered bills that have a contractor id, and those of the groups of the
  Monthly Summary to the net amount of the filtered bills.
\<close>

theorem summary_groups:
  fixes cs :: "Contract list" and f :: FilterState and R :: "SavedBill list"
  defines "B \<equiv> filteredBills cs f R"
  shows "mset (contractorSummary B) = mset (map (contractor_group B) (contractor_ids B))
       \<and> (\<Sum>r\<leftarrow>contractorSummary B. cs_totalBills r) = length (filter (\<lambda>b. \<not> no_contractor b) B)
       \<and> mset (monthlySummary B) = mset (map (month_group B) (months B))
       \<and> (\<Sum>r\<leftarrow>monthlySummary B. ms_totalBills r) = length B
       \<and> sum_netAmount (summary B) = double_sum (map netAmount B)
       \<and> total (deductionsSummary B) = sum_totalDeductions (summary B)
       \<and> total (deductionsSummary B) = double_sum (map totalDeductions B)
       \<and> (whole_amounts B \<longrightarrow>
            double_total (map cs_netAmount (contractorSummary B))
              = sum_netAmount (summary (filter (\<lambda>b. \<not> no_contractor b) B))
            \<and> double_total (map ms_netAmount (monthlySummary B)) = sum_netAmount (summary B))"
proof (intro conjI impI)
  show "mset (contractorSummary B) = mset (map (contractor_group B) (contractor_ids B))"
    by (simp add: contractorSummary_def mset_js_sort contractor_rows)
  show "(\<Sum>r\<leftarrow>contractorSummary B. cs_totalBills r) = length (filter (\<lambda>b. \<not> no_contractor b) B)"
    by (rule contractor_count)
  show "mset (monthlySummary B) = mset (map (month_group B) (months B))"
    by (simp add: monthlySummary_def mset_js_sort month_rows)
  show "(\<Sum>r\<leftarrow>monthlySummary B. ms_totalBills r) = length B"
    by (rule month_count)
  show "sum_netAmount (summary B) = double_sum (map netAmount B)"
    by (rule summary_netAmount)
  show "total (deductionsSummary B) = sum_totalDeductions (summary B)"
    by (simp add: deductions_total summary_totalDeductions)
  show "total (deductionsSummary B) = double_sum (map totalDeductions B)"
    by (rule deductions_total)
  show "double_total (map cs_netAmount (contractorSummary B))
          = sum_netAmount (summary (filter (\<lambda>b. \<not> no_contractor b) B))" if "whole_amounts B"
    using that by (rule contractor_total_exact)
  show "double_total (map ms_netAmount (monthlySummary B)) = sum_netAmount (summary B)"
    if "whole_amounts B"
    using that by (rule month_total_exact)
qed

theorem summary_groups_witness:
  "whole_amounts (filteredBills (contracts example_props) no_filter (savedBills example_props))
   \<and> filteredBills (contracts example_props) no_filter (savedBills example_props)
       = [later_bill, example_bill, unattributed_bill]
   \<and> contractor_ids [later_bill, example_bill, unattributed_bill] = [2, 1]
   \<and> months [later_bill, example_bill, unattributed_bill] = [''2024-03'', ''2024-01'']
   \<and> mset (contractorSummary [later_bill, example_bill, unattributed_bill])
       = mset [\<lparr>cs_name = ''Bolt'', cs_totalBills = 1, cs_grandTotal = Finite 1000,
                cs_totalDeductions = Finite 100, cs_netAmount = Finite 900\<rparr>,
               \<lparr>cs_name = ''Acme'', cs_totalBills = 1, cs_grandTotal = Finite 1000,
                cs_totalDeductions = Finite 100, cs_netAmount = Finite 900\<rparr>]
   \<and> mset (monthlySummary [later_bill, example_bill, unattributed_bill])
       = mset [\<lparr>month = ''2024-03'', ms_totalBills = 1, ms_grandTotal = Finite 1000,
                ms_totalDeductions = Finite 100, ms_netAmount = Finite 900\<rparr>,
               \<lparr>month = ''2024-01'', ms_totalBills = 2, ms_grandTotal = Finite 2000,
                ms_totalDeductions = Finite 200, ms_netAmount = Finite 1800\<rparr>]
   \<and> (\<Sum>r\<leftarrow>contractorSummary [later_bill, example_bill, unattributed_bill]. cs_totalBills r) = 2
   \<and> (\<Sum>r\<leftarrow>monthlySummary [later_bill, example_bill, unattributed_bill]. ms_totalBills r) = 3
   \<and> double_total (map cs_netAmount (contractorSummary [later_bill, example_bill, unattributed_bill]))
       = Finite 1800
   \<and> double_total (map ms_netAmount (monthlySummary [later_bill, example_bill, unattributed_bill]))
       = Finite 2700
   \<and> total (deductionsSummary [later_bill, example_bill, unattributed_bill]) = Finite 300"
proof -
  let ?B = "[later_bill, example_bill, unattributed_bill]"
  have e: "filteredBills (contracts example_props) no_filter (savedBills example_props) = ?B"
    by code_simp
  have w: "whole_amounts ?B"
    by code_simp
  have g: "map (contractor_group ?B) (contractor_ids ?B)
           = [\<lparr>cs_name = ''Bolt'', cs_totalBills = 1, cs_grandTotal = Finite 1000,
                cs_totalDeductions = Finite 100, cs_netAmount = Finite 900\<rparr>,
              \<lparr>cs_name = ''Acme'', cs_totalBills = 1, cs_grandTotal = Finite 1000,
                cs_totalDeductions = Finite 100, cs_netAmount = Finite 900\<rparr>]"
    "map (month_group ?B) (months ?B)
           = [\<lparr>month = ''2024-03'', ms_totalBills = 1, ms_grandTotal = Finite 1000,
                ms_totalDeductions = Finite 100, ms_netAmount = Finite 900\<rparr>,
              \<lparr>month = ''2024-01'', ms_totalBills = 2, ms_grandTotal = Finite 2000,
                ms_totalDeductions = Finite 200, ms_netAmount = Finite 1800\<rparr>]"
    "contractor_ids ?B = [2, 1]" "months ?B = [''2024-03'', ''2024-01'']"
    by code_simp+
  have n: "length (filter (\<lambda>b. \<not> no_contractor b) ?B) = 2"
    "sum_netAmount (summary (filter (\<lambda>b. \<not> no_contractor b) ?B)) = Finite 1800"
    "sum_netAmount (summary ?B) = Finite 2700"
    "sum_totalDeductions (summary ?B) = Finite 300"
    by code_simp+
  from summary_groups [of "contracts example_props" no_filter "savedBills example_props"]
  show ?thesis
    unfolding e using w e g n by simp
qed

text \<open>
  C1 as the specification words it fails in two ways. A bill whose contractor id is missing
  or \<open>0\<close> is in no group of the Contractor Summary, whose groups then add up to 0 and not
  to the 900 of the bill. And the groups add up the bills in another order than the totals
  do: for the bills of 1000.1, 2500.35 and 750.45, the groups of either summary hold 1000.1
  and 3250.8, which add up to 4250.900000000001, while the three amounts in the order of
  the filtered bills add up to 4250.9.
\<close>

theorem group_sums_counterexample:
  "double_total (map cs_netAmount (contractorSummary (filteredBills [] no_filter [unattributed_bill])))
     = Finite 0
   \<and> sum_netAmount (summary (filteredBills [] no_filter [unattributed_bill])) = Finite 900
   \<and> double_total (map cs_netAmount (contractorSummary (filteredBills [] no_filter [zero_id_bill])))
     = Finite 0
   \<and> sum_netAmount (summary (filteredBills [] no_filter [zero_id_bill])) = Finite 900
   \<and> filteredBills [] no_filter [early_february_bill, march_bill, february_bill]
     = [march_bill, february_bill, early_february_bill]
   \<and> map netAmount [march_bill, february_bill, early_february_bill]
     = [literal (10001 / 10), literal (250035 / 100), literal (75045 / 100)]
   \<and> map cs_netAmount
        (contractorSummary (filteredBills [] no_filter [early_february_bill, march_bill, february_bill]))
     = [Finite (3574292399574221 / 1099511627776), Finite (8796972631510221 / 8796093022208)]
   \<and> map ms_netAmount
        (monthlySummary (filteredBills [] no_filter [early_february_bill, march_bill, february_bill]))
     = [Finite (8796972631510221 / 8796093022208), Finite (3574292399574221 / 1099511627776)]
   \<and> double_total
        (map cs_netAmount
           (contractorSummary (filteredBills [] no_filter [early_february_bill, march_bill, february_bill])))
     = Finite (4673913978512999 / 1099511627776)
   \<and> double_total
        (map ms_netAmount
           (monthlySummary (filteredBills [] no_filter [early_february_bill, march_bill, february_bill])))
     = Finite (4673913978512999 / 1099511627776)
   \<and> sum_netAmount (summary (filteredBills [] no_filter [early_february_bill, march_bill, february_bill]))
     = Finite (2336956989256499 / 549755813888)
   \<and> Finite (4673913978512999 / 1099511627776) \<noteq> Finite (2336956989256499 / 549755813888)"
  by code_simp


section \<open>The station summary\<close>




























text \<open>
  The sums are sums of doubles. An item of 0.1 kg before items of 0.2 kg and 0.3 kg from
  the same station gives 0.6000000000000001 kg dispatched, while the two later items alone
  give 0.5 kg, to which 0.1 kg adds up to 0.6 kg: what an item adds to a counter is what
  it adds at its turn.
\<close>

lemma station_sum_in_order:
  "dispatchedKgs (station_row (stationSummary
      [round_trip\<lparr>bill_items := [first_leg, second_leg, third_leg]\<rparr>]) ''X'')
     = Finite (1351079888211149 / 2251799813685248)
   \<and> dispatchedKgs (station_row (stationSummary
        [round_trip\<lparr>bill_items := [second_leg, third_leg]\<rparr>]) ''X'')
     = Finite (1 / 2)
   \<and> double_add (Finite (1 / 2)) (Finite (netKgs first_leg))
     = Finite (5404319552844595 / 9007199254740992)"
  by code_simp




section \<open>The CSV export\<close>

lemma digit_char_not_point:
  assumes "0 \<le> d" "d < 10"
  shows "digit_char d \<noteq> CHR ''.''"
proof
  assume "digit_char d = CHR ''.''"
  then have "(of_char (char_of (48 + d)) :: int) = of_char (CHR ''.'')"
    by (simp add: digit_char_def)
  with assms show False
    by simp
qed

lemma decimal_no_point: "0 \<le> n \<Longrightarrow> CHR ''.'' \<notin> set (decimal n)"
proof (induction n rule: decimal.induct)
  case (1 n)
  show ?case
  proof (cases "n < 10")
    case True
    with "1.prems" show ?thesis
      using digit_char_not_point [of n] by (subst decimal.simps) auto
  next
    case False
    have "0 \<le> n mod 10" "n mod 10 < 10" by simp_all
    moreover have "CHR ''.'' \<notin> set (decimal (n div 10))"
      using 1 False by simp
    ultimately show ?thesis
      using False digit_char_not_point [of "n mod 10"] by (subst decimal.simps) auto
  qed
qed

lemma fraction_digits_point:
  assumes "CHR ''.'' \<notin> set b"
  shows "fraction_digits (a @ ''.'' @ b) = Some (length b)"
proof -
  have "takeWhile (\<lambda>c. c \<noteq> CHR ''.'') (rev b @ CHR ''.'' # rev a) = rev b"
    using assms by (subst takeWhile_append2) auto
  then show ?thesis
    by (simp add: fraction_digits_def)
qed

lemma fraction_digits_toFixed:
  assumes "fixed_notation x" "f \<noteq> 0"
  shows "fraction_digits (toFixed x f) = Some f"
proof -
  define m where "m = decimal \<lfloor>\<bar>x\<bar> * 10 ^ f + 1 / 2\<rfloor>"
  define padded where "padded = (if length m \<le> f then replicate (f + 1 - length m) (CHR ''0'') @ m else m)"
  define s where "s = (if x < 0 then ''-'' else [])"
  have k: "f < length padded"
    by (auto simp: padded_def)
  have "0 \<le> \<lfloor>\<bar>x\<bar> * 10 ^ f + 1 / 2\<rfloor>"
    by simp
  then have "CHR ''.'' \<notin> set m"
    by (simp add: m_def decimal_no_point)
  then have np: "CHR ''.'' \<notin> set padded"
    by (auto simp: padded_def)
  then have "CHR ''.'' \<notin> set (drop (length padded - f) padded)"
    by (meson in_set_dropD)
  then have "fraction_digits ((s @ take (length padded - f) padded) @ ''.'' @ drop (length padded - f) padded)
             = Some (length (drop (length padded - f) padded))"
    by (rule fraction_digits_point)
  moreover have "toFixed x f = (s @ take (length padded - f) padded) @ ''.'' @ drop (length padded - f) padded"
    using assms unfolding toFixed_def Let_def m_def [symmetric] padded_def [symmetric] s_def [symmetric]
      fixed_notation_def
    by simp
  ultimately show ?thesis
    using k by simp
qed

text \<open>
  The text that \<open>toFixed\<close> gives for a number below \<open>10 ^ 21\<close> in magnitude reads as the
  numeral nearest to the number; the text for a larger number has an exponent.
\<close>

lemma digit_digit_char: "0 \<le> d \<Longrightarrow> d < 10 \<Longrightarrow> digit (digit_char d) = Some d"
proof -
  assume d: "0 \<le> d" "d < 10"
  define m where "m = nat (48 + d)"
  have m: "48 + d = int m" "48 \<le> m" "m \<le> 57"
    using d by (simp_all add: m_def)
  have "(of_char (char_of (int m)) :: nat) = m"
    using m(3) by simp
  with d m show ?thesis
    by (simp add: digit_def digit_char_def Let_def)
qed

lemma decimal_Nil: "decimal n \<noteq> []"
  by (subst decimal.simps) simp

lemma digits_acc_append:
  "digits_acc a (xs @ ys) = (case digits_acc a xs of None \<Rightarrow> None | Some b \<Rightarrow> digits_acc b ys)"
  by (induction xs arbitrary: a) (simp_all split: option.splits)

lemma digits_acc_decimal:
  "0 \<le> n \<Longrightarrow> digits_acc a (decimal n) = Some (a * 10 ^ length (decimal n) + n)"
proof (induction n arbitrary: a rule: decimal.induct)
  case (1 n)
  show ?case
  proof (cases "n < 10")
    case True
    with "1.prems" show ?thesis
      by (subst (1 2) decimal.simps) (simp add: digit_digit_char)
  next
    case False
    have m: "0 \<le> n mod 10" "n mod 10 < 10" by simp_all
    have ih: "digits_acc a (decimal (n div 10))
              = Some (a * 10 ^ length (decimal (n div 10)) + n div 10)"
      using 1 False by simp
    have "decimal n = decimal (n div 10) @ [digit_char (n mod 10)]"
      using False by (subst decimal.simps) simp
    then show ?thesis
      using ih m by (simp add: digits_acc_append digit_digit_char algebra_simps)
  qed
qed

lemma digits_acc_zeros: "digits_acc 0 (replicate j (CHR ''0'') @ xs) = digits_acc 0 xs"
  by (induction j) (simp_all add: digit_def)

lemma hd_decimal: "0 < n \<Longrightarrow> hd (decimal n) \<noteq> CHR ''0''"
proof (induction n rule: decimal.induct)
  case (1 n)
  show ?case
  proof (cases "n < 10")
    case True
    have "digit (digit_char n) = Some n"
      using True "1.prems" by (simp add: digit_digit_char)
    moreover have "digit (CHR ''0'') = Some 0"
      by (simp add: digit_def)
    ultimately have "digit_char n \<noteq> CHR ''0''"
      using "1.prems" by auto
    with True show ?thesis
      by (subst decimal.simps) simp
  next
    case False
    then have "hd (decimal (n div 10)) \<noteq> CHR ''0''"
      using 1 by simp
    with False show ?thesis
      by (subst decimal.simps) (simp add: decimal_Nil)
  qed
qed

lemma hd_decimal_not_minus: "0 \<le> n \<Longrightarrow> hd (decimal n) \<noteq> CHR ''-''"
proof (induction n rule: decimal.induct)
  case (1 n)
  show ?case
  proof (cases "n < 10")
    case True
    have "digit (digit_char n) = Some n"
      using True "1.prems" by (simp add: digit_digit_char)
    moreover have "digit (CHR ''-'') = None"
      by (simp add: digit_def)
    ultimately have "digit_char n \<noteq> CHR ''-''"
      by auto
    with True show ?thesis
      by (subst decimal.simps) simp
  next
    case False
    then have "hd (decimal (n div 10)) \<noteq> CHR ''-''"
      using 1 by simp
    with False show ?thesis
      by (subst decimal.simps) (simp add: decimal_Nil)
  qed
qed

lemma read_fixed_toFixed:
  assumes "fixed_notation x" "f \<noteq> 0"
  shows "read_fixed (toFixed x f) f = Some (x < 0, \<lfloor>\<bar>x\<bar> * 10 ^ f + 1 / 2\<rfloor>)"
proof -
  define n where "n = \<lfloor>\<bar>x\<bar> * 10 ^ f + 1 / 2\<rfloor>"
  define m where "m = decimal n"
  define padded where "padded = (if length m \<le> f then replicate (f + 1 - length m) (CHR ''0'') @ m else m)"
  define k where "k = length padded"
  define body where "body = take (k - f) padded @ ''.'' @ drop (k - f) padded"
  have n0: "0 \<le> n"
    by (simp add: n_def)
  have k: "f < k"
    by (auto simp: k_def padded_def)
  have tf: "toFixed x f = (if x < 0 then ''-'' else []) @ body"
    using assms unfolding toFixed_def Let_def n_def [symmetric] m_def [symmetric]
      padded_def [symmetric] k_def [symmetric] body_def fixed_notation_def
    by simp
  have lb: "length body = k + 1"
    using k by (simp add: body_def k_def)
  have mne: "m \<noteq> []"
    by (simp add: m_def decimal_Nil)
  have hp: "hd padded \<noteq> CHR ''-''"
    using hd_decimal_not_minus [OF n0] mne
    by (cases "f + 1 - length m") (auto simp: padded_def m_def)
  have pne: "padded \<noteq> []"
    using k by (auto simp: k_def)
  have hb: "hd body = hd padded"
    using k pne by (simp add: body_def k_def hd_append)
  have bne: "body \<noteq> []"
    by (simp add: body_def)
  have neg: "(take 1 (toFixed x f) = ''-'') = (x < 0)"
    using hp hb bne by (cases body) (auto simp: tf)
  have bd: "(if x < 0 then drop 1 (toFixed x f) else toFixed x f) = body"
    by (simp add: tf)
  have w: "take (length body - f - 1) body = take (k - f) padded"
    using k by (simp add: lb body_def k_def)
  have fr: "drop (length body - f) body = drop (k - f) padded"
    using k by (simp add: lb body_def k_def Suc_diff_le)
  have pt: "body ! (length body - f - 1) = CHR ''.''"
    using k by (simp add: lb body_def k_def nth_append)
  have canon: "length (take (k - f) padded) = 1 \<or> hd (take (k - f) padded) \<noteq> CHR ''0''"
  proof (cases "length m \<le> f")
    case True
    then have "k = f + 1"
      by (simp add: k_def padded_def)
    then show ?thesis
      using pne by (simp add: k_def)
  next
    case False
    then have p: "padded = m"
      by (simp add: padded_def)
    show ?thesis
    proof (cases "n = 0")
      case True
      then have "length m = 1"
        by (simp add: m_def decimal.simps)
      with False have "f = 0" by simp
      with assms show ?thesis by simp
    next
      case False
      with n0 have "hd m \<noteq> CHR ''0''"
        by (simp add: m_def hd_decimal)
      then show ?thesis
        using k pne by (simp add: p k_def)
    qed
  qed
  have dg: "digits (take (k - f) padded @ drop (k - f) padded) = Some n"
  proof -
    have "digits_acc 0 padded = digits_acc 0 m"
      by (simp add: padded_def digits_acc_zeros)
    also have "\<dots> = Some n"
      using digits_acc_decimal [OF n0, of 0] by (simp add: m_def)
    finally show ?thesis
      using pne by (simp add: digits_def)
  qed
  have le: "f + 2 \<le> length body"
    using k by (simp add: lb)
  show ?thesis
    unfolding read_fixed_def Let_def neg bd w fr n_def [symmetric]
    using le pt canon dg by simp
qed

lemma digits_acc_non_digit: "c \<in> set cs \<Longrightarrow> digit c = None \<Longrightarrow> digits_acc a cs = None"
  by (induction cs arbitrary: a) (auto split: option.splits)

lemma read_fixed_exponent:
  assumes "CHR ''e'' \<in> set s"
  shows "read_fixed s f = None"
proof -
  define body where "body = (if take 1 s = ''-'' then drop 1 s else s)"
  define pos where "pos = length body - f - 1"
  have e: "CHR ''e'' \<in> set body"
  proof (cases "take 1 s = ''-''")
    case True
    then obtain t where "s = CHR ''-'' # t"
      by (cases s) auto
    with assms True show ?thesis
      by (auto simp: body_def)
  next
    case False
    with assms show ?thesis
      by (simp add: body_def)
  qed
  have d: "digit (CHR ''e'') = None"
    by (simp add: digit_def)
  have "digits (take pos body @ drop (length body - f) body) = None"
    if "f + 2 \<le> length body" "body ! pos = CHR ''.''"
  proof -
    have p: "pos < length body" "length body - f = Suc pos"
      using that(1) by (simp_all add: pos_def)
    have "body = take pos body @ body ! pos # drop (Suc pos) body"
      using p(1) by (rule id_take_nth_drop)
    then have "set body = set (take pos body @ drop (Suc pos) body) \<union> {body ! pos}"
      by (metis Un_insert_right list.simps(15) set_append sup_bot.right_neutral)
    with e that(2) have "CHR ''e'' \<in> set (take pos body @ drop (Suc pos) body)"
      by auto
    then have "digits_acc 0 (take pos body @ drop (Suc pos) body) = None"
      using d by (rule digits_acc_non_digit)
    then show ?thesis
      by (simp add: digits_def p(2))
  qed
  then show ?thesis
    unfolding read_fixed_def Let_def body_def [symmetric] pos_def [symmetric]
    by auto
qed

lemma Number_toString_exponent: "CHR ''e'' \<in> set (Number_toString x)"
  unfolding Number_toString_def Let_def by (simp add: case_prod_beta)

lemma read_fixed_toFixed_large:
  assumes "\<not> fixed_notation x"
  shows "read_fixed (toFixed x f) f = None"
proof (rule read_fixed_exponent)
  have "toFixed x f = (if x < 0 then ''-'' else []) @ Number_toString \<bar>x\<bar>"
    using assms by (simp add: toFixed_def Let_def fixed_notation_def)
  then show "CHR ''e'' \<in> set (toFixed x f)"
    by (simp add: Number_toString_exponent)
qed


lemma figure_toFixed:
  assumes "map_of row column = Some (Text (toFixed x f))" "f \<noteq> 0"
  shows "figure row column x f"
  using assms
  by (simp add: figure_def fraction_digits_toFixed read_fixed_toFixed read_fixed_toFixed_large)

lemma csv_row_columns: "map fst (csv_row bill item) = csv_columns"
  by (simp add: csv_row_def csv_columns_def)

lemma csv_row_cells:
  "map_of (csv_row bill item) ''Net KGs'' = Some (Text (toFixed (netKgs item) 2))"
  "map_of (csv_row bill item) ''Bardana KGs'' = Some (Text (toFixed (bardanaKgs item) 3))"
  "map_of (csv_row bill item) ''Gross KGs'' = Some (Text (toFixed (grossKgs item) 2))"
  "map_of (csv_row bill item) ''Rate/Kg'' = Some (Text (toFixed (rate_per_kg item) 4))"
  "map_of (csv_row bill item) ''Amount (Rs)'' = Some (Text (toFixed (rs item) 2))"
  "map_of (csv_row bill item) ''Bill Grand Total'' = Some (Text (toFixed (grandTotal bill) 2))"
  "map_of (csv_row bill item) ''Bill Total Deductions'' = Some (Text (toFixed (totalDeductions bill) 2))"
  "map_of (csv_row bill item) ''Bill Net Amount'' = Some (Text (toFixed (netAmount bill) 2))"
  by (simp_all add: csv_row_def)

lemma csv_row_carried:
  "map_of (csv_row bill item) ''Bill #'' = Some (Text (bill_number bill))"
  "map_of (csv_row bill item) ''Bill Date'' = Some (Text (bill_date bill))"
  "map_of (csv_row bill item) ''Contractor'' = Some (Text (contractor_name bill))"
  "map_of (csv_row bill item) ''Sanctioned No'' = Some (Text (sanctioned_no bill))"
  "map_of (csv_row bill item) ''From'' = Some (Text (item_from item))"
  "map_of (csv_row bill item) ''To'' = Some (Text (item_to item))"
  "map_of (csv_row bill item) ''Mode'' = Some (Text (mode item))"
  "map_of (csv_row bill item) ''Total Bags'' = Some (Numeric (bags item))"
  "map_of (csv_row bill item) ''PP Bags'' = Some (Numeric (ppBags item))"
  "map_of (csv_row bill item) ''Jute Bags'' = Some (Numeric (juteBags item))"
  by (simp_all add: csv_row_def)

lemma csv_row_meets_contract: "csv_row_contract bill item (csv_row bill item)"
  unfolding csv_row_contract_def
  by (intro conjI csv_row_columns csv_row_carried figure_toFixed csv_row_cells) simp_all

lemma export_rows_items_of:
  "concat (map (\<lambda>bill. map (csv_row bill) (bill_items bill)) bills)
   = map (\<lambda>(bill, item). csv_row bill item) (items_of bills)"
  by (induction bills) (simp_all add: items_of_def comp_def)

lemma length_items_of: "length (items_of bills) = (\<Sum>bill\<leftarrow>bills. length (bill_items bill))"
  by (induction bills) (simp_all add: items_of_def)

text \<open>
  C6, as the code has it. The export refuses an empty selection of bills with the message
  "No data to export." and makes no row. For any other selection it makes one row for each
  item of each bill, bill after bill and item after item, and the row of an item meets the
  CSV field contract: it has the eighteen columns in their order, it carries the number,
  date, contractor and sanctioned number of the bill and the stations, mode and bag counts
  of the item, and each of the net kg, bardana kg, gross kg, rate and amount of the
  item and of the grand total, total deductions and net amount of the bill is written, if
  it is below \<open>10 ^ 21\<close> in magnitude, as the nearest decimal numeral with 2, 3, 2, 4, 2, 2,
  2 and 2 decimals, and with an exponent otherwise.
\<close>

theorem csv_export_rows:
  "(case handleExportCSV bills of
      Inl message \<Rightarrow> bills = [] \<and> message = ''No data to export.''
    | Inr rows \<Rightarrow>
        bills \<noteq> []
        \<and> length rows = (\<Sum>bill\<leftarrow>bills. length (bill_items bill))
        \<and> list_all2 (\<lambda>(bill, item) row. csv_row_contract bill item row) (items_of bills) rows)"
proof (cases "bills = []")
  case True
  then show ?thesis
    by (simp add: handleExportCSV_def)
next
  case False
  have "list_all2 (\<lambda>(bill, item) row. csv_row_contract bill item row) (items_of bills)
          (map (\<lambda>(bill, item). csv_row bill item) (items_of bills))"
    unfolding list_all2_map2 by (rule list_all2_refl) (simp add: csv_row_meets_contract split: prod.splits)
  with False show ?thesis
    by (simp add: handleExportCSV_def export_rows_items_of length_items_of)
qed

theorem csv_export_rows_witness:
  "list_all bill_fixed_notation [fraction_bill, example_bill]
   \<and> handleExportCSV [] = Inl ''No data to export.''
   \<and> handleExportCSV [fraction_bill, example_bill]
       = Inr [[(''Bill #'', Text ''M-1/10/129''), (''Bill Date'', Text ''2024-03-05''),
               (''Contractor'', Text ''Acme''), (''Sanctioned No'', Text ''S-77''),
               (''From'', Text ''X''), (''To'', Text ''Y''), (''Mode'', Text ''Truck''),
               (''Total Bags'', Numeric 10), (''PP Bags'', Numeric 6), (''Jute Bags'', Numeric 4),
               (''Net KGs'', Text ''1.00''), (''Bardana KGs'', Text ''0.125''),
               (''Gross KGs'', Text ''1.13''), (''Rate/Kg'', Text ''2.0375''),
               (''Amount (Rs)'', Text ''-0.00''), (''Bill Grand Total'', Text ''1100.10''),
               (''Bill Total Deductions'', Text ''100.00''), (''Bill Net Amount'', Text ''1000.10'')],
              [(''Bill #'', Text ''M-1/10/129''), (''Bill Date'', Text ''2024-03-05''),
               (''Contractor'', Text ''Acme''), (''Sanctioned No'', Text ''S-77''),
               (''From'', Text ''X''), (''To'', Text ''Z''), (''Mode'', Text ''Truck''),
               (''Total Bags'', Numeric 10), (''PP Bags'', Numeric 6), (''Jute Bags'', Numeric 4),
               (''Net KGs'', Text ''0.30''), (''Bardana KGs'', Text ''2.500''),
               (''Gross KGs'', Text ''502.50''), (''Rate/Kg'', Text ''2.0000''),
               (''Amount (Rs)'', Text ''0.75''), (''Bill Grand Total'', Text ''1100.10''),
               (''Bill Total Deductions'', Text ''100.00''), (''Bill Net Amount'', Text ''1000.10'')],
              [(''Bill #'', Text ''M-1/10/123''), (''Bill Date'', Text ''2024-01-15''),
               (''Contractor'', Text ''Acme''), (''Sanctioned No'', Text ''S-77''),
               (''From'', Text ''X''), (''To'', Text ''Y''), (''Mode'', Text ''Truck''),
               (''Total Bags'', Numeric 10), (''PP Bags'', Numeric 6), (''Jute Bags'', Numeric 4),
               (''Net KGs'', Text ''500.00''), (''Bardana KGs'', Text ''2.500''),
               (''Gross KGs'', Text ''502.50''), (''Rate/Kg'', Text ''2.0000''),
               (''Amount (Rs)'', Text ''1000.00''), (''Bill Grand Total'', Text ''1000.00''),
               (''Bill Total Deductions'', Text ''100.00''), (''Bill Net Amount'', Text ''900.00'')]]
   \<and> list_all2 (\<lambda>(bill, item) row. csv_row_contract bill item row)
        [(fraction_bill, fraction_item), (fraction_bill, third_leg), (example_bill, example_item)]
        (case handleExportCSV [fraction_bill, example_bill] of Inl message \<Rightarrow> [] | Inr rows \<Rightarrow> rows)
   \<and> read_fixed ''1.00'' 2 = Some (netKgs fraction_item < 0, \<lfloor>\<bar>netKgs fraction_item\<bar> * 10 ^ 2 + 1 / 2\<rfloor>)
   \<and> read_fixed ''-0.00'' 2 = Some (rs fraction_item < 0, \<lfloor>\<bar>rs fraction_item\<bar> * 10 ^ 2 + 1 / 2\<rfloor>)
   \<and> read_fixed ''2.0375'' 4
       = Some (rate_per_kg fraction_item < 0, \<lfloor>\<bar>rate_per_kg fraction_item\<bar> * 10 ^ 4 + 1 / 2\<rfloor>)"
proof -
  let ?rows = "case handleExportCSV [fraction_bill, example_bill] of Inl message \<Rightarrow> [] | Inr rows \<Rightarrow> rows"
  have f: "list_all bill_fixed_notation [fraction_bill, example_bill]"
    by code_simp
  have i: "items_of [fraction_bill, example_bill]
           = [(fraction_bill, fraction_item), (fraction_bill, third_leg), (example_bill, example_item)]"
    by (simp add: items_of_def fraction_bill_def example_bill_def)
  have e: "handleExportCSV [fraction_bill, example_bill]
       = Inr [[(''Bill #'', Text ''M-1/10/129''), (''Bill Date'', Text ''2024-03-05''),
               (''Contractor'', Text ''Acme''), (''Sanctioned No'', Text ''S-77''),
               (''From'', Text ''X''), (''To'', Text ''Y''), (''Mode'', Text ''Truck''),
               (''Total Bags'', Numeric 10), (''PP Bags'', Numeric 6), (''Jute Bags'', Numeric 4),
               (''Net KGs'', Text ''1.00''), (''Bardana KGs'', Text ''0.125''),
               (''Gross KGs'', Text ''1.13''), (''Rate/Kg'', Text ''2.0375''),
               (''Amount (Rs)'', Text ''-0.00''), (''Bill Grand Total'', Text ''1100.10''),
               (''Bill Total Deductions'', Text ''100.00''), (''Bill Net Amount'', Text ''1000.10'')],
              [(''Bill #'', Text ''M-1/10/129''), (''Bill Date'', Text ''2024-03-05''),
               (''Contractor'', Text ''Acme''), (''Sanctioned No'', Text ''S-77''),
               (''From'', Text ''X''), (''To'', Text ''Z''), (''Mode'', Text ''Truck''),
               (''Total Bags'', Numeric 10), (''PP Bags'', Numeric 6), (''Jute Bags'', Numeric 4),
               (''Net KGs'', Text ''0.30''), (''Bardana KGs'', Text ''2.500''),
               (''Gross KGs'', Text ''502.50''), (''Rate/Kg'', Text ''2.0000''),
               (''Amount (Rs)'', Text ''0.75''), (''Bill Grand Total'', Text ''1100.10''),
               (''Bill Total Deductions'', Text ''100.00''), (''Bill Net Amount'', Text ''1000.10'')],
              [(''Bill #'', Text ''M-1/10/123''), (''Bill Date'', Text ''2024-01-15''),
               (''Contractor'', Text ''Acme''), (''Sanctioned No'', Text ''S-77''),
               (''From'', Text ''X''), (''To'', Text ''Y''), (''Mode'', Text ''Truck''),
               (''Total Bags'', Numeric 10), (''PP Bags'', Numeric 6), (''Jute Bags'', Numeric 4),
               (''Net KGs'', Text ''500.00''), (''Bardana KGs'', Text ''2.500''),
               (''Gross KGs'', Text ''502.50''), (''Rate/Kg'', Text ''2.0000''),
               (''Amount (Rs)'', Text ''1000.00''), (''Bill Grand Total'', Text ''1000.00''),
               (''Bill Total Deductions'', Text ''100.00''), (''Bill Net Amount'', Text ''900.00'')]]"
    by code_simp
  have r: "read_fixed ''1.00'' 2 = Some (netKgs fraction_item < 0, \<lfloor>\<bar>netKgs fraction_item\<bar> * 10 ^ 2 + 1 / 2\<rfloor>)"
    "read_fixed ''-0.00'' 2 = Some (rs fraction_item < 0, \<lfloor>\<bar>rs fraction_item\<bar> * 10 ^ 2 + 1 / 2\<rfloor>)"
    "read_fixed ''2.0375'' 4
       = Some (rate_per_kg fraction_item < 0, \<lfloor>\<bar>rate_per_kg fraction_item\<bar> * 10 ^ 4 + 1 / 2\<rfloor>)"
    by code_simp+
  have n: "handleExportCSV [] = Inl ''No data to export.''"
    using csv_export_rows [of "[]"] by (cases "handleExportCSV []") simp_all
  have "list_all2 (\<lambda>(bill, item) row. csv_row_contract bill item row)
          (items_of [fraction_bill, example_bill]) ?rows"
    using csv_export_rows [of "[fraction_bill, example_bill]"]
    by (cases "handleExportCSV [fraction_bill, example_bill]") simp_all
  then show ?thesis
    unfolding i using f e r n by simp
qed

text \<open>
  C6 as the specification words it fails for a figure of \<open>10 ^ 21\<close> or more: the net kg
  of an item of \<open>10 ^ 21\<close> kg is written "1e+21", which has no decimals, and not with
  2 decimals.
\<close>

theorem csv_exponent_counterexample:
  "netKgs heavy_item = 10 ^ 21
   \<and> handleExportCSV [heavy_bill]
       = Inr [[(''Bill #'', Text ''M-1/10/123''), (''Bill Date'', Text ''2024-01-15''),
               (''Contractor'', Text ''Acme''), (''Sanctioned No'', Text ''S-77''),
               (''From'', Text ''X''), (''To'', Text ''Y''), (''Mode'', Text ''Truck''),
               (''Total Bags'', Numeric 10), (''PP Bags'', Numeric 6), (''Jute Bags'', Numeric 4),
               (''Net KGs'', Text ''1e+21''), (''Bardana KGs'', Text ''2.500''),
               (''Gross KGs'', Text ''502.50''), (''Rate/Kg'', Text ''2.0000''),
               (''Amount (Rs)'', Text ''1000.00''), (''Bill Grand Total'', Text ''1000.00''),
               (''Bill Total Deductions'', Text ''100.00''), (''Bill Net Amount'', Text ''900.00'')]]
   \<and> column_decimals (csv_row heavy_bill heavy_item) ''Net KGs'' = None
   \<and> column_decimals (csv_row heavy_bill heavy_item) ''Net KGs'' \<noteq> Some 2
   \<and> column_decimals (csv_row heavy_bill heavy_item) ''Gross KGs'' = Some 2"
  by code_simp


section \<open>Two runs on the same input\<close>

lemma consistent_antisym:
  assumes "consistent_comparator cmp xs" "a \<in> set xs" "b \<in> set xs"
    and "SortCompare cmp a b \<le> 0" "SortCompare cmp b a \<le> 0"
  shows "SortCompare cmp a b = 0"
proof (rule ccontr)
  assume n: "SortCompare cmp a b \<noteq> 0"
  with assms(4) have lt: "SortCompare cmp a b < 0" by simp
  have sym: "SortCompare cmp b a = 0 \<Longrightarrow> SortCompare cmp a b = 0"
    using assms(1-3) unfolding consistent_comparator_def by blast
  with n assms(5) have "SortCompare cmp b a < 0" by fastforce
  with lt have "SortCompare cmp a a < 0"
    using assms(1-3) unfolding consistent_comparator_def by blast
  moreover have "SortCompare cmp a a = 0"
    using assms(1,2) unfolding consistent_comparator_def by blast
  ultimately show False by simp
qed

lemma stable_sorted_unique:
  assumes "mset ys = mset zs"
    and "sorted_wrt (\<lambda>a b. le a b) ys" "sorted_wrt (\<lambda>a b. le a b) zs"
    and "\<forall>x \<in> set ys. filter (eqv x) ys = filter (eqv x) zs"
    and "\<forall>x \<in> set ys. eqv x x"
    and "\<forall>x \<in> set ys. \<forall>y \<in> set ys. le x y \<and> le y x \<longrightarrow> eqv x y"
  shows "ys = zs"
  using assms
proof (induction ys arbitrary: zs)
  case Nil
  then show ?case by simp
next
  case (Cons y ys)
  from Cons.prems(1) have "zs \<noteq> []" by auto
  then obtain z zs' where zs: "zs = z # zs'" by (cases zs) auto
  have sets: "set (y # ys) = set zs"
    using Cons.prems(1) by (rule mset_eq_setD)
  have yy: "eqv y y" using Cons.prems(5) by simp
  have "eqv y z"
  proof (cases "y = z")
    case True
    with yy show ?thesis by simp
  next
    case False
    with sets zs have "y \<in> set zs'" "z \<in> set ys" by auto
    then have "le z y" "le y z"
      using Cons.prems(2,3) zs by auto
    moreover have "z \<in> set (y # ys)" using sets zs by auto
    ultimately show ?thesis using Cons.prems(6) by auto
  qed
  moreover have "filter (eqv y) (y # ys) = filter (eqv y) zs"
    using Cons.prems(4) by simp
  ultimately have yz: "y = z"
    using yy zs by simp
  have "ys = zs'"
  proof (rule Cons.IH)
    show "mset ys = mset zs'" using Cons.prems(1) zs yz by simp
    show "sorted_wrt le ys" using Cons.prems(2) by simp
    show "sorted_wrt le zs'" using Cons.prems(3) zs by simp
    show "\<forall>x \<in> set ys. filter (eqv x) ys = filter (eqv x) zs'"
    proof
      fix x assume "x \<in> set ys"
      then have "filter (eqv x) (y # ys) = filter (eqv x) (y # zs')"
        using Cons.prems(4) zs yz by simp
      then show "filter (eqv x) ys = filter (eqv x) zs'"
        by (simp split: if_splits)
    qed
    show "\<forall>x \<in> set ys. eqv x x" using Cons.prems(5) by simp
    show "\<forall>x \<in> set ys. \<forall>y \<in> set ys. le x y \<and> le y x \<longrightarrow> eqv x y"
      using Cons.prems(6) by simp
  qed
  with zs yz show ?case by simp
qed

lemma sort_contract_unique:
  assumes c: "consistent_comparator cmp xs"
    and ys: "sort_contract cmp xs ys" and zs: "sort_contract cmp xs zs"
  shows "ys = zs"
proof (rule stable_sorted_unique
         [where le = "\<lambda>a b. SortCompare cmp a b \<le> 0" and eqv = "\<lambda>a b. SortCompare cmp a b = 0"])
  have sy: "set ys = set xs" using ys by (auto simp: sort_contract_def dest: mset_eq_setD)
  show "mset ys = mset zs" using ys zs by (simp add: sort_contract_def)
  show "sorted_wrt (\<lambda>a b. SortCompare cmp a b \<le> 0) ys" using c ys by (simp add: sort_contract_def)
  show "sorted_wrt (\<lambda>a b. SortCompare cmp a b \<le> 0) zs" using c zs by (simp add: sort_contract_def)
  show "\<forall>x \<in> set ys. filter (\<lambda>b. SortCompare cmp x b = 0) ys = filter (\<lambda>b. SortCompare cmp x b = 0) zs"
    using c ys zs sy by (simp add: sort_contract_def)
  show "\<forall>x \<in> set ys. SortCompare cmp x x = 0"
    using c sy by (simp add: consistent_comparator_def)
  show "\<forall>x \<in> set ys. \<forall>y \<in> set ys.
          SortCompare cmp x y \<le> 0 \<and> SortCompare cmp y x \<le> 0 \<longrightarrow> SortCompare cmp x y = 0"
    using consistent_antisym [OF c] sy by blast
qed

lemma consistent_key:
  fixes key :: "'a \<Rightarrow> 'n :: linordered_idom"
  assumes "\<And>a b. a \<in> set xs \<Longrightarrow> b \<in> set xs \<Longrightarrow> SortCompare cmp a b = key a - key b"
  shows "consistent_comparator cmp xs"
  unfolding consistent_comparator_def using assms by auto

lemma consistent_total:
  assumes "consistent_comparator cmp xs" "a \<in> set xs" "b \<in> set xs"
  shows "SortCompare cmp a b \<le> 0 \<or> SortCompare cmp b a \<le> 0"
proof (rule ccontr)
  assume "\<not> ?thesis"
  then have "SortCompare cmp a b > 0" "SortCompare cmp b a > 0" by auto
  then have "SortCompare cmp a a > 0"
    using assms unfolding consistent_comparator_def by blast
  moreover have "SortCompare cmp a a = 0"
    using assms(1,2) unfolding consistent_comparator_def by blast
  ultimately show False by simp
qed

lemma consistent_eqv:
  assumes "consistent_comparator cmp xs" "a \<in> set xs" "b \<in> set xs"
  shows "(SortCompare cmp a b = 0) = (SortCompare cmp a b \<le> 0 \<and> SortCompare cmp b a \<le> 0)"
proof
  assume e: "SortCompare cmp a b = 0"
  then have "SortCompare cmp b a = 0"
    using assms unfolding consistent_comparator_def by blast
  with e show "SortCompare cmp a b \<le> 0 \<and> SortCompare cmp b a \<le> 0" by simp
next
  assume "SortCompare cmp a b \<le> 0 \<and> SortCompare cmp b a \<le> 0"
  then show "SortCompare cmp a b = 0"
    using consistent_antisym [OF assms] by simp
qed

lemma consistent_trans:
  assumes c: "consistent_comparator cmp xs" and S: "a \<in> set xs" "b \<in> set xs" "c \<in> set xs"
    and ab: "SortCompare cmp a b \<le> 0" and bc: "SortCompare cmp b c \<le> 0"
  shows "SortCompare cmp a c \<le> 0"
proof (rule ccontr)
  assume "\<not> ?thesis"
  then have ac: "SortCompare cmp a c > 0" by simp
  have ca: "SortCompare cmp c a < 0"
  proof -
    have "SortCompare cmp c a \<le> 0"
      using consistent_total [OF c S(3) S(1)] ac by auto
    moreover have "SortCompare cmp c a \<noteq> 0"
      using consistent_eqv [OF c S(3) S(1)] ac by auto
    ultimately show ?thesis by simp
  qed
  have tl: "\<And>x y z. x \<in> set xs \<Longrightarrow> y \<in> set xs \<Longrightarrow> z \<in> set xs \<Longrightarrow>
              SortCompare cmp x y < 0 \<Longrightarrow> SortCompare cmp y z < 0 \<Longrightarrow> SortCompare cmp x z < 0"
    using c unfolding consistent_comparator_def by blast
  have te: "\<And>x y z. x \<in> set xs \<Longrightarrow> y \<in> set xs \<Longrightarrow> z \<in> set xs \<Longrightarrow>
              SortCompare cmp x y = 0 \<Longrightarrow> SortCompare cmp y z = 0 \<Longrightarrow> SortCompare cmp x z = 0"
    using c unfolding consistent_comparator_def by blast
  have sy: "\<And>x y. x \<in> set xs \<Longrightarrow> y \<in> set xs \<Longrightarrow>
              SortCompare cmp x y = 0 \<Longrightarrow> SortCompare cmp y x = 0"
    using c unfolding consistent_comparator_def by blast
  have rf: "\<And>x. x \<in> set xs \<Longrightarrow> SortCompare cmp x x = 0"
    using c unfolding consistent_comparator_def by blast
  consider "SortCompare cmp a b < 0" | "SortCompare cmp a b = 0" using ab by fastforce
  then show False
  proof cases
    case 1
    from tl [OF S(3) S(1) S(2) ca 1] have cb: "SortCompare cmp c b < 0" .
    consider "SortCompare cmp b c < 0" | "SortCompare cmp b c = 0" using bc by fastforce
    then show False
    proof cases
      case 1
      from tl [OF S(3) S(2) S(3) cb 1] rf [OF S(3)] show False by simp
    next
      case 2
      from sy [OF S(2) S(3) 2] cb show False by simp
    qed
  next
    case 2
    consider "SortCompare cmp b c < 0" | "SortCompare cmp b c = 0" using bc by fastforce
    then show False
    proof cases
      case 1
      from tl [OF S(2) S(3) S(1) 1 ca] sy [OF S(1) S(2) 2] show False by simp
    next
      case 2
      from te [OF S(1) S(2) S(3) \<open>SortCompare cmp a b = 0\<close> 2] ac show False by simp
    qed
  qed
qed

lemma set_insert_by: "set (insert_by cmp x ys) = insert x (set ys)"
  using mset_insert_by [of cmp x ys] by (metis set_mset_mset set_mset_add_mset_insert)

lemma js_sort_Cons: "js_sort cmp (x # xs) = insert_by cmp x (js_sort cmp xs)"
  by (simp add: js_sort_def)

lemma sorted_insert_by:
  assumes c: "consistent_comparator cmp xs" and x: "x \<in> set xs"
    and "set ys \<subseteq> set xs" "sorted_wrt (\<lambda>a b. SortCompare cmp a b \<le> 0) ys"
  shows "sorted_wrt (\<lambda>a b. SortCompare cmp a b \<le> 0) (insert_by cmp x ys)"
  using assms(3,4)
proof (induction ys)
  case Nil
  show ?case by simp
next
  case (Cons y ys)
  have y: "y \<in> set xs" using Cons.prems(1) by simp
  show ?case
  proof (cases "SortCompare cmp x y \<le> 0")
    case True
    have "\<forall>w \<in> set ys. SortCompare cmp x w \<le> 0"
    proof
      fix w assume w: "w \<in> set ys"
      then have "SortCompare cmp y w \<le> 0" using Cons.prems(2) by simp
      moreover have "w \<in> set xs" using w Cons.prems(1) by auto
      ultimately show "SortCompare cmp x w \<le> 0"
        using consistent_trans [OF c x y _ True] by blast
    qed
    with True Cons.prems(2) show ?thesis by simp
  next
    case False
    then have yx: "SortCompare cmp y x \<le> 0"
      using consistent_total [OF c x y] by simp
    have "sorted_wrt (\<lambda>a b. SortCompare cmp a b \<le> 0) (insert_by cmp x ys)"
      using Cons by simp
    with False yx Cons.prems(2) show ?thesis
      by (simp add: set_insert_by)
  qed
qed

lemma sorted_js_sort:
  assumes "consistent_comparator cmp xs" "set zs \<subseteq> set xs"
  shows "sorted_wrt (\<lambda>a b. SortCompare cmp a b \<le> 0) (js_sort cmp zs)"
  using assms(2)
proof (induction zs)
  case Nil
  show ?case by (simp add: js_sort_def)
next
  case (Cons z zs)
  then show ?case
    by (simp add: js_sort_Cons sorted_insert_by [OF assms(1)] set_js_sort)
qed

lemma filter_insert_by_other:
  "\<not> P x \<Longrightarrow> filter P (insert_by cmp x ys) = filter P ys"
  by (induction ys) simp_all

lemma filter_insert_by_eqv:
  assumes c: "consistent_comparator cmp xs" and k: "k \<in> set xs" and x: "x \<in> set xs"
    and kx: "SortCompare cmp k x = 0" and "set ys \<subseteq> set xs"
  shows "filter (\<lambda>b. SortCompare cmp k b = 0) (insert_by cmp x ys)
         = x # filter (\<lambda>b. SortCompare cmp k b = 0) ys"
  using assms(5)
proof (induction ys)
  case Nil
  show ?case using kx by simp
next
  case (Cons y ys)
  have y: "y \<in> set xs" using Cons.prems by simp
  show ?case
  proof (cases "SortCompare cmp x y \<le> 0")
    case True
    then show ?thesis using kx by simp
  next
    case False
    have "SortCompare cmp k y \<noteq> 0"
    proof
      assume ky: "SortCompare cmp k y = 0"
      have "SortCompare cmp x k = 0"
        using c k x kx unfolding consistent_comparator_def by blast
      with ky have "SortCompare cmp x y = 0"
        using c k x y unfolding consistent_comparator_def by blast
      with False show False by simp
    qed
    with False Cons show ?thesis by simp
  qed
qed

lemma stable_js_sort:
  assumes c: "consistent_comparator cmp xs" and k: "k \<in> set xs" and "set zs \<subseteq> set xs"
  shows "filter (\<lambda>b. SortCompare cmp k b = 0) (js_sort cmp zs)
         = filter (\<lambda>b. SortCompare cmp k b = 0) zs"
  using assms(3)
proof (induction zs)
  case Nil
  show ?case by (simp add: js_sort_def)
next
  case (Cons z zs)
  then have z: "z \<in> set xs" and sub: "set (js_sort cmp zs) \<subseteq> set xs"
    by (simp_all add: set_js_sort)
  show ?case
  proof (cases "SortCompare cmp k z = 0")
    case True
    from filter_insert_by_eqv [OF c k z True sub] Cons True show ?thesis
      by (simp add: js_sort_Cons)
  next
    case False
    with Cons show ?thesis
      by (simp add: js_sort_Cons filter_insert_by_other)
  qed
qed

text \<open>The result of the model of the sort is one that the language allows.\<close>

lemma js_sort_contract: "sort_contract cmp xs (js_sort cmp xs)"
  by (simp add: sort_contract_def mset_js_sort sorted_js_sort stable_js_sort)

lemma SortCompare_by_date_desc:
  assumes "valid_date a" "valid_date b"
  shows "SortCompare by_date_desc a b = date_key a - date_key b"
  using assms by (auto simp: valid_date_def SortCompare_def by_date_desc_def date_key_def)

lemma consistent_by_date_desc:
  assumes "list_all valid_date xs"
  shows "consistent_comparator by_date_desc xs"
  by (rule consistent_key [where key = date_key])
     (use assms in \<open>simp add: list_all_iff SortCompare_by_date_desc\<close>)

lemma consistent_rank:
  fixes rank :: "'a \<Rightarrow> 'k :: linorder" and cmp :: "'a \<Rightarrow> 'a \<Rightarrow> int option"
  assumes lt: "\<And>a b. a \<in> set xs \<Longrightarrow> b \<in> set xs \<Longrightarrow> (SortCompare cmp a b < 0) = (rank b < rank a)"
    and eq: "\<And>a b. a \<in> set xs \<Longrightarrow> b \<in> set xs \<Longrightarrow> (SortCompare cmp a b = 0) = (rank b = rank a)"
  shows "consistent_comparator cmp xs"
proof -
  have gt: "(SortCompare cmp a b > 0) = (rank a < rank b)" if "a \<in> set xs" "b \<in> set xs" for a b
    using lt [OF that] eq [OF that] by (metis not_less_iff_gr_or_eq)
  show ?thesis
    unfolding consistent_comparator_def
  proof (intro conjI ballI impI)
    fix a assume "a \<in> set xs"
    then show "SortCompare cmp a a = 0" by (simp add: eq)
  next
    fix a b assume "a \<in> set xs" "b \<in> set xs" "SortCompare cmp a b = 0"
    then show "SortCompare cmp b a = 0" by (simp add: eq)
  next
    fix a b c assume "a \<in> set xs" "b \<in> set xs" "c \<in> set xs"
      "SortCompare cmp a b = 0 \<and> SortCompare cmp b c = 0"
    then show "SortCompare cmp a c = 0" by (simp add: eq)
  next
    fix a b c assume "a \<in> set xs" "b \<in> set xs" "c \<in> set xs"
      "SortCompare cmp a b < 0 \<and> SortCompare cmp b c < 0"
    then show "SortCompare cmp a c < 0" by (auto simp: lt)
  next
    fix a b c assume "a \<in> set xs" "b \<in> set xs" "c \<in> set xs"
      "SortCompare cmp a b > 0 \<and> SortCompare cmp b c > 0"
    then show "SortCompare cmp a c > 0" by (auto simp: gt)
  qed
qed

text \<open>
  The amounts of the rows of a summary are sums, and so doubles other than \<open>NaN\<close>: the
  comparator of the summary is consistent on these rows.
\<close>

lemma contractor_rows_on_grid:
  assumes "list_all (\<lambda>r. on_grid (cs_netAmount r)) (Map_values m)"
  shows "list_all (\<lambda>r. on_grid (cs_netAmount r)) (Map_values (foldl contractor_step m bills))"
  using assms
proof (induction bills arbitrary: m)
  case Nil
  then show ?case by simp
next
  case (Cons b bills)
  have "list_all (\<lambda>r. on_grid (cs_netAmount r)) (Map_values (contractor_step m b))"
    unfolding contractor_step_def
    by (auto split: option.splits intro!: list_all_Map_modify list_all_Map_set Cons.prems
          simp: contractor_add_def on_grid_double_add)
  then show ?case
    using Cons.IH by simp
qed

lemma consistent_by_cs_netAmount_desc:
  "consistent_comparator by_cs_netAmount_desc (Map_values (foldl contractor_step [] bills))"
proof (rule consistent_rank [where rank = "\<lambda>r. double_rank (cs_netAmount r)"])
  fix a b
  assume "a \<in> set (Map_values (foldl contractor_step [] bills))"
    and "b \<in> set (Map_values (foldl contractor_step [] bills))"
  then have g: "on_grid (cs_netAmount b)" "on_grid (cs_netAmount a)"
    using contractor_rows_on_grid [of "[]" bills] by (simp_all add: Map_values_Nil list_all_iff)
  show "(SortCompare by_cs_netAmount_desc a b < 0)
         = (double_rank (cs_netAmount b) < double_rank (cs_netAmount a))"
    unfolding SortCompare_def by_cs_netAmount_desc_def by (rule double_sub_sign(1) [OF g])
  show "(SortCompare by_cs_netAmount_desc a b = 0)
         = (double_rank (cs_netAmount b) = double_rank (cs_netAmount a))"
    unfolding SortCompare_def by_cs_netAmount_desc_def by (rule double_sub_sign(2) [OF g])
qed

lemma contract_rows_on_grid:
  assumes "list_all (\<lambda>r. on_grid (totalAmount r)) (Map_values m)"
  shows "list_all (\<lambda>r. on_grid (totalAmount r)) (Map_values (foldl (contract_bill cs) m bills))"
  using assms
proof (induction bills arbitrary: m)
  case Nil
  then show ?case by simp
next
  case (Cons b bills)
  have item: "list_all (\<lambda>r. on_grid (totalAmount r)) (Map_values (contract_item cs b m' it))"
    if "list_all (\<lambda>r. on_grid (totalAmount r)) (Map_values m')" for m' it
    unfolding contract_item_def
    by (auto split: option.splits intro!: list_all_Map_modify list_all_Map_set that
          simp: contract_add_def on_grid_double_add)
  have "list_all (\<lambda>r. on_grid (totalAmount r)) (Map_values (foldl (contract_item cs b) m' its))"
    if "list_all (\<lambda>r. on_grid (totalAmount r)) (Map_values m')" for m' its
    using that by (induction its arbitrary: m') (simp_all add: item)
  then have "list_all (\<lambda>r. on_grid (totalAmount r)) (Map_values (contract_bill cs m b))"
    using Cons.prems by (simp add: contract_bill_def)
  then show ?case
    using Cons.IH by simp
qed

lemma consistent_by_totalAmount_desc:
  "consistent_comparator by_totalAmount_desc (Map_values (foldl (contract_bill cs) [] bills))"
proof (rule consistent_rank [where rank = "\<lambda>r. double_rank (totalAmount r)"])
  fix a b
  assume "a \<in> set (Map_values (foldl (contract_bill cs) [] bills))"
    and "b \<in> set (Map_values (foldl (contract_bill cs) [] bills))"
  then have g: "on_grid (totalAmount b)" "on_grid (totalAmount a)"
    using contract_rows_on_grid [of "[]" cs bills] by (simp_all add: Map_values_Nil list_all_iff)
  show "(SortCompare by_totalAmount_desc a b < 0)
         = (double_rank (totalAmount b) < double_rank (totalAmount a))"
    unfolding SortCompare_def by_totalAmount_desc_def by (rule double_sub_sign(1) [OF g])
  show "(SortCompare by_totalAmount_desc a b = 0)
         = (double_rank (totalAmount b) = double_rank (totalAmount a))"
    unfolding SortCompare_def by_totalAmount_desc_def by (rule double_sub_sign(2) [OF g])
qed

lemma station_rows_on_grid:
  assumes "list_all (\<lambda>r. on_grid (dispatchedValue r)) (Map_values m)"
  shows "list_all (\<lambda>r. on_grid (dispatchedValue r)) (Map_values (foldl station_bill m bills))"
  using assms
proof (induction bills arbitrary: m)
  case Nil
  then show ?case by simp
next
  case (Cons b bills)
  have item: "list_all (\<lambda>r. on_grid (dispatchedValue r)) (Map_values (station_item b m' it))"
    if "list_all (\<lambda>r. on_grid (dispatchedValue r)) (Map_values m')" for m' it
    unfolding station_item_def Let_def getStation_def
    by (intro list_all_Map_touch that)
       (simp_all add: new_station_def dispatch_def receive_def on_grid_double_add)
  have "list_all (\<lambda>r. on_grid (dispatchedValue r)) (Map_values (foldl (station_item b) m' its))"
    if "list_all (\<lambda>r. on_grid (dispatchedValue r)) (Map_values m')" for m' its
    using that by (induction its arbitrary: m') (simp_all add: item)
  then have "list_all (\<lambda>r. on_grid (dispatchedValue r)) (Map_values (station_bill m b))"
    using Cons.prems by (simp add: station_bill_def)
  then show ?case
    using Cons.IH by simp
qed

lemma consistent_by_dispatchedValue_desc:
  "consistent_comparator by_dispatchedValue_desc (Map_values (foldl station_bill [] bills))"
proof (rule consistent_rank [where rank = "\<lambda>r. double_rank (dispatchedValue r)"])
  fix a b
  assume "a \<in> set (Map_values (foldl station_bill [] bills))"
    and "b \<in> set (Map_values (foldl station_bill [] bills))"
  then have g: "on_grid (dispatchedValue b)" "on_grid (dispatchedValue a)"
    using station_rows_on_grid [of "[]" bills] by (simp_all add: Map_values_Nil list_all_iff)
  show "(SortCompare by_dispatchedValue_desc a b < 0)
         = (double_rank (dispatchedValue b) < double_rank (dispatchedValue a))"
    unfolding SortCompare_def by_dispatchedValue_desc_def by (rule double_sub_sign(1) [OF g])
  show "(SortCompare by_dispatchedValue_desc a b = 0)
         = (double_rank (dispatchedValue b) = double_rank (dispatchedValue a))"
    unfolding SortCompare_def by_dispatchedValue_desc_def by (rule double_sub_sign(2) [OF g])
qed

lemma SortCompare_by_month_desc:
  "(SortCompare by_month_desc a b < 0) = (month b < month a)"
  "(SortCompare by_month_desc a b = 0) = (month b = month a)"
  "(SortCompare by_month_desc a b > 0) = (month a < month b)"
  by (auto simp: SortCompare_def by_month_desc_def localeCompare_def)

lemma consistent_by_month_desc: "consistent_comparator by_month_desc xs"
  unfolding consistent_comparator_def SortCompare_by_month_desc by auto

text \<open>
  C8. Let every bill of the input have a date that the language can read. Then two runs of
  the bill filter on the same bills and filter state return the same list, which is the list
  of the model; and for each of the Contractor, Contract, Monthly and Station Summary, two
  runs on the same filtered bills return the same rows, which are the rows of the model. The
  Deduction-Category Summary and the totals do not sort, so that they are functions of the
  filtered bills.
\<close>

theorem two_run_determinism:
  assumes "list_all valid_date R"
    and "filteredBills_run cs f R bills" "filteredBills_run cs f R bills'"
    and "contractorSummary_run bills c" "contractorSummary_run bills' c'"
    and "contractSummary_run cs bills k" "contractSummary_run cs bills' k'"
    and "monthlySummary_run bills m" "monthlySummary_run bills' m'"
    and "stationSummary_run bills s" "stationSummary_run bills' s'"
  shows "bills' = bills \<and> bills = filteredBills cs f R
       \<and> c' = c \<and> c = contractorSummary bills
       \<and> k' = k \<and> k = contractSummary cs bills
       \<and> m' = m \<and> m = monthlySummary bills
       \<and> s' = s \<and> s = stationSummary bills
       \<and> deductionsSummary bills' = deductionsSummary bills
       \<and> summary bills' = summary bills"
proof -
  have "list_all valid_date (filter (bill_passes cs f) R)"
    using assms(1) by (simp add: list_all_iff)
  then have cd: "consistent_comparator by_date_desc (filter (bill_passes cs f) R)"
    by (rule consistent_by_date_desc)
  have b: "bills = filteredBills cs f R"
    using assms(2) unfolding filteredBills_run_def filteredBills_def
    by (rule sort_contract_unique [OF cd _ js_sort_contract])
  have b': "bills' = filteredBills cs f R"
    using assms(3) unfolding filteredBills_run_def filteredBills_def
    by (rule sort_contract_unique [OF cd _ js_sort_contract])
  have c: "c = contractorSummary bills"
    using assms(4) unfolding contractorSummary_run_def contractorSummary_def
    by (rule sort_contract_unique [OF consistent_by_cs_netAmount_desc _ js_sort_contract])
  have c': "c' = contractorSummary bills'"
    using assms(5) unfolding contractorSummary_run_def contractorSummary_def
    by (rule sort_contract_unique [OF consistent_by_cs_netAmount_desc _ js_sort_contract])
  have k: "k = contractSummary cs bills"
    using assms(6) unfolding contractSummary_run_def contractSummary_def
    by (rule sort_contract_unique [OF consistent_by_totalAmount_desc _ js_sort_contract])
  have k': "k' = contractSummary cs bills'"
    using assms(7) unfolding contractSummary_run_def contractSummary_def
    by (rule sort_contract_unique [OF consistent_by_totalAmount_desc _ js_sort_contract])
  have m: "m = monthlySummary bills"
    using assms(8) unfolding monthlySummary_run_def monthlySummary_def
    by (rule sort_contract_unique [OF consistent_by_month_desc _ js_sort_contract])
  have m': "m' = monthlySummary bills'"
    using assms(9) unfolding monthlySummary_run_def monthlySummary_def
    by (rule sort_contract_unique [OF consistent_by_month_desc _ js_sort_contract])
  have s: "s = stationSummary bills"
    using assms(10) unfolding stationSummary_run_def stationSummary_def
    by (rule sort_contract_unique [OF consistent_by_dispatchedValue_desc _ js_sort_contract])
  have s': "s' = stationSummary bills'"
    using assms(11) unfolding stationSummary_run_def stationSummary_def
    by (rule sort_contract_unique [OF consistent_by_dispatchedValue_desc _ js_sort_contract])
  from b b' c c' k k' m m' s s' show ?thesis by simp
qed

theorem two_run_determinism_witness:
  "list_all valid_date (savedBills example_props)
   \<and> filteredBills_run (contracts example_props) no_filter (savedBills example_props)
        [later_bill, example_bill, unattributed_bill]
   \<and> contractorSummary_run [later_bill, example_bill, unattributed_bill]
        (contractorSummary [later_bill, example_bill, unattributed_bill])
   \<and> contractSummary_run (contracts example_props) [later_bill, example_bill, unattributed_bill]
        (contractSummary (contracts example_props) [later_bill, example_bill, unattributed_bill])
   \<and> monthlySummary_run [later_bill, example_bill, unattributed_bill]
        (monthlySummary [later_bill, example_bill, unattributed_bill])
   \<and> stationSummary_run [later_bill, example_bill, unattributed_bill]
        (stationSummary [later_bill, example_bill, unattributed_bill])
   \<and> map cs_name (contractorSummary [later_bill, example_bill, unattributed_bill]) = [''Bolt'', ''Acme'']
   \<and> map totalTrips (contractSummary (contracts example_props) [later_bill, example_bill, unattributed_bill]) = [3]
   \<and> map month (monthlySummary [later_bill, example_bill, unattributed_bill]) = [''2024-03'', ''2024-01'']
   \<and> map st_name (stationSummary [later_bill, example_bill, unattributed_bill]) = [''X'', ''Y'']"
proof -
  let ?bills = "[later_bill, example_bill, unattributed_bill]"
  have v: "list_all valid_date (savedBills example_props)"
    by code_simp
  have e: "filteredBills (contracts example_props) no_filter (savedBills example_props) = ?bills"
    by code_simp
  have rb: "filteredBills_run (contracts example_props) no_filter (savedBills example_props) ?bills"
    using js_sort_contract [of by_date_desc
        "filter (bill_passes (contracts example_props) no_filter) (savedBills example_props)"]
    unfolding filteredBills_run_def e [unfolded filteredBills_def] .
  have rc: "contractorSummary_run ?bills (contractorSummary ?bills)"
    unfolding contractorSummary_run_def contractorSummary_def by (rule js_sort_contract)
  have rk: "contractSummary_run (contracts example_props) ?bills
              (contractSummary (contracts example_props) ?bills)"
    unfolding contractSummary_run_def contractSummary_def by (rule js_sort_contract)
  have rm: "monthlySummary_run ?bills (monthlySummary ?bills)"
    unfolding monthlySummary_run_def monthlySummary_def by (rule js_sort_contract)
  have rs: "stationSummary_run ?bills (stationSummary ?bills)"
    unfolding stationSummary_run_def stationSummary_def by (rule js_sort_contract)
  have n1: "map cs_name (contractorSummary ?bills) = [''Bolt'', ''Acme'']"
    by code_simp
  have n2: "map month (monthlySummary ?bills) = [''2024-03'', ''2024-01'']"
    by code_simp
  have n3: "map st_name (stationSummary ?bills) = [''X'', ''Y'']"
    by code_simp
  have n4: "map totalTrips (contractSummary (contracts example_props) ?bills) = [3]"
    by code_simp
  from two_run_determinism [OF v rb rb rc rc rk rk rm rm rs rs] v rb rc rk rm rs n1 n2 n3 n4
  show ?thesis by simp
qed


section \<open>The scenario of one bill\<close>

text \<open>
  The bill of the scenario alone gives one row for the contractor Acme, the rows of the
  stations X and Y, one row for the month and one for the contract, and its deductions as
  the totals of the categories.
\<close>

lemma scenario_contractorSummary:
  "contractorSummary [example_bill]
   = [\<lparr>cs_name = ''Acme'', cs_totalBills = 1, cs_grandTotal = Finite 1000, cs_totalDeductions = Finite 100,
       cs_netAmount = Finite 900\<rparr>]"
  by code_simp

lemma scenario_stationSummary:
  "stationSummary [example_bill]
   = [\<lparr>st_name = ''X'', dispatchedTrips = 1, dispatchedKgs = Finite 500, dispatchedValue = Finite 1000,
       receivedTrips = 0, receivedKgs = Finite 0, billIds = [''b1'']\<rparr>,
      \<lparr>st_name = ''Y'', dispatchedTrips = 0, dispatchedKgs = Finite 0, dispatchedValue = Finite 0,
       receivedTrips = 1, receivedKgs = Finite 500, billIds = [''b1'']\<rparr>]"
  by code_simp

lemma scenario_monthlySummary:
  "monthlySummary [example_bill]
   = [\<lparr>month = ''2024-01'', ms_totalBills = 1, ms_grandTotal = Finite 1000, ms_totalDeductions = Finite 100,
       ms_netAmount = Finite 900\<rparr>]"
  by code_simp

lemma scenario_deductionsSummary:
  "total (deductionsSummary [example_bill]) = Finite 100
   \<and> by_key (deductionsSummary [example_bill]) Income_tax = Some (Finite 40)
   \<and> by_key (deductionsSummary [example_bill]) Others = Some (Finite 5)
   \<and> by_key (deductionsSummary [example_bill]) Others_description = None"
  by code_simp

lemma scenario_contractSummary:
  "contractSummary [example_contract] [example_bill]
   = [\<lparr>cr_contract = example_contract, totalTrips = 1, totalNetKgs = Finite 500, totalAmount = Finite 1000,
       cr_billIds = [''b1'']\<rparr>]"
  by code_simp

end
